(* ===== verification/Go_Prelude.thy ===== *)
theory Go_Prelude
  imports Main "HOL-Library.AList" "HOL-Library.Multiset"
begin

section \<open>Prelude: outcomes of a Go call, Go maps, machine integers\<close>

text \<open>
  What every component shares: the outcome of a Go call as a value (a result, an error
  return, a panic, or the end of the process), the state-passing commands built from it,
  Go maps as association lists with distinct keys, and the 64-bit arithmetic of
  \<^verbatim>\<open>int\<close>, \<^verbatim>\<open>int64\<close> and \<^verbatim>\<open>uint64\<close> written over the integers. The collection
  \<open>res_simps\<close> rewrites the binds, \<open>gomap_simps\<close> the map operations.
\<close>

named_theorems res_simps \<open>binds over the outcomes of a call\<close>
named_theorems gomap_simps \<open>lookups after the map operations\<close>

subsection \<open>Outcomes\<close>

text \<open>
  An error value is the format of its \<^verbatim>\<open>fmt.Errorf\<close> or \<^verbatim>\<open>errors.New\<close> with the strings it is
  given, possibly around another error; \<open>External\<close> is an error of a package that is not
  part of the repository.
\<close>

datatype go_error =
    Errorf string "string list"
  | Wrapf string "string list" go_error
  | External string

text \<open>
  A call ends with a value, with an error return, with a panic (an index out of range, a
  failed type assertion, a reflect call on a zero Value), or the process exits
  (\<^verbatim>\<open>log.Fatalf\<close>, \<^verbatim>\<open>os.Exit\<close>).
\<close>

datatype 'a res = Ok (ok_val: 'a) | Err go_error | Panic | Exit

primrec res_bind :: "'a res \<Rightarrow> ('a \<Rightarrow> 'b res) \<Rightarrow> 'b res" where
  "res_bind (Ok x) f = f x"
| "res_bind (Err e) f = Err e"
| "res_bind Panic f = Panic"
| "res_bind Exit f = Exit"

declare res_bind.simps [res_simps]

primrec is_ok :: "'a res \<Rightarrow> bool" where
  "is_ok (Ok x) = True"
| "is_ok (Err e) = False"
| "is_ok Panic = False"
| "is_ok Exit = False"

lemma is_ok_iff: "is_ok r \<longleftrightarrow> (\<exists>x. r = Ok x)"
  by (cases r) auto

lemma res_bind_assoc [res_simps]:
  "res_bind (res_bind r f) g = res_bind r (\<lambda>x. res_bind (f x) g)"
  by (cases r) simp_all

lemma res_bind_Ok [simp]: "res_bind r Ok = r"
  by (cases r) simp_all

lemma res_bind_eq_Ok:
  "res_bind r f = Ok y \<longleftrightarrow> (\<exists>x. r = Ok x \<and> f x = Ok y)"
  by (cases r) auto

lemma res_bind_not_ok: "\<not> is_ok r \<Longrightarrow> res_bind r f = r"
  by (cases r) simp_all

lemma res_bind_cong [fundef_cong]:
  "r = r' \<Longrightarrow> (\<And>x. r' = Ok x \<Longrightarrow> f x = g x) \<Longrightarrow> res_bind r f = res_bind r' g"
  by (cases r') auto

text \<open>Running a fallible function along a list, stopping at the first failure.\<close>

fun res_map :: "('a \<Rightarrow> 'b res) \<Rightarrow> 'a list \<Rightarrow> 'b list res" where
  "res_map f [] = Ok []"
| "res_map f (x # xs) = res_bind (f x) (\<lambda>y. res_bind (res_map f xs) (\<lambda>ys. Ok (y # ys)))"

lemma res_map_cong [fundef_cong]:
  assumes "xs = ys" and "\<And>x. x \<in> set ys \<Longrightarrow> f x = g x"
  shows "res_map f xs = res_map g ys"
proof -
  have "(\<And>x. x \<in> set ys \<Longrightarrow> f x = g x) \<Longrightarrow> res_map f ys = res_map g ys"
    by (induction ys) auto
  then show ?thesis using assms by blast
qed

lemma res_map_Ok_iff:
  "res_map f xs = Ok ys \<longleftrightarrow> list_all2 (\<lambda>x y. f x = Ok y) xs ys"
  by (induction xs arbitrary: ys) (auto simp: res_bind_eq_Ok list_all2_Cons1)

lemma res_map_pure: "(\<And>x. x \<in> set xs \<Longrightarrow> f x = Ok (g x)) \<Longrightarrow> res_map f xs = Ok (map g xs)"
  by (induction xs) auto

lemma res_map_length: "res_map f xs = Ok ys \<Longrightarrow> length ys = length xs"
  by (auto simp: res_map_Ok_iff dest: list_all2_lengthD)

subsection \<open>Go maps\<close>

text \<open>
  A Go map is an association list with distinct keys: \<open>map_of\<close> reads it, \<open>AList.update\<close>
  and \<open>AList.delete\<close> write it, and the list order is one order in which a
  \<^verbatim>\<open>range\<close> statement could visit it. Two lists with the same \<open>map_of\<close> are the same
  Go map.
\<close>

type_synonym 'v gomap = "(string \<times> 'v) list"

abbreviation keys :: "('k \<times> 'v) list \<Rightarrow> 'k list" where
  "keys m \<equiv> map fst m"

definition wf_map :: "('k \<times> 'v) list \<Rightarrow> bool" where
  "wf_map m \<longleftrightarrow> distinct (keys m)"

text \<open>\<^verbatim>\<open>maps.Copy(dst, src)\<close>: every entry of \<open>src\<close> is stored into \<open>dst\<close>.\<close>

definition maps_copy :: "('k \<times> 'v) list \<Rightarrow> ('k \<times> 'v) list \<Rightarrow> ('k \<times> 'v) list" where
  "maps_copy dst src = fold (\<lambda>(k, v) m. AList.update k v m) src dst"

lemma wf_map_Nil [simp]: "wf_map []"
  by (simp add: wf_map_def)

lemma wf_map_update [simp, intro]: "wf_map m \<Longrightarrow> wf_map (AList.update k v m)"
  by (simp add: wf_map_def distinct_update)

lemma wf_map_delete [simp, intro]: "wf_map m \<Longrightarrow> wf_map (AList.delete k m)"
  by (simp add: wf_map_def distinct_delete)

lemma wf_map_copy [simp, intro]: "wf_map dst \<Longrightarrow> wf_map (maps_copy dst src)"
  unfolding maps_copy_def by (induction src arbitrary: dst) auto

lemma map_of_update_gomap [gomap_simps]: "map_of (AList.update k v m) = (map_of m)(k \<mapsto> v)"
  by (simp add: update_conv')

lemma map_of_delete_gomap [gomap_simps]: "map_of (AList.delete k m) = (map_of m)(k := None)"
  by (simp add: delete_conv')

lemma map_of_maps_copy_rev: "map_of (maps_copy dst src) = map_of dst ++ map_of (rev src)"
  unfolding maps_copy_def
proof (induction src arbitrary: dst)
  case Nil
  then show ?case by simp
next
  case (Cons p src)
  then show ?case
    by (cases p) (simp add: map_of_update_gomap map_add_upd_left map_add_assoc [symmetric] fun_eq_iff
        map_add_def split: option.splits)
qed

lemma keys_maps_copy: "set (keys (maps_copy dst src)) = set (keys dst) \<union> set (keys src)"
  unfolding maps_copy_def
proof (induction src arbitrary: dst)
  case (Cons p src)
  then show ?case
    by (cases p) (simp add: dom_update)
qed simp

lemma dom_map_of_keys [gomap_simps]: "dom (map_of m) = set (keys m)"
  by (simp add: dom_map_of_conv_image_fst)

lemma set_keys_eq_map_of: "map_of m = map_of m' \<Longrightarrow> set (keys m) = set (keys m')"
  by (metis dom_map_of_keys)

lemma mset_same_map:
  assumes "wf_map m" and "mset m' = mset m"
  shows "wf_map m'" and "map_of m' = map_of m"
proof -
  have "mset (keys m') = mset (keys m)"
    using assms(2) by simp
  then show d: "wf_map m'"
    using assms(1) unfolding wf_map_def by (metis mset_eq_imp_distinct_iff)
  show "map_of m' = map_of m"
    using assms d by (metis map_of_inject_set mset_eq_setD wf_map_def)
qed

lemma map_of_maps_copy [gomap_simps]:
  "wf_map src \<Longrightarrow> map_of (maps_copy dst src) = map_of dst ++ map_of src"
  using mset_same_map(2) [of src "rev src"] by (simp add: map_of_maps_copy_rev)

lemma wf_map_same_entries:
  assumes "wf_map m" and "wf_map m'" and "map_of m = map_of m'"
  shows "set m = set m'"
  using assms by (simp add: map_of_inject_set wf_map_def)

subsection \<open>Machine integers\<close>

text \<open>
  The value of an \<^verbatim>\<open>int\<close> or \<^verbatim>\<open>int64\<close> after an operation: the representative modulo
  $2^{64}$ in $[-2^{63}, 2^{63})$; of a \<^verbatim>\<open>uint64\<close>, the one in $[0, 2^{64})$.
\<close>

definition wrap64 :: "int \<Rightarrow> int" where
  "wrap64 i = (i + 2 ^ 63) mod 2 ^ 64 - 2 ^ 63"

definition wrap32 :: "int \<Rightarrow> int" where
  "wrap32 i = (i + 2 ^ 31) mod 2 ^ 32 - 2 ^ 31"

definition wrapu64 :: "int \<Rightarrow> int" where
  "wrapu64 i = i mod 2 ^ 64"

definition int64 :: "int \<Rightarrow> bool" where
  "int64 i \<longleftrightarrow> - (2 ^ 63) \<le> i \<and> i < 2 ^ 63"

lemma wrap64_id: "int64 i \<Longrightarrow> wrap64 i = i"
  by (simp add: wrap64_def int64_def)

lemma int64_wrap64 [simp]: "int64 (wrap64 i)"
proof -
  have "0 \<le> (i + 2 ^ 63) mod 2 ^ 64" and "(i + 2 ^ 63) mod 2 ^ 64 < 2 ^ 64"
    by simp_all
  then show ?thesis
    by (simp add: wrap64_def int64_def)
qed

lemma wrapu64_id: "0 \<le> i \<Longrightarrow> i < 2 ^ 64 \<Longrightarrow> wrapu64 i = i"
  by (simp add: wrapu64_def)

lemma wrap32_id: "- (2 ^ 31) \<le> i \<Longrightarrow> i < 2 ^ 31 \<Longrightarrow> wrap32 i = i"
  by (simp add: wrap32_def)

lemma wrap32_bounds: "- (2 ^ 31) \<le> wrap32 i \<and> wrap32 i < 2 ^ 31"
proof -
  have "0 \<le> (i + 2 ^ 31) mod 2 ^ 32" and "(i + 2 ^ 31) mod 2 ^ 32 < 2 ^ 32"
    by simp_all
  then show ?thesis
    by (simp add: wrap32_def)
qed

end
