(* ===== verification/Go_Strings.thy ===== *)
theory Go_Strings
  imports Go_Prelude
begin

section \<open>Go strings\<close>

text \<open>
  The part of Go's \<^verbatim>\<open>strings\<close>, \<^verbatim>\<open>strconv\<close> and \<^verbatim>\<open>fmt\<close> packages the SDK uses. A Go
  string is a list of bytes (\<open>char\<close> is a byte). The search functions are only called with
  a non-empty pattern, and every pattern is ASCII or a whole substring, so working on
  bytes agrees with working on code points.
\<close>

named_theorems str_simps \<open>rewriting the string functions\<close>

subsection \<open>Prefixes\<close>

fun strip_prefix :: "string \<Rightarrow> string \<Rightarrow> string option" where
  "strip_prefix [] s = Some s"
| "strip_prefix (p # ps) [] = None"
| "strip_prefix (p # ps) (c # cs) = (if p = c then strip_prefix ps cs else None)"

lemma strip_prefix_Some_iff: "strip_prefix p s = Some r \<longleftrightarrow> s = p @ r"
  by (induction p s rule: strip_prefix.induct) auto

lemma strip_prefix_append [simp]: "strip_prefix p (p @ r) = Some r"
  by (simp add: strip_prefix_Some_iff)

lemma strip_prefix_None_iff: "strip_prefix p s = None \<longleftrightarrow> (\<forall>r. s \<noteq> p @ r)"
  using strip_prefix_Some_iff [of p s] by (metis not_None_eq)

text \<open>\<^verbatim>\<open>strings.TrimPrefix\<close>\<close>

definition trim_prefix :: "string \<Rightarrow> string \<Rightarrow> string" where
  "trim_prefix s p = (case strip_prefix p s of None \<Rightarrow> s | Some r \<Rightarrow> r)"

text \<open>\<^verbatim>\<open>strings.TrimLeft\<close> with a one-character cut set\<close>

definition trim_left :: "string \<Rightarrow> char \<Rightarrow> string" where
  "trim_left s c = dropWhile (\<lambda>x. x = c) s"

subsection \<open>Replacing\<close>

text \<open>
  \<^verbatim>\<open>strings.Replace(s, old, new, -1)\<close> and \<^verbatim>\<open>strings.ReplaceAll\<close>: the non-overlapping
  occurrences of \<open>old\<close>, from the left; and \<^verbatim>\<open>strings.Replace(s, old, new, 1)\<close>.
\<close>

function replace_all :: "string \<Rightarrow> string \<Rightarrow> string \<Rightarrow> string" where
  "replace_all old new [] = []"
| "replace_all old new (c # cs) =
     (case strip_prefix old (c # cs) of
        None \<Rightarrow> c # replace_all old new cs
      | Some r \<Rightarrow> if old = [] then c # cs else new @ replace_all old new r)"
  by pat_completeness auto
termination
  by (relation "measure (\<lambda>(old, new, s). length s)") (auto simp: strip_prefix_Some_iff Cons_eq_append_conv)

declare replace_all.simps(2) [simp del]

fun replace_first :: "string \<Rightarrow> string \<Rightarrow> string \<Rightarrow> string" where
  "replace_first old new [] = (if old = [] then new else [])"
| "replace_first old new (c # cs) =
     (case strip_prefix old (c # cs) of
        None \<Rightarrow> c # replace_first old new cs
      | Some r \<Rightarrow> new @ r)"

lemma replace_all_hit [str_simps]:
  "old \<noteq> [] \<Longrightarrow> replace_all old new (old @ r) = new @ replace_all old new r"
proof -
  assume "old \<noteq> []"
  then obtain c cs where old: "old = c # cs"
    by (cases old) auto
  then show ?thesis
    by (simp add: replace_all.simps(2) [of "c # cs" new c "cs @ r"])
qed

lemma replace_all_miss [str_simps]:
  "strip_prefix old (c # cs) = None \<Longrightarrow> replace_all old new (c # cs) = c # replace_all old new cs"
  by (simp add: replace_all.simps(2))

text \<open>Characters before which the pattern cannot start are copied.\<close>

lemma replace_all_skip [str_simps]:
  assumes "c \<notin> set s" and "old = c # old'"
  shows "replace_all old new (s @ r) = s @ replace_all old new r"
  using assms(1)
proof (induction s)
  case Nil
  then show ?case by simp
next
  case (Cons x xs)
  then show ?case
    using assms(2) by (simp add: replace_all_miss)
qed

lemma replace_all_none:
  assumes "c \<notin> set s" and "old = c # old'"
  shows "replace_all old new s = s"
  using replace_all_skip [OF assms, of new "[]"] by simp

lemma replace_first_hit [str_simps]: "replace_first old new (old @ r) = new @ r"
proof (cases "old @ r")
  case Nil
  then show ?thesis by simp
next
  case (Cons c cs)
  then show ?thesis
    by (metis option.simps(5) replace_first.simps(2) strip_prefix_append)
qed

lemma replace_first_skip [str_simps]:
  assumes "c \<notin> set s" and "old = c # old'"
  shows "replace_first old new (s @ r) = s @ replace_first old new r"
  using assms by (induction s) auto

subsection \<open>Splitting and joining\<close>

text \<open>\<^verbatim>\<open>strings.Split(s, sep)\<close> for a one-character separator, and joining with a separator.\<close>

fun split_on :: "char \<Rightarrow> string \<Rightarrow> string list" where
  "split_on c [] = [[]]"
| "split_on c (x # xs) =
     (if x = c then [] # split_on c xs
      else (case split_on c xs of [] \<Rightarrow> [[x]] | y # ys \<Rightarrow> (x # y) # ys))"

fun join :: "string \<Rightarrow> string list \<Rightarrow> string" where
  "join sep [] = []"
| "join sep [s] = s"
| "join sep (s # t # ts) = s @ sep @ join sep (t # ts)"

lemma split_on_not_Nil [simp]: "split_on c s \<noteq> []"
  by (induction s) (auto split: list.splits)

lemma join_Cons: "join sep (s # ts) = (if ts = [] then s else s @ sep @ join sep ts)"
  by (cases ts) simp_all

lemma join_split_on: "join [c] (split_on c s) = s"
proof (induction s)
  case Nil
  then show ?case by simp
next
  case (Cons x xs)
  then obtain y ys where ys: "split_on c xs = y # ys"
    by (cases "split_on c xs") auto
  with Cons show ?case
    by (auto simp: join_Cons)
qed

lemma split_on_none: "c \<notin> set s \<Longrightarrow> split_on c s = [s]"
  by (induction s) auto

lemma split_on_sep_free: "p \<in> set (split_on c s) \<Longrightarrow> c \<notin> set p"
  by (induction s arbitrary: p) (auto split: list.splits if_splits)

lemma split_on_append: "c \<notin> set p \<Longrightarrow> split_on c (p @ c # s) = p # split_on c s"
  by (induction p) auto

lemma split_on_join:
  "ps \<noteq> [] \<Longrightarrow> (\<And>p. p \<in> set ps \<Longrightarrow> c \<notin> set p) \<Longrightarrow> split_on c (join [c] ps) = ps"
proof (induction ps)
  case Nil
  then show ?case by simp
next
  case (Cons p ps)
  then show ?case
    by (auto simp: join_Cons split_on_append split_on_none)
qed

lemma set_join: "set (join sep ps) \<subseteq> set sep \<union> (\<Union>p \<in> set ps. set p)"
  by (induction sep ps rule: join.induct) auto

subsection \<open>Character classes\<close>

definition char_between :: "nat \<Rightarrow> nat \<Rightarrow> char \<Rightarrow> bool" where
  "char_between lo hi c \<longleftrightarrow> lo \<le> of_char c \<and> of_char c \<le> hi"

definition is_digit :: "char \<Rightarrow> bool" where
  "is_digit c \<longleftrightarrow> char_between 48 57 c"

definition is_letter :: "char \<Rightarrow> bool" where
  "is_letter c \<longleftrightarrow> char_between 97 122 c \<or> char_between 65 90 c"

text \<open>The regular expression class \<^verbatim>\<open>\s\<close> of Go: tab, newline, form feed, return, space.\<close>

definition is_space :: "char \<Rightarrow> bool" where
  "is_space c \<longleftrightarrow> of_char c = (9::nat) \<or> of_char c = (10::nat) \<or> of_char c = (12::nat)
     \<or> of_char c = (13::nat) \<or> of_char c = (32::nat)"

text \<open>\<^verbatim>\<open>strings.ToLower\<close> on ASCII letters.\<close>

definition lower_char :: "char \<Rightarrow> char" where
  "lower_char c = (if char_between 65 90 c then char_of (of_char c + (32::nat)) else c)"

definition to_lower :: "string \<Rightarrow> string" where
  "to_lower s = map lower_char s"

subsection \<open>Decimal numbers\<close>

definition digit_char :: "nat \<Rightarrow> char" where
  "digit_char d = char_of (48 + d)"

definition digit_val :: "char \<Rightarrow> nat" where
  "digit_val c = of_char c - 48"

fun show_nat :: "nat \<Rightarrow> string" where
  "show_nat n = (if n < 10 then [digit_char n] else show_nat (n div 10) @ [digit_char (n mod 10)])"

declare show_nat.simps [simp del]

definition show_int :: "int \<Rightarrow> string" where
  "show_int i = (if i < 0 then CHR ''-'' # show_nat (nat (- i)) else show_nat (nat i))"

definition parse_nat :: "string \<Rightarrow> nat" where
  "parse_nat s = fold (\<lambda>c n. 10 * n + digit_val c) s 0"

text \<open>\<^verbatim>\<open>strconv.Atoi\<close> on a string of digits: an error when the value does not fit an int.\<close>

definition atoi_digits :: "string \<Rightarrow> int option" where
  "atoi_digits s = (if int (parse_nat s) < 2 ^ 63 then Some (int (parse_nat s)) else None)"

lemma of_char_digit_char: "d < 10 \<Longrightarrow> of_char (digit_char d) = 48 + d"
  by (simp add: digit_char_def)

lemma is_digit_digit_char: "d < 10 \<Longrightarrow> is_digit (digit_char d)"
  by (simp add: is_digit_def char_between_def of_char_digit_char)

lemma digit_val_digit_char: "d < 10 \<Longrightarrow> digit_val (digit_char d) = d"
  by (simp add: digit_val_def of_char_digit_char)

lemma parse_nat_snoc: "parse_nat (s @ [c]) = 10 * parse_nat s + digit_val c"
  by (simp add: parse_nat_def)

lemma show_nat_digits: "show_nat n \<noteq> [] \<and> list_all is_digit (show_nat n)"
proof (induction n rule: show_nat.induct)
  case (1 n)
  show ?case
    using 1 by (cases "n < 10") (simp_all add: show_nat.simps [of n] is_digit_digit_char)
qed

lemma parse_show_nat: "parse_nat (show_nat n) = n"
proof (induction n rule: show_nat.induct)
  case (1 n)
  show ?case
  proof (cases "n < 10")
    case True
    then show ?thesis
      by (simp add: show_nat.simps [of n] parse_nat_def digit_val_digit_char)
  next
    case False
    then show ?thesis
      using 1 by (simp add: show_nat.simps [of n] parse_nat_snoc digit_val_digit_char)
  qed
qed

lemma atoi_show_nat: "int n < 2 ^ 63 \<Longrightarrow> atoi_digits (show_nat n) = Some (int n)"
  by (simp add: atoi_digits_def parse_show_nat)

end
