(* ===== verification/Substitution_Regex.thy ===== *)
theory Substitution_Regex
  imports Go_Strings
begin

section \<open>The substitution markers\<close>

text \<open>
  The regular expression \<^verbatim>\<open>substitutionRegex\<close> of \<^verbatim>\<open>pluginmanager.go\<close>, which recognises
  the markers \<^verbatim>\<open>{TYPE::NAME}\<close>, \<^verbatim>\<open>{TYPE::NAME[]}\<close>, \<^verbatim>\<open>{TYPE::NAME[3]}\<close>, \<^verbatim>\<open>{TYPE::NAME['k']}\<close>
  and their double-quoted form. It is given twice: as the expression itself, with the meaning of
  regular expressions and capture groups as the relation \<open>rx\<close>, and as the executable
  matcher \<open>match_marker\<close>, which stands for one match of Go's engine at a position. The two
  agree (\<open>match_marker_iff\<close>), and a string has at most one prefix the expression matches,
  so the engine's preference order plays no part. \<open>FindAllStringSubmatch\<close> scans for the
  matches from the left, \<open>matchToEmbeddedVars\<close> reads a match, and
  \<open>templateVarSubstitution\<close> replaces the \<^verbatim>\<open>VAR\<close> markers of a path.
\<close>

subsection \<open>Regular expressions with capture groups\<close>

datatype rexp =
    Eps
  | Cls "char \<Rightarrow> bool"
  | Seq rexp rexp
  | Alt rexp rexp
  | Star rexp
  | Grp nat rexp

inductive rx :: "rexp \<Rightarrow> string \<Rightarrow> (nat \<times> string) list \<Rightarrow> bool" where
  eps: "rx Eps [] []"
| cls: "P c \<Longrightarrow> rx (Cls P) [c] []"
| seq: "rx r s cs \<Longrightarrow> rx r' s' cs' \<Longrightarrow> rx (Seq r r') (s @ s') (cs @ cs')"
| alt_left: "rx r s cs \<Longrightarrow> rx (Alt r r') s cs"
| alt_right: "rx r' s cs \<Longrightarrow> rx (Alt r r') s cs"
| star_done: "rx (Star r) [] []"
| star_more: "rx r s cs \<Longrightarrow> rx (Star r) s' cs' \<Longrightarrow> rx (Star r) (s @ s') (cs @ cs')"
| grp: "rx r s cs \<Longrightarrow> rx (Grp n r) s ((n, s) # cs)"

inductive_simps rx_eps [simp]: "rx Eps s cs"
inductive_simps rx_cls: "rx (Cls P) s cs"
inductive_simps rx_seq: "rx (Seq r r') s cs"
inductive_simps rx_alt [simp]: "rx (Alt r r') s cs"
inductive_simps rx_grp: "rx (Grp n r) s cs"
inductive_cases rx_starE: "rx (Star r) s cs"

fun lit :: "string \<Rightarrow> rexp" where
  "lit [] = Eps"
| "lit (c # cs) = Seq (Cls (\<lambda>x. x = c)) (lit cs)"

definition opt :: "rexp \<Rightarrow> rexp" where
  "opt r = Alt r Eps"

definition plus :: "rexp \<Rightarrow> rexp" where
  "plus r = Seq r (Star r)"

lemma rx_lit [simp]: "rx (lit w) s cs \<longleftrightarrow> s = w \<and> cs = []"
  by (induction w arbitrary: s cs) (auto simp: rx_seq rx_cls)

declare lit.simps [simp del]

lemma rx_star_cls_sound:
  "rx r s cs \<Longrightarrow> r = Star (Cls P) \<Longrightarrow> cs = [] \<and> list_all P s"
  by (induction rule: rx.induct) (auto simp: rx_cls)

lemma rx_star_cls [simp]: "rx (Star (Cls P)) s cs \<longleftrightarrow> cs = [] \<and> list_all P s"
proof
  assume "rx (Star (Cls P)) s cs"
  then show "cs = [] \<and> list_all P s"
    by (rule rx_star_cls_sound) simp
next
  assume h: "cs = [] \<and> list_all P s"
  then have "list_all P s" by simp
  then have "rx (Star (Cls P)) s []"
  proof (induction s)
    case Nil
    then show ?case by (simp add: rx.star_done)
  next
    case (Cons c s)
    then have "rx (Cls P) [c] []" and "rx (Star (Cls P)) s []"
      by (auto intro: rx.cls)
    from rx.star_more [OF this] show ?case by simp
  qed
  with h show "rx (Star (Cls P)) s cs" by simp
qed

lemma rx_plus_cls [simp]: "rx (plus (Cls P)) s cs \<longleftrightarrow> cs = [] \<and> s \<noteq> [] \<and> list_all P s"
proof
  assume "rx (plus (Cls P)) s cs"
  then show "cs = [] \<and> s \<noteq> [] \<and> list_all P s"
    by (auto simp: plus_def rx_seq rx_cls)
next
  assume h: "cs = [] \<and> s \<noteq> [] \<and> list_all P s"
  then obtain c s' where s: "s = c # s'"
    by (cases s) auto
  with h have "rx (Cls P) [c] []" and "rx (Star (Cls P)) s' []"
    by (auto intro: rx.cls)
  from rx.seq [OF this] h s show "rx (plus (Cls P)) s cs"
    by (simp add: plus_def)
qed

lemma rx_opt [simp]: "rx (opt r) s cs \<longleftrightarrow> rx r s cs \<or> (s = [] \<and> cs = [])"
  by (simp add: opt_def)

subsection \<open>The expression of the source\<close>

definition id_start :: "char \<Rightarrow> bool" where
  "id_start c \<longleftrightarrow> is_letter c \<or> c = CHR ''_''"

definition id_char :: "char \<Rightarrow> bool" where
  "id_char c \<longleftrightarrow> is_letter c \<or> c = CHR ''_'' \<or> is_digit c"

abbreviation squote :: char where "squote \<equiv> CHR 0x27"
abbreviation dquote :: char where "dquote \<equiv> CHR 0x22"

abbreviation spaces :: rexp where "spaces \<equiv> Star (Cls is_space)"

definition quotedRegex :: "char \<Rightarrow> nat \<Rightarrow> rexp" where
  "quotedRegex q n =
     Seq (lit ''['') (Seq spaces (Seq (lit [q]) (Seq (Grp n (Star (Cls (\<lambda>c. c \<noteq> q))))
       (Seq (lit [q]) (Seq spaces (lit '']''))))))"

definition indexRegex :: rexp where
  "indexRegex =
     Alt (Grp 3 (Seq (lit ''['') (Seq spaces (lit '']''))))
    (Alt (Seq (lit ''['') (Seq spaces (Seq (Grp 4 (plus (Cls is_digit))) (Seq spaces (lit '']'')))))
    (Alt (quotedRegex squote 5) (quotedRegex dquote 6)))"

definition substitutionRegex :: rexp where
  "substitutionRegex =
     Seq (lit ''{'') (Seq (Grp 1 (Alt (lit ''ATTR'') (Alt (lit ''VAR'') (lit ''ENV''))))
       (Seq (lit ''::'') (Seq (Grp 2 (Seq (Cls id_start) (Star (Cls id_char))))
         (Seq (opt indexRegex) (lit ''}'')))))"

text \<open>
  A match as Go's \<^verbatim>\<open>FindAllStringSubmatch\<close> returns it: the whole match and the six groups,
  the empty string for a group that took no part.
\<close>

record submatch =
  m0 :: string
  m1 :: string
  m2 :: string
  m3 :: string
  m4 :: string
  m5 :: string
  m6 :: string

definition group :: "(nat \<times> string) list \<Rightarrow> nat \<Rightarrow> string" where
  "group caps n = (case map_of caps n of None \<Rightarrow> [] | Some s \<Rightarrow> s)"

definition to_submatch :: "string \<Rightarrow> (nat \<times> string) list \<Rightarrow> submatch" where
  "to_submatch p caps = \<lparr>m0 = p, m1 = group caps 1, m2 = group caps 2, m3 = group caps 3,
     m4 = group caps 4, m5 = group caps 5, m6 = group caps 6\<rparr>"

subsection \<open>The matcher\<close>

definition match_type :: "string \<Rightarrow> (string \<times> string) option" where
  "match_type s =
     (case strip_prefix ''ATTR'' s of Some r \<Rightarrow> Some (''ATTR'', r) | None \<Rightarrow>
     (case strip_prefix ''VAR'' s of Some r \<Rightarrow> Some (''VAR'', r) | None \<Rightarrow>
     (case strip_prefix ''ENV'' s of Some r \<Rightarrow> Some (''ENV'', r) | None \<Rightarrow> None)))"

definition match_name :: "string \<Rightarrow> (string \<times> string) option" where
  "match_name s = (case s of [] \<Rightarrow> None
     | c # cs \<Rightarrow> if id_start c then Some (c # takeWhile id_char cs, dropWhile id_char cs) else None)"

text \<open>Trailing spaces and the closing bracket.\<close>

definition match_close :: "string \<Rightarrow> string option" where
  "match_close s = strip_prefix '']'' (dropWhile is_space s)"

definition match_quoted :: "char \<Rightarrow> string \<Rightarrow> (string \<times> string) option" where
  "match_quoted q s =
     (case strip_prefix [q] (dropWhile (\<lambda>c. c \<noteq> q) s) of None \<Rightarrow> None
      | Some r \<Rightarrow> map_option (Pair (takeWhile (\<lambda>c. c \<noteq> q) s)) (match_close r))"

definition match_digits :: "string \<Rightarrow> (string \<times> string) option" where
  "match_digits s = map_option (Pair (takeWhile is_digit s)) (match_close (dropWhile is_digit s))"

text \<open>The bracketed index: the captures of groups 3 to 6 and the rest of the input.\<close>

definition match_index :: "string \<Rightarrow> ((nat \<times> string) list \<times> string) option" where
  "match_index s =
     (case strip_prefix ''['' s of None \<Rightarrow> None | Some r \<Rightarrow>
       (let sp = takeWhile is_space r; r1 = dropWhile is_space r in
        (case r1 of [] \<Rightarrow> None
         | d # r2 \<Rightarrow>
             if d = CHR '']'' then Some ([(3, ''['' @ sp @ '']'')], r2)
             else if is_digit d then map_option (apfst (\<lambda>k. [(4, k)])) (match_digits r1)
             else if d = squote then map_option (apfst (\<lambda>k. [(5, k)])) (match_quoted squote r2)
             else if d = dquote then map_option (apfst (\<lambda>k. [(6, k)])) (match_quoted dquote r2)
             else None)))"

definition match_tail :: "string \<Rightarrow> ((nat \<times> string) list \<times> string) option" where
  "match_tail s = (case match_index s of
      Some (caps, r) \<Rightarrow> map_option (Pair caps) (strip_prefix ''}'' r)
    | None \<Rightarrow> map_option (Pair []) (strip_prefix ''}'' s))"

definition match_marker :: "string \<Rightarrow> (submatch \<times> string) option" where
  "match_marker s =
     (case strip_prefix ''{'' s of None \<Rightarrow> None | Some s1 \<Rightarrow>
     (case match_type s1 of None \<Rightarrow> None | Some (ty, s2) \<Rightarrow>
     (case strip_prefix ''::'' s2 of None \<Rightarrow> None | Some s3 \<Rightarrow>
     (case match_name s3 of None \<Rightarrow> None | Some (nm, s4) \<Rightarrow>
     (case match_tail s4 of None \<Rightarrow> None | Some (caps, rest) \<Rightarrow>
        Some (to_submatch (take (length s - length rest) s) ((1, ty) # (2, nm) # caps), rest))))))"


subsection \<open>The matcher accepts exactly the expression\<close>

lemma span_iff:
  "takeWhile P s = a \<and> dropWhile P s = b \<longleftrightarrow> s = a @ b \<and> list_all P a \<and> (b = [] \<or> \<not> P (hd b))"
proof
  assume h: "takeWhile P s = a \<and> dropWhile P s = b"
  then have "s = a @ b" and "list_all P a"
    by (metis takeWhile_dropWhile_id, metis list_all_iff set_takeWhileD)
  moreover have "b = [] \<or> \<not> P (hd b)"
    using h hd_dropWhile by metis
  ultimately show "s = a @ b \<and> list_all P a \<and> (b = [] \<or> \<not> P (hd b))"
    by simp
next
  assume h: "s = a @ b \<and> list_all P a \<and> (b = [] \<or> \<not> P (hd b))"
  then show "takeWhile P s = a \<and> dropWhile P s = b"
    by (cases b) (auto simp: list_all_iff takeWhile_append dropWhile_append)
qed

lemma span_Cons [simp]:
  "list_all P a \<Longrightarrow> \<not> P x \<Longrightarrow> takeWhile P (a @ x # b) = a"
  "list_all P a \<Longrightarrow> \<not> P x \<Longrightarrow> dropWhile P (a @ x # b) = x # b"
  using span_iff [of P "a @ x # b" a "x # b"] by simp_all

lemma dropWhile_eq_Cons:
  "dropWhile P s = x # b \<longleftrightarrow> (\<exists>a. s = a @ x # b \<and> list_all P a \<and> \<not> P x)"
  using span_iff [of P s _ "x # b"] by auto

lemma class_facts [simp]:
  "\<not> is_space (CHR '']'')" "\<not> is_space squote" "\<not> is_space dquote" "\<not> is_digit (CHR '']'')"
  "\<not> is_digit squote" "\<not> is_digit dquote" "\<not> id_char (CHR ''['')" "\<not> id_char (CHR ''}'')"
  by (simp_all add: is_space_def is_digit_def id_char_def is_letter_def char_between_def)

lemma digit_not_space: "is_digit c \<Longrightarrow> \<not> is_space c"
  by (auto simp: is_space_def is_digit_def char_between_def)

lemma match_close_iff:
  "match_close s = Some r \<longleftrightarrow> (\<exists>sp. s = sp @ CHR '']'' # r \<and> list_all is_space sp)"
  by (auto simp: match_close_def strip_prefix_Some_iff dropWhile_eq_Cons)

lemma match_quoted_iff:
  "match_quoted q s = Some (k, r) \<longleftrightarrow>
     (\<exists>sp. s = k @ q # sp @ CHR '']'' # r \<and> q \<notin> set k \<and> list_all is_space sp)"
proof
  assume "match_quoted q s = Some (k, r)"
  then obtain r' where d: "dropWhile (\<lambda>c. c \<noteq> q) s = q # r'" and k: "k = takeWhile (\<lambda>c. c \<noteq> q) s"
    and c: "match_close r' = Some r"
    by (auto simp: match_quoted_def strip_prefix_Some_iff split: option.splits)
  have "s = k @ q # r'"
    using d k by (metis takeWhile_dropWhile_id)
  moreover have "q \<notin> set k"
    using k set_takeWhileD by fastforce
  moreover from c obtain sp where "r' = sp @ CHR '']'' # r" and "list_all is_space sp"
    by (auto simp: match_close_iff)
  ultimately show "\<exists>sp. s = k @ q # sp @ CHR '']'' # r \<and> q \<notin> set k \<and> list_all is_space sp"
    by auto
next
  assume "\<exists>sp. s = k @ q # sp @ CHR '']'' # r \<and> q \<notin> set k \<and> list_all is_space sp"
  then obtain sp where s: "s = k @ q # sp @ CHR '']'' # r" and k: "q \<notin> set k"
    and sp: "list_all is_space sp"
    by blast
  have "list_all (\<lambda>c. c \<noteq> q) k"
    using k by (auto simp: list_all_iff)
  moreover have "match_close (sp @ CHR '']'' # r) = Some r"
    using sp by (auto simp: match_close_iff)
  ultimately show "match_quoted q s = Some (k, r)"
    by (simp add: match_quoted_def s)
qed

lemma match_digits_iff:
  "match_digits s = Some (k, r) \<longleftrightarrow>
     (\<exists>sp. s = k @ sp @ CHR '']'' # r \<and> list_all is_digit k \<and> list_all is_space sp)"
proof
  assume "match_digits s = Some (k, r)"
  then have k: "takeWhile is_digit s = k" and c: "match_close (dropWhile is_digit s) = Some r"
    by (auto simp: match_digits_def)
  from c obtain sp where "dropWhile is_digit s = sp @ CHR '']'' # r" and "list_all is_space sp"
    by (auto simp: match_close_iff)
  then show "\<exists>sp. s = k @ sp @ CHR '']'' # r \<and> list_all is_digit k \<and> list_all is_space sp"
    using span_iff [of is_digit s k] k by auto
next
  assume "\<exists>sp. s = k @ sp @ CHR '']'' # r \<and> list_all is_digit k \<and> list_all is_space sp"
  then obtain sp where s: "s = k @ sp @ CHR '']'' # r" and k: "list_all is_digit k"
    and sp: "list_all is_space sp"
    by blast
  have "\<not> is_digit (hd (sp @ CHR '']'' # r))"
    using sp digit_not_space by (cases sp) auto
  then have "takeWhile is_digit s = k" and "dropWhile is_digit s = sp @ CHR '']'' # r"
    using span_iff [of is_digit s k "sp @ CHR '']'' # r"] s k by simp_all
  moreover have "match_close (sp @ CHR '']'' # r) = Some r"
    using sp by (auto simp: match_close_iff)
  ultimately show "match_digits s = Some (k, r)"
    by (simp add: match_digits_def)
qed

text \<open>The words of the bracketed index, spelled out.\<close>

lemma rx_seq_lit: "rx (Seq (lit w) r) s cs \<longleftrightarrow> (\<exists>s'. s = w @ s' \<and> rx r s' cs)"
  unfolding rx_seq rx_lit by fastforce

lemma rx_seq_star: "rx (Seq (Star (Cls P)) r) s cs \<longleftrightarrow> (\<exists>a s'. s = a @ s' \<and> list_all P a \<and> rx r s' cs)"
  unfolding rx_seq rx_star_cls by fastforce

lemma rx_seq_grp:
  "rx (Seq (Grp n r) r') s cs \<longleftrightarrow>
     (\<exists>a s' c c'. s = a @ s' \<and> cs = (n, a) # c @ c' \<and> rx r a c \<and> rx r' s' c')"
  unfolding rx_seq rx_grp by (metis append_Cons)

lemmas rx_forms = rx_seq_lit rx_seq_star rx_seq_grp rx_grp

lemma rx_lit_seqI: "rx r s cs \<Longrightarrow> rx (Seq (lit w) r) (w @ s) cs"
  by (auto simp: rx_seq_lit)

lemma rx_star_seqI: "list_all P a \<Longrightarrow> rx r s cs \<Longrightarrow> rx (Seq (Star (Cls P)) r) (a @ s) cs"
  unfolding rx_seq_star by blast

lemma rx_grp_seqI: "rx r a [] \<Longrightarrow> rx r' s cs \<Longrightarrow> rx (Seq (Grp n r) r') (a @ s) ((n, a) # cs)"
  unfolding rx_seq_grp by (metis append_Nil)

lemma rx_litI: "rx (lit w) w []"
  by simp

lemmas rx_intros = rx_lit_seqI rx_star_seqI rx_grp_seqI rx_litI

lemma rx_quoted:
  "rx (quotedRegex q n) p caps \<longleftrightarrow>
     (\<exists>sp k sp'. p = ''['' @ sp @ [q] @ k @ [q] @ sp' @ '']'' \<and> caps = [(n, k)] \<and>
        list_all is_space sp \<and> list_all (\<lambda>c. c \<noteq> q) k \<and> list_all is_space sp')"
    (is "_ \<longleftrightarrow> ?forms")
proof
  show "rx (quotedRegex q n) p caps \<Longrightarrow> ?forms"
    unfolding quotedRegex_def by (auto simp: rx_forms)
next
  assume ?forms
  then show "rx (quotedRegex q n) p caps"
    unfolding quotedRegex_def by (elim exE conjE, hypsubst, intro rx_intros) simp_all
qed

lemma rx_empty_index:
  "rx (Grp 3 (Seq (lit ''['') (Seq spaces (lit '']'')))) p caps \<longleftrightarrow>
     (\<exists>sp. p = ''['' @ sp @ '']'' \<and> caps = [(3, p)] \<and> list_all is_space sp)"
  unfolding rx_forms rx_lit rx_star_cls by auto

lemma rx_num_index:
  "rx (Seq (lit ''['') (Seq spaces (Seq (Grp 4 (plus (Cls is_digit))) (Seq spaces (lit '']''))))) p caps \<longleftrightarrow>
     (\<exists>sp k sp'. p = ''['' @ sp @ k @ sp' @ '']'' \<and> caps = [(4, k)] \<and>
        list_all is_space sp \<and> k \<noteq> [] \<and> list_all is_digit k \<and> list_all is_space sp')"
    (is "?num \<longleftrightarrow> ?forms")
proof
  show "?num \<Longrightarrow> ?forms"
    unfolding rx_forms rx_lit rx_star_cls rx_plus_cls by auto
next
  assume ?forms
  then show ?num
    by (elim exE conjE, hypsubst, intro rx_intros) simp_all
qed

lemma other_chars: "list_all (\<lambda>c. c \<noteq> q) k \<longleftrightarrow> q \<notin> set k"
  by (auto simp: list_all_iff)

lemma match_index_unfold:
  assumes "list_all is_space sp" and "\<not> is_space d"
  shows "match_index (CHR ''['' # sp @ d # r2) =
     (if d = CHR '']'' then Some ([(3, ''['' @ sp @ '']'')], r2)
      else if is_digit d then map_option (apfst (\<lambda>k. [(4, k)])) (match_digits (d # r2))
      else if d = squote then map_option (apfst (\<lambda>k. [(5, k)])) (match_quoted squote r2)
      else if d = dquote then map_option (apfst (\<lambda>k. [(6, k)])) (match_quoted dquote r2)
      else None)"
  using assms by (simp add: match_index_def)

lemma match_index_complete:
  assumes "rx indexRegex p caps"
  shows "match_index (p @ r) = Some (caps, r)"
proof -
  consider (empty) sp where "p = CHR ''['' # sp @ '']''" "caps = [(3, p)]" "list_all is_space sp"
    | (num) sp k sp' where "p = CHR ''['' # sp @ k @ sp' @ '']''" "caps = [(4, k)]" "k \<noteq> []"
        "list_all is_space sp" "list_all is_digit k" "list_all is_space sp'"
    | (quoted) sp q n k sp' where "p = CHR ''['' # sp @ q # k @ q # sp' @ '']''" "caps = [(n, k)]"
        "list_all is_space sp" "q \<notin> set k" "list_all is_space sp'"
        "(q = squote \<and> n = 5) \<or> (q = dquote \<and> n = 6)"
    using assms unfolding indexRegex_def rx_alt rx_empty_index rx_num_index rx_quoted other_chars
    by (simp only: append_Cons append_Nil) blast
  then show ?thesis
  proof cases
    case empty
    then show ?thesis
      using match_index_unfold [of sp "CHR '']''" r] by simp
  next
    case num
    then obtain d k' where k: "k = d # k'"
      by (cases k) auto
    with num have d: "is_digit d" and "d \<noteq> CHR '']''"
      by auto
    moreover have "match_digits (d # k' @ sp' @ CHR '']'' # r) = Some (k, r)"
      unfolding match_digits_iff using num k by auto
    ultimately show ?thesis
      using match_index_unfold [of sp d "k' @ sp' @ CHR '']'' # r"] num k digit_not_space [OF d]
      by simp
  next
    case quoted
    then have "match_quoted q (k @ q # sp' @ CHR '']'' # r) = Some (k, r)"
      by (auto simp: match_quoted_iff)
    then show ?thesis
      using match_index_unfold [of sp q "k @ q # sp' @ CHR '']'' # r"] quoted by auto
  qed
qed

lemma quoted_index_sound:
  assumes "match_quoted qt r2 = Some (k, r)"
  shows "\<exists>sp'. list_all is_space sp' \<and> qt \<notin> set k \<and> r2 = k @ qt # sp' @ CHR '']'' # r"
  using assms by (auto simp: match_quoted_iff)

lemma index_body_sound:
  assumes "(if d = CHR '']'' then Some ([(3, ''['' @ sp @ '']'')], r2)
      else if is_digit d then map_option (apfst (\<lambda>k. [(4, k)])) (match_digits (d # r2))
      else if d = squote then map_option (apfst (\<lambda>k. [(5, k)])) (match_quoted squote r2)
      else if d = dquote then map_option (apfst (\<lambda>k. [(6, k)])) (match_quoted dquote r2)
      else None) = Some (caps, r)"
  obtains (empty) "d = CHR '']''" "caps = [(3, ''['' @ sp @ '']'')]" "r = r2"
    | (num) k where "d \<noteq> CHR '']''" "is_digit d" "caps = [(4, k)]" "match_digits (d # r2) = Some (k, r)"
    | (sq) k where "d = squote" "caps = [(5, k)]" "match_quoted squote r2 = Some (k, r)"
    | (dq) k where "d = dquote" "caps = [(6, k)]" "match_quoted dquote r2 = Some (k, r)"
  using assms by (auto simp: apfst_def map_prod_def split: if_splits prod.splits)

lemma match_index_sound:
  assumes "match_index s = Some (caps, r)"
  shows "\<exists>p. s = p @ r \<and> rx indexRegex p caps"
proof -
  obtain t where t: "s = CHR ''['' # t"
    using assms by (auto simp: match_index_def strip_prefix_Some_iff split: option.splits)
  then obtain d r2 where "dropWhile is_space t = d # r2"
    using assms by (cases "dropWhile is_space t") (auto simp: match_index_def)
  then obtain sp where sp: "t = sp @ d # r2" "list_all is_space sp" "\<not> is_space d"
    by (auto simp: dropWhile_eq_Cons)
  from assms [unfolded t sp(1) match_index_unfold [OF sp(2,3)]] show ?thesis
  proof (cases rule: index_body_sound)
    case empty
    then show ?thesis
      unfolding indexRegex_def rx_alt rx_empty_index
      by (intro exI [of _ "''['' @ sp @ '']''"]) (simp add: t sp)
  next
    case (num k)
    then obtain sp' where k': "d # r2 = k @ sp' @ CHR '']'' # r" "list_all is_digit k" "list_all is_space sp'"
      by (auto simp: match_digits_iff)
    have "k \<noteq> []"
      using k' num(2) digit_not_space by (cases k; cases sp') auto
    then show ?thesis
      unfolding indexRegex_def rx_alt rx_num_index
      using t sp num(3) k' by (intro exI [of _ "''['' @ sp @ k @ sp' @ '']''"]) auto
  next
    case (sq k)
    then obtain sp' where "list_all is_space sp'" "squote \<notin> set k" "r2 = k @ squote # sp' @ CHR '']'' # r"
      using quoted_index_sound by blast
    then show ?thesis
      unfolding indexRegex_def rx_alt rx_quoted other_chars
      using t sp sq(1,2) by (intro exI [of _ "''['' @ sp @ squote # k @ squote # sp' @ '']''"]) auto
  next
    case (dq k)
    then obtain sp' where "list_all is_space sp'" "dquote \<notin> set k" "r2 = k @ dquote # sp' @ CHR '']'' # r"
      using quoted_index_sound by blast
    then show ?thesis
      unfolding indexRegex_def rx_alt rx_quoted other_chars
      using t sp dq(1,2) by (intro exI [of _ "''['' @ sp @ dquote # k @ dquote # sp' @ '']''"]) auto
  qed
qed

text \<open>The name, the tail, and the whole marker.\<close>

lemma match_type_iff:
  "match_type s = Some (ty, r) \<longleftrightarrow> s = ty @ r \<and> (ty = ''ATTR'' \<or> ty = ''VAR'' \<or> ty = ''ENV'')"
  unfolding match_type_def
  by (auto simp: strip_prefix_Some_iff strip_prefix_None_iff split: option.splits)

lemma rx_name:
  "rx (Seq (Cls id_start) (Star (Cls id_char))) s cs \<longleftrightarrow>
     cs = [] \<and> (\<exists>c w. s = c # w \<and> id_start c \<and> list_all id_char w)"
  by (auto simp: rx_seq rx_cls) (metis append_Cons append_Nil)

lemma match_name_sound:
  assumes "match_name s = Some (nm, r)"
  shows "s = nm @ r \<and> rx (Seq (Cls id_start) (Star (Cls id_char))) nm []"
proof -
  from assms obtain c cs where "s = c # cs" "id_start c"
    "takeWhile id_char cs = tl nm \<and> dropWhile id_char cs = r" "nm = c # tl nm"
    by (auto simp: match_name_def split: list.splits if_splits)
  then show ?thesis
    unfolding rx_name span_iff by (metis append_Cons)
qed

lemma match_name_complete:
  assumes "rx (Seq (Cls id_start) (Star (Cls id_char))) nm cs" and "r = [] \<or> \<not> id_char (hd r)"
  shows "match_name (nm @ r) = Some (nm, r)"
proof -
  from assms(1) obtain c w where nm: "nm = c # w" "id_start c" "list_all id_char w"
    by (auto simp: rx_name)
  then have "takeWhile id_char (w @ r) = w \<and> dropWhile id_char (w @ r) = r"
    using assms(2) span_iff by blast
  with nm show ?thesis
    by (simp add: match_name_def)
qed

lemma rx_index_head: "rx indexRegex p caps \<Longrightarrow> \<exists>p'. p = CHR ''['' # p'"
  by (auto simp: indexRegex_def rx_empty_index rx_num_index rx_quoted)

lemma match_index_head: "match_index s \<noteq> None \<Longrightarrow> \<exists>t. s = CHR ''['' # t"
  by (auto simp: match_index_def strip_prefix_Some_iff split: option.splits)

lemma match_tail_sound:
  assumes "match_tail s = Some (caps, rest)"
  shows "\<exists>p. s = p @ ''}'' @ rest \<and> rx (opt indexRegex) p caps"
proof (cases "match_index s")
  case None
  with assms show ?thesis
    by (auto simp: match_tail_def strip_prefix_Some_iff)
next
  case (Some x)
  with assms obtain r where "match_index s = Some (caps, r)" and "r = ''}'' @ rest"
    by (cases x) (auto simp: match_tail_def strip_prefix_Some_iff)
  with match_index_sound show ?thesis
    by fastforce
qed

lemma match_tail_complete:
  assumes "rx (opt indexRegex) p caps"
  shows "match_tail (p @ ''}'' @ rest) = Some (caps, rest)"
proof (cases "rx indexRegex p caps")
  case True
  then show ?thesis
    using match_index_complete [OF True, of "''}'' @ rest"] by (simp add: match_tail_def)
next
  case False
  with assms have "p = []" and "caps = []" by auto
  moreover have "match_index (''}'' @ rest) = None"
    using match_index_head by fastforce
  ultimately show ?thesis
    by (simp add: match_tail_def)
qed

lemma rx_opt_tail_head:
  "rx (opt indexRegex) p caps \<Longrightarrow> \<not> id_char (hd (p @ ''}'' @ rest))"
  using rx_index_head by fastforce

text \<open>The words of the whole expression, and their groups.\<close>

lemma rx_marker_iff:
  "rx substitutionRegex p caps \<longleftrightarrow>
     (\<exists>ty nm t tcaps. p = ''{'' @ ty @ ''::'' @ nm @ t @ ''}'' \<and> caps = (1, ty) # (2, nm) # tcaps
        \<and> (ty = ''ATTR'' \<or> ty = ''VAR'' \<or> ty = ''ENV'')
        \<and> rx (Seq (Cls id_start) (Star (Cls id_char))) nm [] \<and> rx (opt indexRegex) t tcaps)"
    (is "?r \<longleftrightarrow> ?forms")
proof
  assume ?r
  then obtain ty s2 nm s3 c1 c2 c1' t where
    p: "p = ''{'' @ ty @ ''::'' @ nm @ s3" and caps: "caps = (1, ty) # c1 @ (2, nm) # c1' @ c2"
    and ty: "rx (Alt (lit ''ATTR'') (Alt (lit ''VAR'') (lit ''ENV''))) ty c1"
    and nm: "rx (Seq (Cls id_start) (Star (Cls id_char))) nm c1'"
    and tl: "rx (Seq (opt indexRegex) (lit ''}'')) s3 c2"
    unfolding substitutionRegex_def rx_forms by blast
  from tl obtain t where "s3 = t @ ''}''" and "rx (opt indexRegex) t c2"
    unfolding rx_seq rx_lit by (metis append_Nil2)
  moreover have "c1 = []" and "ty = ''ATTR'' \<or> ty = ''VAR'' \<or> ty = ''ENV''"
    using ty by auto
  moreover have "c1' = []"
    using nm by (simp add: rx_name)
  ultimately show ?forms
    using p caps nm by auto
next
  assume ?forms
  then obtain ty nm t tcaps where f: "p = ''{'' @ ty @ ''::'' @ nm @ t @ ''}''"
    "caps = (1, ty) # (2, nm) # tcaps" "ty = ''ATTR'' \<or> ty = ''VAR'' \<or> ty = ''ENV''"
    "rx (Seq (Cls id_start) (Star (Cls id_char))) nm []" "rx (opt indexRegex) t tcaps"
    by blast
  have "rx (Seq (opt indexRegex) (lit ''}'')) (t @ ''}'') (tcaps @ [])"
    by (rule rx.seq [OF f(5) rx_litI])
  then have "rx (Seq (opt indexRegex) (lit ''}'')) (t @ ''}'') tcaps"
    by (simp only: append_Nil2)
  moreover have "rx (Alt (lit ''ATTR'') (Alt (lit ''VAR'') (lit ''ENV''))) ty []"
    using f(3) by auto
  ultimately show ?r
    unfolding substitutionRegex_def f(1,2) by (intro rx_lit_seqI rx_grp_seqI f(4))
qed

text \<open>
  The executable matcher and the expression agree: the matcher succeeds exactly when a prefix
  of the input is a word of the expression, and it returns that prefix with its groups and the
  rest of the input.
\<close>

lemma take_prefix: "take (length (p @ r) - length r) (p @ r) = p"
  by simp

lemma match_marker_sound:
  assumes "match_marker s = Some (m, rest)"
  shows "\<exists>p caps. s = p @ rest \<and> rx substitutionRegex p caps \<and> m = to_submatch p caps"
proof -
  from assms obtain s1 ty s2 s3 nm s4 caps where
    s1: "s = ''{'' @ s1" and ty: "match_type s1 = Some (ty, s2)" and s3: "s2 = ''::'' @ s3"
    and nm: "match_name s3 = Some (nm, s4)" and tl: "match_tail s4 = Some (caps, rest)"
    and m: "m = to_submatch (take (length s - length rest) s) ((1, ty) # (2, nm) # caps)"
    by (auto simp: match_marker_def strip_prefix_Some_iff split: option.splits prod.splits)
  from match_tail_sound [OF tl] obtain t where t: "s4 = t @ ''}'' @ rest" "rx (opt indexRegex) t caps"
    by blast
  let ?p = "''{'' @ ty @ ''::'' @ nm @ t @ ''}''"
  have s: "s = ?p @ rest"
    using s1 ty s3 match_name_sound [OF nm] t(1) by (simp add: match_type_iff)
  have "rx substitutionRegex ?p ((1, ty) # (2, nm) # caps)"
    unfolding rx_marker_iff using ty match_name_sound [OF nm] t(2) by (auto simp: match_type_iff)
  moreover have "take (length s - length rest) s = ?p"
    unfolding s by (rule take_prefix)
  ultimately show ?thesis
    using s m by metis
qed

lemma match_marker_complete:
  assumes "rx substitutionRegex p caps"
  shows "match_marker (p @ rest) = Some (to_submatch p caps, rest)"
proof -
  from assms obtain ty nm t tcaps where p: "p = ''{'' @ ty @ ''::'' @ nm @ t @ ''}''"
    and caps: "caps = (1, ty) # (2, nm) # tcaps"
    and ty: "ty = ''ATTR'' \<or> ty = ''VAR'' \<or> ty = ''ENV''"
    and nm: "rx (Seq (Cls id_start) (Star (Cls id_char))) nm []"
    and t: "rx (opt indexRegex) t tcaps"
    unfolding rx_marker_iff by blast
  have 1: "strip_prefix ''{'' (p @ rest) = Some (ty @ ''::'' @ nm @ t @ ''}'' @ rest)"
    by (simp add: p)
  have 2: "match_type (ty @ ''::'' @ nm @ t @ ''}'' @ rest) = Some (ty, ''::'' @ nm @ t @ ''}'' @ rest)"
    using ty by (simp add: match_type_iff)
  have 3: "match_name (nm @ t @ ''}'' @ rest) = Some (nm, t @ ''}'' @ rest)"
    using match_name_complete [OF nm] rx_opt_tail_head [OF t] by blast
  have 4: "take (length (p @ rest) - length rest) (p @ rest) = p"
    by simp
  show ?thesis
    unfolding match_marker_def 1 4 option.case 2 prod.case strip_prefix_append 3
      match_tail_complete [OF t] caps by simp
qed

subsection \<open>All matches of a string\<close>

lemma marker_word_shape: "rx substitutionRegex p caps \<Longrightarrow> \<exists>u. p = CHR ''{'' # u @ ''}''"
  unfolding rx_marker_iff by auto

lemma match_marker_shape:
  "match_marker s = Some (m, rest) \<Longrightarrow> \<exists>u. m0 m = CHR ''{'' # u @ ''}'' \<and> s = m0 m @ rest"
  using match_marker_sound [of s m rest] marker_word_shape
  by (fastforce simp: to_submatch_def)

lemma match_marker_shorter: "match_marker s = Some (m, rest) \<Longrightarrow> length rest < length s"
  using match_marker_shape by fastforce

lemma match_marker_other: "c \<noteq> CHR ''{'' \<Longrightarrow> match_marker (c # s) = None"
  by (simp add: match_marker_def)

text \<open>
  \<^verbatim>\<open>substitutionRegex.FindAllStringSubmatch(s, -1)\<close>: the matches from the left, each search
  starting where the last match ended.
\<close>

function FindAllStringSubmatch :: "string \<Rightarrow> submatch list" where
  "FindAllStringSubmatch s =
     (case match_marker s of
        Some (m, rest) \<Rightarrow> m # FindAllStringSubmatch rest
      | None \<Rightarrow> (case s of [] \<Rightarrow> [] | _ # cs \<Rightarrow> FindAllStringSubmatch cs))"
  by pat_completeness auto
termination
  by (relation "measure length") (auto simp: match_marker_shorter)

declare FindAllStringSubmatch.simps [simp del]

lemma find_all_Nil [simp]: "FindAllStringSubmatch [] = []"
  by (subst FindAllStringSubmatch.simps) (simp add: match_marker_def)

lemma find_all_hit: "match_marker s = Some (m, rest) \<Longrightarrow> FindAllStringSubmatch s = m # FindAllStringSubmatch rest"
  by (subst FindAllStringSubmatch.simps) simp

lemma find_all_miss: "match_marker (c # s) = None \<Longrightarrow> FindAllStringSubmatch (c # s) = FindAllStringSubmatch s"
  by (subst FindAllStringSubmatch.simps) simp

lemma find_all_skip: "CHR ''{'' \<notin> set s \<Longrightarrow> FindAllStringSubmatch (s @ r) = FindAllStringSubmatch r"
  by (induction s) (auto simp: find_all_miss match_marker_other)

lemma find_all_none: "CHR ''{'' \<notin> set s \<Longrightarrow> FindAllStringSubmatch s = []"
  using find_all_skip [of s "[]"] by simp

lemma find_all_word:
  "rx substitutionRegex p caps \<Longrightarrow>
     FindAllStringSubmatch (p @ r) = to_submatch p caps # FindAllStringSubmatch r"
  by (rule find_all_hit) (rule match_marker_complete)

lemma find_all_m0: "m \<in> set (FindAllStringSubmatch s) \<Longrightarrow> \<exists>u. m0 m = CHR ''{'' # u @ ''}''"
proof (induction s rule: FindAllStringSubmatch.induct)
  case (1 s)
  show ?case
  proof (cases "match_marker s")
    case (Some x)
    with 1 show ?thesis
      using match_marker_shape by (cases x) (auto simp: find_all_hit)
  next
    case None
    with 1 show ?thesis
      by (cases s) (auto simp: find_all_miss)
  qed
qed

subsection \<open>Reading a match\<close>

record EmbeddedVar =
  ev_Type :: string
  ev_Varname :: string
  ev_IsArrayOrMap :: bool
  ev_ArrayIndex :: int
  ev_MapIndex :: string

text \<open>
  Group 4 holds digits only, so \<^verbatim>\<open>strconv.Atoi\<close> fails exactly when the number does not fit
  an \<^verbatim>\<open>int\<close>; the index then keeps its initial value -1.
\<close>

definition matchToEmbeddedVars :: "submatch \<Rightarrow> EmbeddedVar" where
  "matchToEmbeddedVars m =
     (let ev = \<lparr>ev_Type = m1 m, ev_Varname = m2 m, ev_IsArrayOrMap = False,
                ev_ArrayIndex = -1, ev_MapIndex = []\<rparr>
      in if m3 m \<noteq> [] then ev\<lparr>ev_IsArrayOrMap := True\<rparr>
         else if m4 m \<noteq> [] then
           (case atoi_digits (m4 m) of
              Some i \<Rightarrow> ev\<lparr>ev_IsArrayOrMap := True, ev_ArrayIndex := i\<rparr>
            | None \<Rightarrow> ev\<lparr>ev_IsArrayOrMap := True\<rparr>)
         else if m5 m \<noteq> [] then ev\<lparr>ev_IsArrayOrMap := True, ev_MapIndex := m5 m\<rparr>
         else if m6 m \<noteq> [] then ev\<lparr>ev_IsArrayOrMap := True, ev_MapIndex := m6 m\<rparr>
         else ev)"

text \<open>
  \<^verbatim>\<open>templateVarSubstitution\<close>: the matches are those of the template as given; each \<^verbatim>\<open>VAR\<close>
  match with a value replaces the first occurrence of its text.
\<close>

fun template_loop :: "string gomap \<Rightarrow> submatch list \<Rightarrow> string \<Rightarrow> string" where
  "template_loop vars [] template = template"
| "template_loop vars (m # ms) template =
     template_loop vars ms
       (if m1 m = ''VAR'' then
          (case map_of vars (m2 m) of
             Some val \<Rightarrow> replace_first (m0 m) val template
           | None \<Rightarrow> template)
        else template)"

definition templateVarSubstitution :: "string \<Rightarrow> string gomap \<Rightarrow> string" where
  "templateVarSubstitution template vars = template_loop vars (FindAllStringSubmatch template) template"

subsection \<open>The matcher is the expression\<close>

text \<open>C6. The backtracking-free matcher finds a marker at the front of a text exactly when a prefix
  of the text is a word of the source's regular expression, and then with the captures of that
  word; so the word and its captures are unique.\<close>

theorem match_marker_iff:
  "match_marker s = Some (m, rest) \<longleftrightarrow>
     (\<exists>p caps. s = p @ rest \<and> rx substitutionRegex p caps \<and> m = to_submatch p caps)"
  using match_marker_sound [of s m rest] match_marker_complete by blast

end
