(* ===== verification/Marker_Templates.thy ===== *)
theory Marker_Templates
  imports Substitution_Regex
begin

section \<open>Printing markers, and templates as segments\<close>

text \<open>
  An abstract syntax for the markers (\<open>print_marker\<close>) with the round trip through the
  matcher and \<open>matchToEmbeddedVars\<close>, and an abstract syntax for templates: a template is a
  list of segments, each a literal text without an opening brace or a marker without nested
  braces. Scanning and replacing on the printed template are described on the segments
  (\<open>find_all_segs\<close>, \<open>replace_all_segs\<close>, \<open>replace_first_segs\<close>), which is what the
  correctness of the substitutions rests on.
\<close>

subsection \<open>Printing and reading back a marker\<close>

datatype index = NoIndex | AllIndex | NumIndex nat | KeyIndex string

fun print_index :: "index \<Rightarrow> string" where
  "print_index NoIndex = []"
| "print_index AllIndex = ''[]''"
| "print_index (NumIndex n) = ''['' @ show_nat n @ '']''"
| "print_index (KeyIndex k) = ''['' @ [squote] @ k @ [squote] @ '']''"

definition print_marker :: "string \<Rightarrow> string \<Rightarrow> index \<Rightarrow> string" where
  "print_marker ty nm i = ''{'' @ ty @ ''::'' @ nm @ print_index i @ ''}''"

definition valid_name :: "string \<Rightarrow> bool" where
  "valid_name nm \<longleftrightarrow> (case nm of [] \<Rightarrow> False | c # cs \<Rightarrow> id_start c \<and> list_all id_char cs)"

definition valid_type :: "string \<Rightarrow> bool" where
  "valid_type ty \<longleftrightarrow> ty = ''ATTR'' \<or> ty = ''VAR'' \<or> ty = ''ENV''"

fun valid_index :: "index \<Rightarrow> bool" where
  "valid_index (KeyIndex k) \<longleftrightarrow> k \<noteq> [] \<and> squote \<notin> set k"
| "valid_index i \<longleftrightarrow> True"

fun index_caps :: "index \<Rightarrow> (nat \<times> string) list" where
  "index_caps NoIndex = []"
| "index_caps AllIndex = [(3, ''[]'')]"
| "index_caps (NumIndex n) = [(4, show_nat n)]"
| "index_caps (KeyIndex k) = [(5, k)]"

lemma rx_print_index:
  assumes "valid_index i"
  shows "rx (opt indexRegex) (print_index i) (index_caps i)"
proof (cases i)
  case NoIndex
  then show ?thesis by simp
next
  case AllIndex
  have "rx (Grp 3 (Seq (lit ''['') (Seq spaces (lit '']'')))) ''[]'' [(3, ''[]'')]"
    unfolding rx_empty_index by (rule exI [of _ "[]"]) simp
  with AllIndex show ?thesis
    by (simp add: indexRegex_def)
next
  case (NumIndex n)
  have "rx (Seq (lit ''['') (Seq spaces (Seq (Grp 4 (plus (Cls is_digit))) (Seq spaces (lit '']'')))))
      (''['' @ show_nat n @ '']'') [(4, show_nat n)]"
    unfolding rx_num_index using show_nat_digits [of n]
    by (intro exI [of _ "[]"] exI [of _ "show_nat n"]) simp
  with NumIndex show ?thesis
    by (simp add: indexRegex_def)
next
  case (KeyIndex k)
  have k: "list_all (\<lambda>c. c \<noteq> squote) k"
    using assms KeyIndex by (auto simp: list_all_iff)
  have "rx (quotedRegex squote 5) (''['' @ [squote] @ k @ [squote] @ '']'') [(5, k)]"
    unfolding rx_quoted
    by (rule exI [of _ "[]"], rule exI [of _ k], rule exI [of _ "[]"]) (simp add: k)
  with KeyIndex show ?thesis
    by (simp add: indexRegex_def)
qed

lemma rx_print_marker:
  assumes "valid_type ty" and "valid_name nm" and "valid_index i"
  shows "rx substitutionRegex (print_marker ty nm i) ((1, ty) # (2, nm) # index_caps i)"
proof -
  have "rx (Seq (Cls id_start) (Star (Cls id_char))) nm []"
    using assms(2) by (auto simp: rx_name valid_name_def split: list.splits)
  then show ?thesis
    unfolding rx_marker_iff print_marker_def
    using assms rx_print_index [OF assms(3)] by (auto simp: valid_type_def)
qed

text \<open>The groups a printed marker yields, and the variable reference they decode to.\<close>

definition marker_match :: "string \<Rightarrow> string \<Rightarrow> index \<Rightarrow> submatch" where
  "marker_match ty nm i = to_submatch (print_marker ty nm i) ((1, ty) # (2, nm) # index_caps i)"

fun index_var :: "string \<Rightarrow> string \<Rightarrow> index \<Rightarrow> EmbeddedVar" where
  "index_var ty nm NoIndex = \<lparr>ev_Type = ty, ev_Varname = nm, ev_IsArrayOrMap = False,
      ev_ArrayIndex = -1, ev_MapIndex = []\<rparr>"
| "index_var ty nm AllIndex = \<lparr>ev_Type = ty, ev_Varname = nm, ev_IsArrayOrMap = True,
      ev_ArrayIndex = -1, ev_MapIndex = []\<rparr>"
| "index_var ty nm (NumIndex n) = \<lparr>ev_Type = ty, ev_Varname = nm, ev_IsArrayOrMap = True,
      ev_ArrayIndex = (if int n < 2 ^ 63 then int n else -1), ev_MapIndex = []\<rparr>"
| "index_var ty nm (KeyIndex k) = \<lparr>ev_Type = ty, ev_Varname = nm, ev_IsArrayOrMap = True,
      ev_ArrayIndex = -1, ev_MapIndex = k\<rparr>"

lemma match_print_marker:
  assumes "valid_type ty" and "valid_name nm" and "valid_index i"
  shows "match_marker (print_marker ty nm i @ rest) = Some (marker_match ty nm i, rest)"
  unfolding marker_match_def by (rule match_marker_complete [OF rx_print_marker [OF assms]])

lemma decode_marker_match:
  assumes "valid_index i"
  shows "matchToEmbeddedVars (marker_match ty nm i) = index_var ty nm i"
  using assms show_nat_digits
  by (cases i) (simp_all add: matchToEmbeddedVars_def marker_match_def to_submatch_def group_def
      Let_def atoi_digits_def parse_show_nat)

lemma m0_marker_match [simp]: "m0 (marker_match ty nm i) = print_marker ty nm i"
  by (simp add: marker_match_def to_submatch_def)

subsection \<open>Templates as segments\<close>

datatype seg = Lit string | Mark string

primrec seg_str :: "seg \<Rightarrow> string" where
  "seg_str (Lit s) = s"
| "seg_str (Mark p) = p"

definition render :: "seg list \<Rightarrow> string" where
  "render segs = concat (map seg_str segs)"

text \<open>A marker with no brace inside: its only braces are the first and the last character.\<close>

definition plain_marker :: "string \<Rightarrow> bool" where
  "plain_marker p \<longleftrightarrow> (case match_marker p of Some (m, rest) \<Rightarrow> rest = [] | None \<Rightarrow> False)
     \<and> CHR ''{'' \<notin> set (tl p) \<and> CHR ''}'' \<notin> set (butlast p)"

primrec wf_seg :: "seg \<Rightarrow> bool" where
  "wf_seg (Lit s) \<longleftrightarrow> CHR ''{'' \<notin> set s"
| "wf_seg (Mark p) \<longleftrightarrow> plain_marker p"

definition seg_match :: "string \<Rightarrow> submatch" where
  "seg_match p = (case match_marker p of Some (m, rest) \<Rightarrow> m | None \<Rightarrow> to_submatch [] [])"

fun marks :: "seg list \<Rightarrow> string list" where
  "marks [] = []"
| "marks (Lit s # segs) = marks segs"
| "marks (Mark p # segs) = p # marks segs"

lemma render_simps [simp]:
  "render [] = []"
  "render (s # segs) = seg_str s @ render segs"
  "render (segs @ segs') = render segs @ render segs'"
  by (simp_all add: render_def)

lemma plain_marker_match:
  assumes "plain_marker p"
  shows "match_marker (p @ rest) = Some (seg_match p, rest)" and "m0 (seg_match p) = p"
proof -
  from assms obtain m where m: "match_marker p = Some (m, [])"
    by (auto simp: plain_marker_def split: option.splits prod.splits)
  from match_marker_sound [OF m] obtain caps where c: "rx substitutionRegex p caps" "m = to_submatch p caps"
    by auto
  from match_marker_complete [OF c(1)] show "match_marker (p @ rest) = Some (seg_match p, rest)"
    using m c by (simp add: seg_match_def)
  show "m0 (seg_match p) = p"
    using m c by (simp add: seg_match_def to_submatch_def)
qed

lemma plain_marker_shape:
  assumes "plain_marker p"
  obtains u where "p = CHR ''{'' # u @ ''}''" and "CHR ''{'' \<notin> set u" and "CHR ''}'' \<notin> set u"
proof -
  from assms obtain m where m: "match_marker p = Some (m, [])"
    by (auto simp: plain_marker_def split: option.splits prod.splits)
  from match_marker_shape [OF m] obtain u where u: "p = CHR ''{'' # u @ ''}''"
    by auto
  with assms have "CHR ''{'' \<notin> set u" and "CHR ''}'' \<notin> set u"
    by (auto simp: plain_marker_def butlast_append)
  with u show ?thesis
    by (rule that)
qed

lemma first_separator:
  assumes "c \<notin> set u" and "c \<notin> set v"
  shows "u @ c # x = v @ c # y \<longleftrightarrow> u = v \<and> x = y"
  using assms
proof (induction u arbitrary: v)
  case Nil
  then show ?case by (cases v) auto
next
  case (Cons a u)
  then show ?case by (cases v) auto
qed

lemma strip_plain:
  assumes "plain_marker p" and "plain_marker q"
  shows "strip_prefix p (q @ r) = (if p = q then Some r else None)"
proof -
  obtain u where u: "p = CHR ''{'' # u @ ''}''" "CHR ''}'' \<notin> set u"
    using plain_marker_shape [OF assms(1)] by blast
  obtain v where v: "q = CHR ''{'' # v @ ''}''" "CHR ''}'' \<notin> set v"
    using plain_marker_shape [OF assms(2)] by blast
  show ?thesis
  proof (cases "p = q")
    case True
    then show ?thesis by simp
  next
    case False
    have "q @ r \<noteq> p @ x" for x
      using False u v first_separator [OF v(2) u(2), of r x] by auto
    then show ?thesis
      using False by (simp add: strip_prefix_None_iff)
  qed
qed

text \<open>Scanning a template finds its markers, in order.\<close>

lemma find_all_segs:
  "list_all wf_seg segs \<Longrightarrow> FindAllStringSubmatch (render segs) = map seg_match (marks segs)"
proof (induction segs)
  case Nil
  then show ?case by simp
next
  case (Cons s segs)
  then show ?case
    by (cases s) (auto simp: find_all_skip find_all_hit [OF plain_marker_match(1)])
qed

text \<open>Replacing a marker's text replaces exactly the segments that are this marker.\<close>

definition put :: "string \<Rightarrow> string \<Rightarrow> seg \<Rightarrow> seg" where
  "put p t s = (if s = Mark p then Lit t else s)"

lemma put_simps [simp]: "put p t (Lit s) = Lit s" "put p t (Mark q) = (if q = p then Lit t else Mark q)"
  by (auto simp: put_def)

lemma replace_all_segs:
  assumes "plain_marker p" and "list_all wf_seg segs"
  shows "replace_all p t (render segs) = render (map (put p t) segs)"
  using assms(2)
proof (induction segs)
  case Nil
  then show ?case by simp
next
  case (Cons s segs)
  obtain u where u: "p = CHR ''{'' # u @ ''}''"
    using plain_marker_shape [OF assms(1)] by blast
  from Cons have IH: "replace_all p t (render segs) = render (map (put p t) segs)"
    by simp
  show ?case
  proof (cases s)
    case (Lit x)
    with Cons.prems have "replace_all p t (x @ render segs) = x @ replace_all p t (render segs)"
      using replace_all_skip [of "CHR ''{''" x p "u @ ''}''" t "render segs"] u by simp
    with Lit IH show ?thesis by simp
  next
    case (Mark q)
    with Cons.prems have q: "plain_marker q" by simp
    show ?thesis
    proof (cases "q = p")
      case True
      then show ?thesis
        using Mark IH replace_all_hit [of p t "render segs"] u by simp
    next
      case False
      obtain v where v: "q = CHR ''{'' # v @ ''}''" "CHR ''{'' \<notin> set v"
        using plain_marker_shape [OF q] by blast
      have "strip_prefix p (q @ render segs) = None"
        using strip_plain [OF assms(1) q] False by simp
      then have "replace_all p t (q @ render segs) = CHR ''{'' # replace_all p t ((v @ ''}'') @ render segs)"
        by (simp add: v(1) replace_all_miss)
      also have "\<dots> = q @ render (map (put p t) segs)"
        using replace_all_skip [of "CHR ''{''" "v @ ''}''" p "u @ ''}''" t "render segs"] v u IH by simp
      finally show ?thesis
        using Mark False by simp
    qed
  qed
qed

lemma replace_first_segs:
  assumes "plain_marker p" and "list_all wf_seg segs" and "Mark p \<notin> set segs"
  shows "replace_first p t (render segs @ p @ r) = render segs @ t @ r"
  using assms(2,3)
proof (induction segs)
  case Nil
  then show ?case by (simp add: replace_first_hit)
next
  case (Cons s segs)
  obtain u where u: "p = CHR ''{'' # u @ ''}''"
    using plain_marker_shape [OF assms(1)] by blast
  from Cons have IH: "replace_first p t (render segs @ p @ r) = render segs @ t @ r"
    by simp
  show ?case
  proof (cases s)
    case (Lit x)
    with Cons.prems have "replace_first p t (x @ render segs @ p @ r) = x @ replace_first p t (render segs @ p @ r)"
      using replace_first_skip [of "CHR ''{''" x p "u @ ''}''" t "render segs @ p @ r"] u by simp
    with Lit IH show ?thesis by simp
  next
    case (Mark q)
    with Cons.prems have q: "plain_marker q" and "q \<noteq> p" by auto
    obtain v where v: "q = CHR ''{'' # v @ ''}''" "CHR ''{'' \<notin> set v"
      using plain_marker_shape [OF q] by blast
    have "strip_prefix p (q @ render segs @ p @ r) = None"
      using strip_plain [OF assms(1) q] \<open>q \<noteq> p\<close> by simp
    then have "replace_first p t (q @ render segs @ p @ r)
        = CHR ''{'' # replace_first p t ((v @ ''}'') @ render segs @ p @ r)"
      by (simp add: v(1))
    also have "\<dots> = q @ render segs @ t @ r"
      using replace_first_skip [of "CHR ''{''" "v @ ''}''" p "u @ ''}''" t "render segs @ p @ r"] v u IH
      by simp
    finally show ?thesis
      using Mark by simp
  qed
qed

lemma wf_put [simp]: "wf_seg s \<Longrightarrow> CHR ''{'' \<notin> set t \<Longrightarrow> wf_seg (put p t s)"
  by (cases s) auto

subsection \<open>Template variables\<close>

text \<open>
  What \<^verbatim>\<open>templateVarSubstitution\<close> means on segments: every \<^verbatim>\<open>VAR\<close> marker whose name has a
  value becomes that value, everything else stays.
\<close>

definition var_value :: "string gomap \<Rightarrow> string \<Rightarrow> string option" where
  "var_value vars p = (if m1 (seg_match p) = ''VAR'' then map_of vars (m2 (seg_match p)) else None)"

primrec fill_var :: "string gomap \<Rightarrow> seg \<Rightarrow> seg" where
  "fill_var vars (Lit s) = Lit s"
| "fill_var vars (Mark p) = (case var_value vars p of Some val \<Rightarrow> Lit val | None \<Rightarrow> Mark p)"

lemma fill_var_not_Mark: "var_value vars p = Some val \<Longrightarrow> Mark p \<noteq> fill_var vars s"
  by (cases s) (auto split: option.splits)

lemma template_loop_segs:
  assumes "list_all wf_seg pre" and "list_all wf_seg segs"
    and "\<forall>p val. var_value vars p = Some val \<longrightarrow> Mark p \<notin> set pre"
    and "\<forall>val \<in> set (map snd vars). CHR ''{'' \<notin> set val"
  shows "template_loop vars (map seg_match (marks segs)) (render pre @ render segs)
    = render pre @ render (map (fill_var vars) segs)"
  using assms(1-3)
proof (induction segs arbitrary: pre)
  case Nil
  then show ?case by simp
next
  case (Cons s segs)
  show ?case
  proof (cases s)
    case (Lit x)
    then show ?thesis
      using Cons.IH [of "pre @ [Lit x]"] Cons.prems by simp
  next
    case (Mark p)
    with Cons.prems have p: "plain_marker p" by simp
    show ?thesis
    proof (cases "var_value vars p")
      case None
      have "template_loop vars (map seg_match (marks segs)) (render (pre @ [Mark p]) @ render segs)
          = render (pre @ [Mark p]) @ render (map (fill_var vars) segs)"
        using Cons.IH [of "pre @ [Mark p]"] Cons.prems Mark None by fastforce
      then show ?thesis
        using Mark None by (auto simp: var_value_def split: if_splits)
    next
      case (Some val)
      then have val: "CHR ''{'' \<notin> set val"
        using assms(4) by (force simp: var_value_def split: if_splits dest: map_of_SomeD)
      have "replace_first p val (render pre @ p @ render segs) = render pre @ val @ render segs"
        using replace_first_segs [OF p Cons.prems(1)] Cons.prems(3) Some by blast
      moreover have "template_loop vars (map seg_match (marks segs)) (render (pre @ [Lit val]) @ render segs)
          = render (pre @ [Lit val]) @ render (map (fill_var vars) segs)"
        using Cons.IH [of "pre @ [Lit val]"] Cons.prems val by simp
      ultimately show ?thesis
        using Mark Some plain_marker_match(2) [OF p]
        by (auto simp: var_value_def split: if_splits)
    qed
  qed
qed

subsection \<open>Properties\<close>

text \<open>C7. Printing and reading back: a marker printed from a type, a name and an index is matched at
  the front of any text, leaves that text, and decodes to its type, name and index. An index of
  $2^{63}$ or more reads back as no number, that is as an empty pair of brackets.\<close>

theorem print_decode_marker:
  assumes "valid_type ty" and "valid_name nm" and "valid_index i"
  shows "map_option (\<lambda>(m, r). (m0 m, matchToEmbeddedVars m, r)) (match_marker (print_marker ty nm i @ rest))
    = Some (print_marker ty nm i, index_var ty nm i, rest)"
  using match_print_marker [OF assms] decode_marker_match [OF assms(3)] by simp

theorem print_decode_marker_witness:
  "map_option (\<lambda>(m, r). (m0 m, matchToEmbeddedVars m, r))
     (match_marker (print_marker ''ATTR'' ''x1'' (KeyIndex ''k y'') @ ''/a''))
    = Some (''{ATTR::x1['' @ [squote] @ ''k y'' @ [squote] @ '']}'',
        index_var ''ATTR'' ''x1'' (KeyIndex ''k y''), ''/a'')"
proof -
  have "valid_type ''ATTR''" "valid_name ''x1''" "valid_index (KeyIndex ''k y'')"
    by code_simp+
  from print_decode_marker [OF this, of "''/a''"] show ?thesis
    by (simp add: print_marker_def)
qed

text \<open>Filling the variables of a template string: on a template of literals and plain markers,
  every \<^verbatim>\<open>VAR\<close> marker with a value becomes that value and everything else stays, also
  when a marker occurs more than once, provided no value contains an opening brace.\<close>

theorem templateVarSubstitution_segs:
  assumes "list_all wf_seg segs" and "\<forall>v \<in> set (map snd vars). CHR ''{'' \<notin> set v"
  shows "templateVarSubstitution (render segs) vars = render (map (fill_var vars) segs)"
  using template_loop_segs [of "[]" segs vars] find_all_segs [OF assms(1)] assms
  by (simp add: templateVarSubstitution_def)

theorem templateVarSubstitution_segs_witness:
  "templateVarSubstitution ''{VAR::a}-{VAR::b}-{VAR::a}-{ENV::a}'' [(''a'', ''1'')] = ''1-{VAR::b}-1-{ENV::a}''"
proof -
  let ?segs = "[Mark ''{VAR::a}'', Lit ''-'', Mark ''{VAR::b}'', Lit ''-'', Mark ''{VAR::a}'', Lit ''-'',
    Mark ''{ENV::a}'']"
  have "list_all wf_seg ?segs" "render (map (fill_var [(''a'', ''1'')]) ?segs) = ''1-{VAR::b}-1-{ENV::a}''"
    by code_simp+
  then show ?thesis
    using templateVarSubstitution_segs [of ?segs "[(''a'', ''1'')]"] by simp
qed

end
