(* ===== verification/Go_Values.thy ===== *)
theory Go_Values
  imports Marker_Templates "HOL-Library.Word" "HOL-Library.Char_ord" "HOL-Library.List_Lexorder"
begin

section \<open>Values of type any\<close>

text \<open>
  The values an attribute can hold: what \<^verbatim>\<open>encoding/json\<close> decodes into an
  \<^verbatim>\<open>any\<close> (nil, strings, booleans, \<^verbatim>\<open>float64\<close>, \<^verbatim>\<open>[]any\<close>, \<^verbatim>\<open>map[string]any\<close>), and the
  \<^verbatim>\<open>int\<close> and \<^verbatim>\<open>[]string\<close> values a Go caller can store. A \<^verbatim>\<open>float64\<close> is its bit
  pattern; how \<^verbatim>\<open>fmt\<close> prints one, and the process environment, are arguments of the
  model (\<open>go_env\<close>).
\<close>

datatype val =
    VNil
  | VString string
  | VBool bool
  | VInt int
  | VFloat "64 word"
  | VSlice "val list"
  | VStrSlice "string list"
  | VMap "(string \<times> val) list"

type_synonym attrs = "val gomap"

record go_env =
  getenv :: "string \<Rightarrow> string"
  fmt_float :: "64 word \<Rightarrow> string"

text \<open>
  \<^verbatim>\<open>fmt.Sprintf("%v", x)\<close>. Maps are printed in the order of their keys.
\<close>

fun sprint :: "go_env \<Rightarrow> val \<Rightarrow> string" where
  "sprint env VNil = ''<nil>''"
| "sprint env (VString s) = s"
| "sprint env (VBool b) = (if b then ''true'' else ''false'')"
| "sprint env (VInt i) = show_int i"
| "sprint env (VFloat w) = fmt_float env w"
| "sprint env (VSlice vs) = ''['' @ join '' '' (map (sprint env) vs) @ '']''"
| "sprint env (VStrSlice ss) = ''['' @ join '' '' ss @ '']''"
| "sprint env (VMap m) =
     ''map['' @ join '' '' (map (\<lambda>(k, s). k @ '':'' @ s)
        (sort_key fst (map (\<lambda>(k, v). (k, sprint env v)) m))) @ '']''"

text \<open>
  The elements a slice or a map yields when it is enumerated by reflection, printed; the
  order of a map's elements is the order of the list.
\<close>

fun slice_strings :: "go_env \<Rightarrow> val \<Rightarrow> string list option" where
  "slice_strings env (VSlice vs) = Some (map (sprint env) vs)"
| "slice_strings env (VStrSlice ss) = Some ss"
| "slice_strings env v = None"

text \<open>Well-formed values: every map has distinct keys, at every depth.\<close>

fun wf_val :: "val \<Rightarrow> bool" where
  "wf_val (VSlice vs) \<longleftrightarrow> list_all wf_val vs"
| "wf_val (VMap m) \<longleftrightarrow> distinct (map fst m) \<and> list_all (\<lambda>p. wf_val (snd p)) m"
| "wf_val v \<longleftrightarrow> True"

end
