(* ===== verification/Parameter_Substitution.thy ===== *)
theory Parameter_Substitution
  imports Go_Values
begin

section \<open>Substituting the markers of one template\<close>

text \<open>
  \<open>parameterSubstitute\<close> of \<^verbatim>\<open>pluginmanager.go\<close> and what it calls. A template under a key
  becomes a map of keys to lines: a marker for a single value rewrites every line, a marker
  that inflates an array or a map multiplies the lines and extends their keys by the element.
  The loops range over Go maps, whose order Go leaves open: the order of each is an
  argument (\<open>range_order\<close>), and the theorems hold for every order or say where the order
  shows. \<open>marker_action\<close> is the abstract meaning of a marker; \<open>substitute_match_action\<close>
  shows the code's case analysis refines it, and \<open>expansion\<close> lists the lines a segmented
  template expands to.
\<close>

subsection \<open>The code\<close>

type_synonym lines = "string gomap"

text \<open>
  The order in which the n-th \<^verbatim>\<open>range\<close> over a map of lines visits it: a permutation.
\<close>

type_synonym range_order = "nat \<Rightarrow> lines \<Rightarrow> lines"

definition perm_order :: "range_order \<Rightarrow> bool" where
  "perm_order ord \<longleftrightarrow> (\<forall>n m. mset (ord n m) = mset m)"

record paramSubInput =
  TemplateKey :: string
  Template :: string
  Attributes :: attrs
  AllowAttributeSubstitution :: bool

text \<open>The types substituted automatically (\<^verbatim>\<open>validAutoSubstitution\<close>): not \<^verbatim>\<open>VAR\<close>.\<close>

definition validAutoSubstitution :: "string list" where
  "validAutoSubstitution = [''ATTR'', ''ENV'']"

definition getSubstitutionVal :: "go_env \<Rightarrow> EmbeddedVar \<Rightarrow> attrs \<Rightarrow> val res" where
  "getSubstitutionVal env evar payloadAttr =
     (if ev_Type evar = ''ENV'' then
        Ok (VStrSlice (split_on (CHR '','') (getenv env (ev_Varname evar))))
      else if ev_Type evar = ''ATTR'' then
        (case map_of payloadAttr (ev_Varname evar) of
           None \<Rightarrow> Err (Errorf ''invalid attribute name: %s'' [ev_Varname evar])
         | Some v \<Rightarrow> Ok v)
      else Ok VNil)"

text \<open>\<^verbatim>\<open>output[outputkey] = strings.Replace(outputline, match[0], new, -1)\<close> for every line.\<close>

definition replace_lines :: "string \<Rightarrow> string \<Rightarrow> lines \<Rightarrow> lines" where
  "replace_lines old new output = map (\<lambda>(k, line). (k, replace_all old new line)) output"

text \<open>The same where the replacement is computed per line and may panic.\<close>

definition replace_lines_with :: "string \<Rightarrow> string option \<Rightarrow> lines \<Rightarrow> lines res" where
  "replace_lines_with old new output =
     res_map (\<lambda>(k, line). case new of None \<Rightarrow> Panic | Some s \<Rightarrow> Ok (k, replace_all old s line)) output"

text \<open>Inflating: a new map with an entry per line and element; a later store wins.\<close>

definition inflate_lines :: "string \<Rightarrow> string list \<Rightarrow> lines \<Rightarrow> lines" where
  "inflate_lines old elems output =
     fold (\<lambda>(k, line) newoutput.
        fold (\<lambda>e newoutput. AList.update (k @ ''-'' @ e) (replace_all old e line) newoutput) elems newoutput)
       output []"

definition substitute_slice ::
    "(lines \<Rightarrow> lines) \<Rightarrow> submatch \<Rightarrow> EmbeddedVar \<Rightarrow> string list \<Rightarrow> lines \<Rightarrow> lines res" where
  "substitute_slice visit m ev elems output =
     (if ev_ArrayIndex ev = -1 \<and> ev_IsArrayOrMap ev then
        Ok (inflate_lines (m0 m) elems (visit output))
      else if ev_ArrayIndex ev > -1 \<and> ev_IsArrayOrMap ev then
        replace_lines_with (m0 m)
          (if nat (ev_ArrayIndex ev) < length elems then Some (elems ! nat (ev_ArrayIndex ev)) else None)
          output
      else Ok (replace_lines (m0 m) (join '','' elems) output))"

definition substitute_map ::
    "go_env \<Rightarrow> (lines \<Rightarrow> lines) \<Rightarrow> submatch \<Rightarrow> EmbeddedVar \<Rightarrow> val gomap \<Rightarrow> lines \<Rightarrow> lines res" where
  "substitute_map env visit m ev mp output =
     (if ev_MapIndex ev = [] \<and> ev_IsArrayOrMap ev then
        Ok (inflate_lines (m0 m) (map (\<lambda>(k, v). sprint env v) mp) (visit output))
      else replace_lines_with (m0 m) (map_option (sprint env) (map_of mp (ev_MapIndex ev))) output)"

definition substitute_match ::
    "go_env \<Rightarrow> (lines \<Rightarrow> lines) \<Rightarrow> paramSubInput \<Rightarrow> submatch \<Rightarrow> lines \<Rightarrow> lines res" where
  "substitute_match env visit input m output =
     (let eVars = matchToEmbeddedVars m in
      if ev_Type eVars \<notin> set validAutoSubstitution then Ok output
      else if ev_Type eVars = ''ATTR'' \<and> \<not> AllowAttributeSubstitution input then Ok output
      else res_bind (getSubstitutionVal env eVars (Attributes input)) (\<lambda>v.
        (case v of
           VString s \<Rightarrow> Ok (replace_lines (m0 m) s output)
         | VSlice vs \<Rightarrow> substitute_slice visit m eVars (map (sprint env) vs) output
         | VStrSlice ss \<Rightarrow> substitute_slice visit m eVars ss output
         | VMap mp \<Rightarrow> substitute_map env visit m eVars mp output
         | _ \<Rightarrow> Ok (replace_lines (m0 m) (sprint env v) output))))"

fun substitute_loop ::
    "go_env \<Rightarrow> range_order \<Rightarrow> nat \<Rightarrow> paramSubInput \<Rightarrow> submatch list \<Rightarrow> lines \<Rightarrow> lines res" where
  "substitute_loop env ord n input [] output = Ok output"
| "substitute_loop env ord n input (m # ms) output =
     res_bind (substitute_match env (ord n) input m output)
       (\<lambda>output'. substitute_loop env ord (Suc n) input ms output')"

definition parameterSubstitute :: "go_env \<Rightarrow> range_order \<Rightarrow> paramSubInput \<Rightarrow> lines res" where
  "parameterSubstitute env ord input =
     substitute_loop env ord 0 input (FindAllStringSubmatch (Template input))
       [(TemplateKey input, Template input)]"

subsection \<open>The meaning of a marker\<close>

datatype action =
    Keep
  | Replace string
  | Inflate "string list"
  | Fail go_error
  | Crash

definition slice_action :: "EmbeddedVar \<Rightarrow> string list \<Rightarrow> action" where
  "slice_action ev elems =
     (if \<not> ev_IsArrayOrMap ev then Replace (join '','' elems)
      else if ev_ArrayIndex ev = -1 then Inflate elems
      else if nat (ev_ArrayIndex ev) < length elems then Replace (elems ! nat (ev_ArrayIndex ev))
      else Crash)"

definition map_action :: "go_env \<Rightarrow> EmbeddedVar \<Rightarrow> val gomap \<Rightarrow> action" where
  "map_action env ev mp =
     (if ev_MapIndex ev = [] \<and> ev_IsArrayOrMap ev then Inflate (map (\<lambda>(k, v). sprint env v) mp)
      else (case map_of mp (ev_MapIndex ev) of Some v \<Rightarrow> Replace (sprint env v) | None \<Rightarrow> Crash))"

definition val_action :: "go_env \<Rightarrow> EmbeddedVar \<Rightarrow> val \<Rightarrow> action" where
  "val_action env ev v = (case v of
     VSlice vs \<Rightarrow> slice_action ev (map (sprint env) vs)
   | VStrSlice ss \<Rightarrow> slice_action ev ss
   | VMap mp \<Rightarrow> map_action env ev mp
   | _ \<Rightarrow> Replace (sprint env v))"

definition marker_action :: "go_env \<Rightarrow> attrs \<Rightarrow> bool \<Rightarrow> submatch \<Rightarrow> action" where
  "marker_action env attrs allow m =
     (let ev = matchToEmbeddedVars m in
      if ev_Type ev = ''ENV'' then
        slice_action ev (split_on (CHR '','') (getenv env (ev_Varname ev)))
      else if ev_Type ev = ''ATTR'' \<and> allow then
        (case map_of attrs (ev_Varname ev) of
           None \<Rightarrow> Fail (Errorf ''invalid attribute name: %s'' [ev_Varname ev])
         | Some v \<Rightarrow> val_action env ev v)
      else Keep)"

text \<open>What an action does to the lines; a crash needs a line to strike.\<close>

fun act :: "(lines \<Rightarrow> lines) \<Rightarrow> string \<Rightarrow> action \<Rightarrow> lines \<Rightarrow> lines res" where
  "act visit old Keep output = Ok output"
| "act visit old (Replace s) output = Ok (replace_lines old s output)"
| "act visit old (Inflate elems) output = Ok (inflate_lines old elems (visit output))"
| "act visit old (Fail e) output = Err e"
| "act visit old Crash output = (if output = [] then Ok [] else Panic)"

lemma ArrayIndex_range: "ev_ArrayIndex (matchToEmbeddedVars m) \<ge> -1"
  by (auto simp: matchToEmbeddedVars_def Let_def atoi_digits_def split: option.splits)

lemma replace_lines_with_Some: "replace_lines_with old (Some s) output = Ok (replace_lines old s output)"
proof -
  have "replace_lines_with old (Some s) output
      = Ok (map (\<lambda>p. (fst p, replace_all old s (snd p))) output)"
    unfolding replace_lines_with_def by (rule res_map_pure) auto
  then show ?thesis
    by (simp add: replace_lines_def case_prod_beta)
qed

lemma replace_lines_with_None:
  "replace_lines_with old None output = (if output = [] then Ok [] else Panic)"
  by (cases "output") (auto simp: replace_lines_with_def)

lemmas replace_lines_with_simps = replace_lines_with_Some replace_lines_with_None

lemma substitute_slice_action:
  "ev_ArrayIndex ev \<ge> -1 \<Longrightarrow>
     substitute_slice visit m ev elems output = act visit (m0 m) (slice_action ev elems) output"
  by (auto simp: substitute_slice_def slice_action_def replace_lines_with_simps)

lemma substitute_map_action:
  "substitute_map env visit m ev mp output = act visit (m0 m) (map_action env ev mp) output"
  by (auto simp: substitute_map_def map_action_def replace_lines_with_simps split: option.splits)

text \<open>The code's step on a match does what the marker means.\<close>

lemma substitute_match_action:
  "substitute_match env visit input m output =
     act visit (m0 m) (marker_action env (Attributes input) (AllowAttributeSubstitution input) m) output"
  using ArrayIndex_range [of m]
  by (auto simp: substitute_match_def marker_action_def validAutoSubstitution_def getSubstitutionVal_def
      val_action_def substitute_slice_action substitute_map_action Let_def
      split: option.splits val.splits)

subsection \<open>Keys of the result\<close>

definition cross_lines :: "string \<Rightarrow> string list \<Rightarrow> lines \<Rightarrow> lines" where
  "cross_lines old elems output =
     concat (map (\<lambda>(k, line). map (\<lambda>e. (k @ ''-'' @ e, replace_all old e line)) elems) output)"

lemma cross_lines_Cons:
  "cross_lines old elems ((k, line) # out) =
     map (\<lambda>e. (k @ ''-'' @ e, replace_all old e line)) elems @ cross_lines old elems out"
  by (simp add: cross_lines_def)

lemma inflate_lines_cross: "inflate_lines old elems out = maps_copy [] (cross_lines old elems out)"
proof -
  have "fold (\<lambda>(k, line) acc. fold (\<lambda>e acc. AList.update (k @ ''-'' @ e) (replace_all old e line) acc) elems acc)
      out acc = maps_copy acc (cross_lines old elems out)" for acc
  proof (induction out arbitrary: acc)
    case Nil
    then show ?case by (simp add: cross_lines_def maps_copy_def)
  next
    case (Cons p out)
    then show ?case
      by (cases p) (simp add: fold_map comp_def cross_lines_Cons maps_copy_def)
  qed
  then show ?thesis
    by (simp add: inflate_lines_def)
qed

lemma wf_inflate_lines [simp]: "wf_map (inflate_lines old elems out)"
  by (simp add: inflate_lines_cross)

lemma keys_replace_lines [simp]: "keys (replace_lines old s out) = keys out"
  by (induction out) (auto simp: replace_lines_def)

lemma wf_replace_lines [simp]: "wf_map out \<Longrightarrow> wf_map (replace_lines old s out)"
  by (simp add: wf_map_def)

lemma act_wf: "act visit old a out = Ok out' \<Longrightarrow> wf_map out \<Longrightarrow> wf_map out'"
  by (cases a) (auto split: if_splits)

lemma substitute_loop_wf:
  "substitute_loop env ord n input ms out = Ok out' \<Longrightarrow> wf_map out \<Longrightarrow> wf_map out'"
proof (induction ms arbitrary: n out)
  case Nil
  then show ?case by simp
next
  case (Cons m ms)
  then show ?case
    by (auto simp: res_bind_eq_Ok substitute_match_action dest: act_wf)
qed

text \<open>The order of a visit only permutes what it visits.\<close>

lemma perm_order_same:
  assumes "perm_order ord" and "wf_map m"
  shows "set (ord n m) = set m" and "wf_map (ord n m)" and "map_of (ord n m) = map_of m"
proof -
  have e: "mset (ord n m) = mset m"
    using assms(1) by (simp add: perm_order_def)
  show "set (ord n m) = set m"
    using e by (rule mset_eq_setD)
  show "wf_map (ord n m)" and "map_of (ord n m) = map_of m"
    using mset_same_map [OF assms(2) e] by simp_all
qed

subsection \<open>When the order of the loops does not show\<close>

text \<open>
  Two lines inflate to the same key only when an element contains a dash; without one, the
  stores of an inflation never overwrite each other, whatever the order.
\<close>

definition dash_free :: "action \<Rightarrow> bool" where
  "dash_free a = (case a of Inflate es \<Rightarrow> list_all (\<lambda>e. CHR ''-'' \<notin> set e) es | _ \<Rightarrow> True)"

lemma last_separator:
  assumes "c \<notin> set x" and "c \<notin> set y"
  shows "u @ c # x = v @ c # y \<longleftrightarrow> u = v \<and> x = y"
proof
  assume "u @ c # x = v @ c # y"
  then have "rev (u @ c # x) = rev (v @ c # y)"
    by simp
  then show "u = v \<and> x = y"
    using first_separator [of c "rev x" "rev y" "rev u" "rev v"] assms by simp
qed simp

lemma cross_lines_elem:
  "(k', line') \<in> set (cross_lines old elems out) \<longleftrightarrow>
     (\<exists>k line e. (k, line) \<in> set out \<and> e \<in> set elems \<and> k' = k @ ''-'' @ e \<and> line' = replace_all old e line)"
  by (auto simp: cross_lines_def)

lemma map_of_maps_copy_functional:
  assumes "\<And>x y y'. (x, y) \<in> set ps \<Longrightarrow> (x, y') \<in> set ps \<Longrightarrow> y = y'"
  shows "map_of (maps_copy [] ps) x = Some y \<longleftrightarrow> (x, y) \<in> set ps"
proof -
  have *: "map_of (rev ps) x = Some y \<Longrightarrow> (x, y) \<in> set ps" for y
    using map_of_SomeD [of "rev ps" x y] by simp
  show ?thesis
  proof
    assume "map_of (maps_copy [] ps) x = Some y"
    then show "(x, y) \<in> set ps"
      using * by (simp add: map_of_maps_copy_rev)
  next
    assume h: "(x, y) \<in> set ps"
    then have "x \<in> fst ` set (rev ps)"
      by force
    then have "map_of (rev ps) x \<noteq> None"
      by (simp add: map_of_eq_None_iff)
    then obtain y' where y': "map_of (rev ps) x = Some y'"
      by blast
    with * h assms have "y' = y"
      by blast
    with y' show "map_of (maps_copy [] ps) x = Some y"
      by (simp add: map_of_maps_copy_rev)
  qed
qed

lemma inflate_lines_lookup:
  assumes "wf_map out" and "list_all (\<lambda>e. CHR ''-'' \<notin> set e) elems"
  shows "map_of (inflate_lines old elems out) k' = Some line' \<longleftrightarrow>
     (\<exists>k line e. (k, line) \<in> set out \<and> e \<in> set elems \<and> k' = k @ ''-'' @ e \<and> line' = replace_all old e line)"
proof -
  have "line1 = line2" if "(x, line1) \<in> set (cross_lines old elems out)"
    and "(x, line2) \<in> set (cross_lines old elems out)" for x line1 line2
  proof -
    from that obtain k1 l1 e1 k2 l2 e2 where 1: "(k1, l1) \<in> set out" "e1 \<in> set elems"
      "x = k1 @ CHR ''-'' # e1" "line1 = replace_all old e1 l1"
      and 2: "(k2, l2) \<in> set out" "e2 \<in> set elems" "x = k2 @ CHR ''-'' # e2" "line2 = replace_all old e2 l2"
      by (auto simp: cross_lines_elem)
    have "k1 = k2 \<and> e1 = e2"
      using 1 2 assms(2) last_separator [of "CHR ''-''" e1 e2 k1 k2] by (auto simp: list_all_iff)
    moreover have "l1 = l2" if "k1 = k2"
      using 1(1) 2(1) assms(1) that unfolding wf_map_def by (metis eq_key_imp_eq_value)
    ultimately show ?thesis
      using 1(4) 2(4) by simp
  qed
  then have "map_of (maps_copy [] (cross_lines old elems out)) k' = Some line' \<longleftrightarrow>
      (k', line') \<in> set (cross_lines old elems out)"
    by (rule map_of_maps_copy_functional)
  then show ?thesis
    unfolding inflate_lines_cross cross_lines_elem .
qed

lemma map_of_replace_lines:
  "map_of (replace_lines old s out) = (\<lambda>k. map_option (replace_all old s) (map_of out k))"
  by (induction out) (auto simp: replace_lines_def fun_eq_iff)

text \<open>One step on two lists that are the same Go map.\<close>

definition same_map :: "lines res \<Rightarrow> lines res \<Rightarrow> bool" where
  "same_map r r' \<longleftrightarrow> (case (r, r') of
     (Ok m, Ok m') \<Rightarrow> wf_map m \<and> wf_map m' \<and> map_of m = map_of m'
   | _ \<Rightarrow> r = r')"

lemma same_mapE:
  assumes "same_map r r'"
  obtains (ok) m m' where "r = Ok m" "r' = Ok m'" "wf_map m" "wf_map m'" "map_of m = map_of m'"
    | (bad) "\<not> is_ok r" "r' = r"
  using assms by (cases r; cases r') (auto simp: same_map_def)

lemma same_map_refl: "\<not> is_ok r \<Longrightarrow> same_map r r"
  by (cases r) (simp_all add: same_map_def)

lemma act_same_map:
  assumes "wf_map out" and "wf_map out'" and "map_of out = map_of out'" and "dash_free a"
    and "perm_order ord" and "perm_order ord'"
  shows "same_map (act (ord n) old a out) (act (ord' n) old a out')"
proof (cases a)
  case Keep
  with assms show ?thesis by (simp add: same_map_def)
next
  case (Replace s)
  with assms show ?thesis by (simp add: same_map_def map_of_replace_lines)
next
  case (Inflate es)
  have e: "set (ord n out) = set out" "set (ord' n out') = set out'" "wf_map (ord n out)" "wf_map (ord' n out')"
    using perm_order_same assms by blast+
  have "set out = set out'"
    using assms wf_map_same_entries by blast
  then have "map_of (inflate_lines old es (ord n out)) k = Some l \<longleftrightarrow>
      map_of (inflate_lines old es (ord' n out')) k = Some l" for k l
    using assms(4) Inflate e by (simp add: inflate_lines_lookup dash_free_def)
  then have "map_of (inflate_lines old es (ord n out)) = map_of (inflate_lines old es (ord' n out'))"
    by (metis ext not_None_eq)
  with Inflate show ?thesis
    by (simp add: same_map_def)
next
  case (Fail e)
  then show ?thesis by (simp add: same_map_def)
next
  case Crash
  have "out = [] \<longleftrightarrow> out' = []"
    using assms(3) by (cases out; cases out') (auto simp: fun_eq_iff split: if_splits)
  with Crash show ?thesis
    by (simp add: same_map_def)
qed

lemma substitute_loop_same_map:
  assumes "perm_order ord" and "perm_order ord'"
    and "\<forall>m \<in> set ms. dash_free (marker_action env (Attributes input) (AllowAttributeSubstitution input) m)"
    and "wf_map out" and "wf_map out'" and "map_of out = map_of out'"
  shows "same_map (substitute_loop env ord n input ms out) (substitute_loop env ord' n input ms out')"
  using assms(3-)
proof (induction ms arbitrary: n out out')
  case Nil
  then show ?case by (simp add: same_map_def)
next
  case (Cons m ms)
  let ?a = "marker_action env (Attributes input) (AllowAttributeSubstitution input) m"
  have "same_map (act (ord n) (m0 m) ?a out) (act (ord' n) (m0 m) ?a out')"
    using Cons.prems assms(1,2) by (intro act_same_map) auto
  then consider (ok) o1 o2 where "act (ord n) (m0 m) ?a out = Ok o1" "act (ord' n) (m0 m) ?a out' = Ok o2"
      "wf_map o1" "wf_map o2" "map_of o1 = map_of o2"
    | (bad) "\<not> is_ok (act (ord n) (m0 m) ?a out)" "act (ord' n) (m0 m) ?a out' = act (ord n) (m0 m) ?a out"
    by (rule same_mapE)
  then show ?case
  proof cases
    case ok
    then show ?thesis
      using Cons.IH [of o1 o2] Cons.prems by (simp add: substitute_match_action)
  next
    case bad
    then have "substitute_loop env ord n input (m # ms) out = act (ord n) (m0 m) ?a out"
      and "substitute_loop env ord' n input (m # ms) out' = act (ord n) (m0 m) ?a out"
      by (simp_all add: substitute_match_action res_bind_not_ok)
    then show ?thesis
      using bad(1) by (simp add: same_map_refl)
  qed
qed

subsection \<open>The lines a template expands to\<close>

text \<open>
  The abstract expansion of a segmented template: a single-valued marker fills its segments,
  an inflating marker branches on its elements and extends the key.
\<close>

fun expansion :: "(string \<Rightarrow> action) \<Rightarrow> string list \<Rightarrow> string \<times> seg list \<Rightarrow> (string \<times> seg list) list" where
  "expansion meaning [] ks = [ks]"
| "expansion meaning (p # ps) (k, segs) =
     (case meaning p of
        Replace t \<Rightarrow> expansion meaning ps (k, map (put p t) segs)
      | Inflate es \<Rightarrow> concat (map (\<lambda>e. expansion meaning ps (k @ ''-'' @ e, map (put p e) segs)) es)
      | _ \<Rightarrow> expansion meaning ps (k, segs))"

definition render_line :: "string \<times> seg list \<Rightarrow> string \<times> string" where
  "render_line ks = (fst ks, render (snd ks))"

text \<open>
  The values a template may take without disturbing the others: no opening brace in a text,
  no dash in an inflated element.
\<close>

fun benign :: "action \<Rightarrow> bool" where
  "benign Keep \<longleftrightarrow> True"
| "benign (Replace t) \<longleftrightarrow> CHR ''{'' \<notin> set t"
| "benign (Inflate es) \<longleftrightarrow> list_all (\<lambda>e. CHR ''{'' \<notin> set e \<and> CHR ''-'' \<notin> set e) es"
| "benign a \<longleftrightarrow> False"

definition lines_of :: "lines \<Rightarrow> (string \<times> seg list) list \<Rightarrow> bool" where
  "lines_of out S \<longleftrightarrow> wf_map out \<and> set out = render_line ` set S
     \<and> (\<forall>ks \<in> set S. list_all wf_seg (snd ks))"

lemma set_replace_lines: "set (replace_lines old t out) = (\<lambda>(k, line). (k, replace_all old t line)) ` set out"
  by (simp add: replace_lines_def)

lemma wf_map_lookup: "wf_map m \<Longrightarrow> map_of m k = Some v \<longleftrightarrow> (k, v) \<in> set m"
  by (simp add: wf_map_def)

lemma lines_of_replace:
  assumes "lines_of out S" and "plain_marker p" and "CHR ''{'' \<notin> set t"
  shows "lines_of (replace_lines p t out) (map (\<lambda>ks. (fst ks, map (put p t) (snd ks))) S)"
proof -
  have "replace_all p t (render (snd ks)) = render (map (put p t) (snd ks))" if "ks \<in> set S" for ks
    using assms that by (intro replace_all_segs) (auto simp: lines_of_def)
  then have "set (replace_lines p t out) = render_line ` set (map (\<lambda>ks. (fst ks, map (put p t) (snd ks))) S)"
    using assms(1) by (auto simp: lines_of_def set_replace_lines render_line_def image_image)
  moreover have "list_all wf_seg (map (put p t) (snd ks))" if "ks \<in> set S" for ks
    using assms that by (auto simp: lines_of_def list_all_iff)
  ultimately show ?thesis
    using assms(1) by (auto simp: lines_of_def)
qed

lemma lines_of_inflate:
  assumes "lines_of out S" and "plain_marker p" and "benign (Inflate es)"
    and "perm_order ord"
  shows "lines_of (inflate_lines p es (ord n out))
     (concat (map (\<lambda>ks. map (\<lambda>e. (fst ks @ ''-'' @ e, map (put p e) (snd ks))) es) S))"
    (is "lines_of ?out ?S")
proof -
  have out: "wf_map (ord n out)" "set (ord n out) = render_line ` set S"
    using perm_order_same [OF assms(4)] assms(1) by (auto simp: lines_of_def)
  have rep: "replace_all p e (render (snd ks)) = render (map (put p e) (snd ks))" if "ks \<in> set S" for ks e
    using assms that by (intro replace_all_segs) (auto simp: lines_of_def)
  have dash: "list_all (\<lambda>e. CHR ''-'' \<notin> set e) es"
    using assms(3) by (auto simp: list_all_iff)
  have "(k, l) \<in> set ?out \<longleftrightarrow> (k, l) \<in> render_line ` set ?S" for k l
  proof -
    have "(k, l) \<in> set ?out \<longleftrightarrow> map_of ?out k = Some l"
      by (simp add: wf_map_lookup)
    also have "\<dots> \<longleftrightarrow> (\<exists>k0 line e. (k0, line) \<in> render_line ` set S \<and> e \<in> set es
        \<and> k = k0 @ ''-'' @ e \<and> l = replace_all p e line)"
      by (simp only: inflate_lines_lookup [OF out(1) dash] out(2))
    also have "\<dots> \<longleftrightarrow> (\<exists>ks e. ks \<in> set S \<and> e \<in> set es
        \<and> k = fst ks @ ''-'' @ e \<and> l = replace_all p e (render (snd ks)))"
      unfolding render_line_def image_iff by blast
    also have "\<dots> \<longleftrightarrow> (\<exists>ks e. ks \<in> set S \<and> e \<in> set es
        \<and> k = fst ks @ ''-'' @ e \<and> l = render (map (put p e) (snd ks)))"
      using rep by metis
    also have "\<dots> \<longleftrightarrow> (\<exists>x \<in> set ?S. (k, l) = render_line x)"
      by (force simp: render_line_def)
    also have "\<dots> \<longleftrightarrow> (k, l) \<in> render_line ` set ?S"
      by (simp only: image_iff)
    finally show ?thesis .
  qed
  then have "set ?out = render_line ` set ?S"
    by (simp add: set_eq_iff split_paired_all)
  moreover have "list_all wf_seg (snd ks)" if "ks \<in> set ?S" for ks
    using assms that by (fastforce simp: lines_of_def list_all_iff)
  ultimately show ?thesis
    by (simp add: lines_of_def)
qed

lemma substitute_loop_expansion:
  assumes "perm_order ord"
    and "\<forall>p \<in> set ps. plain_marker p \<and>
       benign (marker_action env (Attributes input) (AllowAttributeSubstitution input) (seg_match p))"
    and "lines_of out S"
  shows "\<exists>out'. substitute_loop env ord n input (map seg_match ps) out = Ok out' \<and>
     lines_of out' (concat (map (expansion (\<lambda>p. marker_action env (Attributes input)
       (AllowAttributeSubstitution input) (seg_match p)) ps) S))"
  using assms(2,3)
proof (induction ps arbitrary: n out S)
  case Nil
  then show ?case by simp
next
  case (Cons p ps)
  let ?a = "\<lambda>p. marker_action env (Attributes input) (AllowAttributeSubstitution input) (seg_match p)"
  have p: "plain_marker p" and b: "benign (?a p)"
    using Cons.prems by auto
  have step: "substitute_loop env ord n input (map seg_match (p # ps)) out
      = res_bind (act (ord n) p (?a p) out) (substitute_loop env ord (Suc n) input (map seg_match ps))"
    using plain_marker_match(2) [OF p] by (simp add: substitute_match_action)
  have goal: ?case if "act (ord n) p (?a p) out = Ok out1" and "lines_of out1 S1"
    and "concat (map (expansion ?a (p # ps)) S) = concat (map (expansion ?a ps) S1)" for out1 S1
    using Cons.IH [of out1 S1] Cons.prems that step by simp
  show ?case
  proof (cases "?a p")
    case Keep
    then show ?thesis
      using Cons.prems by (intro goal [of out S]) (auto intro!: arg_cong [where f = concat])
  next
    case (Replace t)
    have "concat (map (expansion ?a (p # ps)) S)
        = concat (map (expansion ?a ps) (map (\<lambda>ks. (fst ks, map (put p t) (snd ks))) S))"
      using Replace by (auto intro!: arg_cong [where f = concat])
    then show ?thesis
      using Replace b by (intro goal [OF _ lines_of_replace [OF Cons.prems(2) p, of t]]) simp_all
  next
    case (Inflate es)
    have "concat (map (expansion ?a (p # ps)) S) = concat (map (expansion ?a ps)
        (concat (map (\<lambda>ks. map (\<lambda>e. (fst ks @ ''-'' @ e, map (put p e) (snd ks))) es) S)))"
      using Inflate by (simp add: map_concat comp_def case_prod_beta) (induction S; auto)
    then show ?thesis
      using Inflate b by (intro goal [OF _ lines_of_inflate [OF Cons.prems(2) p _ assms(1), of es]]) simp_all
  qed (use b in auto)
qed

subsection \<open>Properties of \<open>parameterSubstitute\<close>\<close>

lemma lines_of_single: "list_all wf_seg segs \<Longrightarrow> lines_of [(k, render segs)] [(k, segs)]"
  by (simp add: lines_of_def render_line_def wf_map_def)

text \<open>C1. A template made of literal text and plain markers whose values are benign (no opening
  brace in a text, no dash in an inflated element) expands to exactly the lines of the abstract
  expansion, with distinct keys, whatever order the loops visit the maps in.\<close>

theorem parameterSubstitute_expansion:
  assumes "perm_order ord"
    and "Template input = render segs" and "list_all wf_seg segs"
    and "\<forall>p \<in> set (marks segs).
       benign (marker_action env (Attributes input) (AllowAttributeSubstitution input) (seg_match p))"
  shows "\<exists>out. parameterSubstitute env ord input = Ok out \<and> wf_map out \<and>
     set out = render_line ` set (expansion (\<lambda>p. marker_action env (Attributes input)
       (AllowAttributeSubstitution input) (seg_match p)) (marks segs) (TemplateKey input, segs))"
proof -
  have "\<forall>p \<in> set (marks segs). plain_marker p"
    using assms(3) by (induction segs rule: marks.induct) auto
  then have "\<exists>out. substitute_loop env ord 0 input (map seg_match (marks segs)) [(TemplateKey input, render segs)] = Ok out \<and>
      lines_of out (concat (map (expansion (\<lambda>p. marker_action env (Attributes input)
       (AllowAttributeSubstitution input) (seg_match p)) (marks segs)) [(TemplateKey input, segs)]))"
    using substitute_loop_expansion [OF assms(1) _ lines_of_single [OF assms(3), of "TemplateKey input"],
        of "marks segs" env input 0] assms(4) by simp
  then show ?thesis
    using assms(2) find_all_segs [OF assms(3)]
    by (auto simp: parameterSubstitute_def lines_of_def)
qed


subsubsection \<open>Errors, panics and keys\<close>

lemma act_Err: "act visit old a out = Err e \<longleftrightarrow> a = Fail e"
  by (cases a) auto

lemma act_Panic: "act visit old a out = Panic \<longleftrightarrow> a = Crash \<and> out \<noteq> []"
  by (cases a) auto

lemma act_Exit: "act visit old a out \<noteq> Exit"
  by (cases a) auto

lemma substitute_loop_Err:
  "substitute_loop env ord n input ms out = Err e \<Longrightarrow>
     \<exists>m \<in> set ms. marker_action env (Attributes input) (AllowAttributeSubstitution input) m = Fail e"
proof (induction ms arbitrary: n out)
  case (Cons m ms)
  then show ?case
    by (cases "act (ord n) (m0 m) (marker_action env (Attributes input) (AllowAttributeSubstitution input) m) out")
      (auto simp: substitute_match_action act_Err)
qed simp

lemma substitute_loop_Panic:
  "substitute_loop env ord n input ms out = Panic \<Longrightarrow>
     \<exists>m \<in> set ms. marker_action env (Attributes input) (AllowAttributeSubstitution input) m = Crash"
proof (induction ms arbitrary: n out)
  case (Cons m ms)
  then show ?case
    by (cases "act (ord n) (m0 m) (marker_action env (Attributes input) (AllowAttributeSubstitution input) m) out")
      (auto simp: substitute_match_action act_Panic)
qed simp

lemma substitute_loop_Exit: "substitute_loop env ord n input ms out \<noteq> Exit"
proof (induction ms arbitrary: n out)
  case (Cons m ms)
  then show ?case
    by (cases "act (ord n) (m0 m) (marker_action env (Attributes input) (AllowAttributeSubstitution input) m) out")
      (auto simp: substitute_match_action act_Exit)
qed simp

lemma slice_action_simps [simp]:
  "slice_action ev es \<noteq> Fail e" "slice_action ev es = Keep \<longleftrightarrow> False"
  "slice_action ev es = Crash \<longleftrightarrow> ev_IsArrayOrMap ev \<and> ev_ArrayIndex ev \<noteq> -1 \<and> length es \<le> nat (ev_ArrayIndex ev)"
  by (auto simp: slice_action_def)

lemma marker_action_Fail:
  "marker_action env attrs allow m = Fail e \<longleftrightarrow>
     allow \<and> m1 m = ''ATTR'' \<and> map_of attrs (m2 m) = None \<and>
     e = Errorf ''invalid attribute name: %s'' [m2 m]"
  by (auto simp: marker_action_def val_action_def map_action_def matchToEmbeddedVars_def Let_def
      split: option.splits val.splits)

text \<open>C11. Substitution never ends the process, and returns an error only for an \<^verbatim>\<open>ATTR\<close> marker of
  the template whose attribute is not defined, and only where attributes may be substituted; the
  error names that attribute.\<close>

theorem parameterSubstitute_error:
  "parameterSubstitute env ord input \<noteq> Exit \<and>
   (parameterSubstitute env ord input = Err e \<longrightarrow>
     AllowAttributeSubstitution input \<and>
     (\<exists>m \<in> set (FindAllStringSubmatch (Template input)).
        m1 m = ''ATTR'' \<and> map_of (Attributes input) (m2 m) = None \<and>
        e = Errorf ''invalid attribute name: %s'' [m2 m]))"
  using substitute_loop_Err [of env ord 0 input _ _ e]
  by (auto simp: parameterSubstitute_def marker_action_Fail substitute_loop_Exit)

text \<open>The keys a template expands to extend its own key.\<close>

definition extends :: "string \<Rightarrow> string \<Rightarrow> bool" where
  "extends k k' \<longleftrightarrow> (case strip_prefix k k' of Some r \<Rightarrow> r = [] \<or> hd r = CHR ''-'' | None \<Rightarrow> False)"

lemma extends_iff: "extends k k' \<longleftrightarrow> k' = k \<or> (\<exists>r. k' = k @ ''-'' @ r)"
proof -
  have "extends k k' \<longleftrightarrow> (\<exists>r. k' = k @ r \<and> (r = [] \<or> hd r = CHR ''-''))"
    by (auto simp: extends_def strip_prefix_Some_iff strip_prefix_None_iff split: option.splits)
  also have "\<dots> \<longleftrightarrow> k' = k \<or> (\<exists>r. k' = k @ ''-'' @ r)"
    by (metis append_Cons append_Nil append_Nil2 hd_Cons_tl list.sel(1) not_Cons_self2)
  finally show ?thesis .
qed

lemma extends_trans: "extends k k' \<Longrightarrow> extends k (k' @ ''-'' @ e)"
  by (auto simp: extends_iff)

lemma act_keys:
  assumes "perm_order ord" and "act (ord n) old a out = Ok out'"
    and "wf_map out" and "\<forall>x \<in> set (keys out). extends k x"
  shows "\<forall>x \<in> set (keys out'). extends k x"
proof (cases a)
  case (Inflate es)
  have "set (keys out') = set (keys (cross_lines old es (ord n out)))"
    using assms(2) Inflate keys_maps_copy [of "[]" "cross_lines old es (ord n out)"]
    by (simp add: inflate_lines_cross)
  moreover have "extends k x" if "x \<in> set (keys (cross_lines old es (ord n out)))" for x
  proof -
    from that obtain k0 line e where "(k0, line) \<in> set (ord n out)" "x = k0 @ ''-'' @ e"
      by (auto simp: cross_lines_def)
    moreover have "extends k k0"
      using calculation(1) perm_order_same(1) [OF assms(1,3), of n] assms(4) by force
    ultimately show ?thesis
      using extends_trans by simp
  qed
  ultimately show ?thesis by blast
next
  case (Replace t)
  then have "keys out' = keys out"
    using assms(2) by auto
  with assms(4) show ?thesis by metis
qed (use assms in \<open>auto split: if_splits\<close>)

lemma substitute_loop_keys:
  assumes "perm_order ord"
  shows "substitute_loop env ord n input ms out = Ok out' \<Longrightarrow> wf_map out \<Longrightarrow>
     \<forall>x \<in> set (keys out). extends k x \<Longrightarrow> \<forall>x \<in> set (keys out'). extends k x"
proof (induction ms arbitrary: n out)
  case (Cons m ms)
  from Cons.prems(1) obtain o1 where
    o1: "act (ord n) (m0 m) (marker_action env (Attributes input) (AllowAttributeSubstitution input) m) out = Ok o1"
    "substitute_loop env ord (Suc n) input ms o1 = Ok out'"
    by (auto simp: res_bind_eq_Ok substitute_match_action)
  show ?case
    by (rule Cons.IH [OF o1(2) act_wf [OF o1(1) Cons.prems(2)] act_keys [OF assms o1(1) Cons.prems(2,3)]])
qed simp

text \<open>The lines a substitution returns are a Go map (distinct keys), and every key is the
  template's key or extends it by a dash and an element.\<close>

theorem parameterSubstitute_keys:
  assumes "perm_order ord" and "parameterSubstitute env ord input = Ok out"
  shows "wf_map out \<and> (\<forall>k \<in> set (keys out). extends (TemplateKey input) k)"
proof -
  have start: "wf_map [(TemplateKey input, Template input)]"
    "\<forall>x \<in> set (keys [(TemplateKey input, Template input)]). extends (TemplateKey input) x"
    by (simp_all add: wf_map_def extends_iff)
  show ?thesis
    using assms(2) substitute_loop_wf [OF _ start(1)] substitute_loop_keys [OF assms(1) _ start]
    unfolding parameterSubstitute_def by blast
qed

subsubsection \<open>Single-valued templates\<close>

definition replacing :: "action \<Rightarrow> bool" where
  "replacing a = (case a of Replace t \<Rightarrow> CHR ''{'' \<notin> set t | Keep \<Rightarrow> True | _ \<Rightarrow> False)"

primrec fill :: "(string \<Rightarrow> action) \<Rightarrow> seg \<Rightarrow> seg" where
  "fill meaning (Lit s) = Lit s"
| "fill meaning (Mark p) = (case meaning p of Replace t \<Rightarrow> Lit t | _ \<Rightarrow> Mark p)"

lemma expansion_replacing:
  assumes "\<forall>p \<in> set ps. replacing (meaning p)"
  shows "expansion meaning ps (k, segs) =
     [(k, map (\<lambda>s. case s of Mark p \<Rightarrow> if p \<in> set ps then fill meaning s else s | _ \<Rightarrow> s) segs)]"
  using assms
proof (induction ps arbitrary: segs)
  case Nil
  show ?case
    by (induction segs) (auto split: seg.splits)
next
  case (Cons p ps)
  then show ?case
    by (auto simp: replacing_def comp_def put_def split: action.splits seg.splits)
qed

lemma marks_in: "Mark p \<in> set segs \<Longrightarrow> p \<in> set (marks segs)"
  by (induction segs rule: marks.induct) auto

text \<open>A template all of whose markers are single-valued, and the text it becomes.\<close>

definition single_text :: "go_env \<Rightarrow> attrs \<Rightarrow> bool \<Rightarrow> string \<Rightarrow> string \<Rightarrow> bool" where
  "single_text env attrs allow s t \<longleftrightarrow> (\<exists>segs. s = render segs \<and> list_all wf_seg segs \<and>
     (\<forall>p \<in> set (marks segs). replacing (marker_action env attrs allow (seg_match p))) \<and>
     t = render (map (fill (\<lambda>p. marker_action env attrs allow (seg_match p))) segs))"

lemma parameterSubstitute_template:
  assumes "perm_order ord" and "list_all wf_seg segs"
    and "\<forall>p \<in> set (marks segs). benign (marker_action env attrs allow (seg_match p))"
  obtains out where
    "parameterSubstitute env ord \<lparr>TemplateKey = k, Template = render segs, Attributes = attrs,
       AllowAttributeSubstitution = allow\<rparr> = Ok out"
    "wf_map out"
    "set out = render_line ` set (expansion (\<lambda>p. marker_action env attrs allow (seg_match p)) (marks segs) (k, segs))"
proof -
  let ?input = "\<lparr>TemplateKey = k, Template = render segs, Attributes = attrs, AllowAttributeSubstitution = allow\<rparr>"
  have "\<forall>p \<in> set (marks segs). plain_marker p"
    using assms(2) by (induction segs rule: marks.induct) auto
  then have "\<exists>out. substitute_loop env ord 0 ?input (map seg_match (marks segs)) [(k, render segs)] = Ok out \<and>
      lines_of out (concat (map (expansion (\<lambda>p. marker_action env attrs allow (seg_match p)) (marks segs)) [(k, segs)]))"
    using substitute_loop_expansion [OF assms(1) _ lines_of_single [OF assms(2), of k],
        of "marks segs" env ?input 0] assms(3) by simp
  then show ?thesis
    using find_all_segs [OF assms(2)] that by (auto simp: parameterSubstitute_def lines_of_def)
qed

lemma singleton_map: "wf_map out \<Longrightarrow> set out = {p} \<Longrightarrow> out = [p]"
  by (cases out) (auto simp: wf_map_def subset_singleton_iff)

lemma replacing_benign: "replacing a \<Longrightarrow> benign a"
  by (cases a) (auto simp: replacing_def)

lemma expansion_single:
  assumes "\<forall>p \<in> set (marks segs). replacing (meaning p)"
  shows "expansion meaning (marks segs) (k, segs) = [(k, map (fill meaning) segs)]"
  unfolding expansion_replacing [of "marks segs" meaning, OF assms]
  by (auto intro!: marks_in split: seg.splits)

lemma parameterSubstitute_text:
  assumes "perm_order ord" and "single_text env attrs allow s t"
  shows "parameterSubstitute env ord \<lparr>TemplateKey = k, Template = s, Attributes = attrs,
    AllowAttributeSubstitution = allow\<rparr> = Ok [(k, t)]"
proof -
  let ?a = "\<lambda>p. marker_action env attrs allow (seg_match p)"
  obtain segs where s: "s = render segs" "list_all wf_seg segs" "\<forall>p \<in> set (marks segs). replacing (?a p)"
    "t = render (map (fill ?a) segs)"
    using assms(2) unfolding single_text_def by blast
  have "\<forall>p \<in> set (marks segs). benign (?a p)"
    using s(3) replacing_benign by blast
  from parameterSubstitute_template [OF assms(1) s(2) this, of k] s(1) obtain out where
    "parameterSubstitute env ord \<lparr>TemplateKey = k, Template = s, Attributes = attrs,
       AllowAttributeSubstitution = allow\<rparr> = Ok out"
    "wf_map out" "set out = render_line ` set (expansion ?a (marks segs) (k, segs))"
    by auto
  then show ?thesis
    using expansion_single [of segs ?a, OF s(3)] s(4) singleton_map [of out] by (simp add: render_line_def)
qed

text \<open>Substituting the text again changes nothing: only markers that stay are left in it.\<close>

lemma marks_fill: "p \<in> set (marks (map (fill meaning) segs)) \<Longrightarrow>
    p \<in> set (marks segs) \<and> (\<forall>t. meaning p \<noteq> Replace t)"
  by (induction segs rule: marks.induct) (auto split: action.splits)

lemma fill_fill: "\<forall>p \<in> set (marks segs). \<forall>t. meaning p \<noteq> Replace t \<Longrightarrow> map (fill meaning) segs = segs"
  by (induction segs rule: marks.induct) (auto split: action.splits)

lemma wf_fill: "wf_seg s \<Longrightarrow> (\<And>p. s = Mark p \<Longrightarrow> replacing (meaning p)) \<Longrightarrow> wf_seg (fill meaning s)"
  by (cases s) (auto simp: replacing_def split: action.splits)

lemma single_text_stable:
  assumes "single_text env attrs allow s t"
  shows "single_text env attrs allow t t"
proof -
  let ?a = "\<lambda>p. marker_action env attrs allow (seg_match p)"
  obtain segs where s: "list_all wf_seg segs" "\<forall>p \<in> set (marks segs). replacing (?a p)"
    "t = render (map (fill ?a) segs)"
    using assms unfolding single_text_def by blast
  have "list_all wf_seg (map (fill ?a) segs)"
    unfolding list_all_iff using s(1,2) by (auto simp: list_all_iff intro!: wf_fill dest: marks_in)
  moreover have "map (fill ?a) (map (fill ?a) segs) = map (fill ?a) segs"
    using marks_fill by (intro fill_fill) blast
  moreover have "\<forall>p \<in> set (marks (map (fill ?a) segs)). replacing (?a p)"
    using s(2) marks_fill by blast
  ultimately show ?thesis
    unfolding single_text_def using s(3) by metis
qed

lemma single_text_plain: "CHR ''{'' \<notin> set s \<Longrightarrow> single_text env attrs allow s s"
  unfolding single_text_def by (intro exI [of _ "[Lit s]"]) auto

text \<open>When every marker stands for one text (or stays), the result is the single line under the
  template's key in which each marker is replaced by its text; substituting that line again
  leaves it.\<close>

theorem parameterSubstitute_single:
  assumes "perm_order ord" and "list_all wf_seg segs"
    and "\<forall>p \<in> set (marks segs). replacing (marker_action env attrs allow (seg_match p))"
    and "t = render (map (fill (\<lambda>p. marker_action env attrs allow (seg_match p))) segs)"
  shows "parameterSubstitute env ord \<lparr>TemplateKey = k, Template = render segs, Attributes = attrs,
      AllowAttributeSubstitution = allow\<rparr> = Ok [(k, t)] \<and>
    parameterSubstitute env ord \<lparr>TemplateKey = k, Template = t, Attributes = attrs,
      AllowAttributeSubstitution = allow\<rparr> = Ok [(k, t)]"
proof -
  have "single_text env attrs allow (render segs) t"
    using assms(2-4) unfolding single_text_def by blast
  then show ?thesis
    using parameterSubstitute_text [OF assms(1)] single_text_stable by blast
qed

subsubsection \<open>What each kind of marker puts into a line\<close>

fun array_meaning :: "index \<Rightarrow> string list \<Rightarrow> action" where
  "array_meaning NoIndex es = Replace (join '','' es)"
| "array_meaning (NumIndex n) es =
     (if int n \<ge> 2 ^ 63 then Inflate es else if n < length es then Replace (es ! n) else Crash)"
| "array_meaning i es = Inflate es"

fun map_meaning :: "go_env \<Rightarrow> index \<Rightarrow> val gomap \<Rightarrow> action" where
  "map_meaning env (KeyIndex k) mp =
     (case map_of mp k of Some v \<Rightarrow> Replace (sprint env v) | None \<Rightarrow> Crash)"
| "map_meaning env NoIndex mp =
     (case map_of mp [] of Some v \<Rightarrow> Replace (sprint env v) | None \<Rightarrow> Crash)"
| "map_meaning env i mp = Inflate (map (\<lambda>(k, v). sprint env v) mp)"

lemma slice_action_index:
  "valid_index i \<Longrightarrow> slice_action (index_var ty nm i) es = array_meaning i es"
  by (cases i) (auto simp: slice_action_def)

lemma map_action_index:
  "valid_index i \<Longrightarrow> map_action env (index_var ty nm i) mp = map_meaning env i mp"
  by (cases i) (auto simp: map_action_def split: option.splits)

lemma index_var_fields [simp]:
  "ev_Type (index_var ty nm i) = ty" "ev_Varname (index_var ty nm i) = nm"
  by (cases i; simp)+

text \<open>C8. An \<^verbatim>\<open>ENV\<close> marker without index puts the environment variable's text into every line
  unchanged, although the code splits it at the commas and joins it again; with brackets it
  inflates the comma-separated list, with a number it picks that element and panics when there is
  none, and a quoted key is ignored. The attributes play no part.\<close>

theorem substitute_match_env:
  assumes "valid_index i"
  shows "substitute_match env visit input (marker_match ''ENV'' nm i) output =
     act visit (print_marker ''ENV'' nm i)
       (if i = NoIndex then Replace (getenv env nm)
        else array_meaning i (split_on (CHR '','') (getenv env nm))) output"
  using assms
  by (auto simp: substitute_match_action marker_action_def decode_marker_match slice_action_index
      Let_def join_split_on)


definition demo_env :: go_env where
  "demo_env = \<lparr>getenv = (\<lambda>v. if v = ''S'' then ''a,b'' else []), fmt_float = (\<lambda>w. ''1.5'')\<rparr>"

definition dash_input :: paramSubInput where
  "dash_input = \<lparr>TemplateKey = ''k'', Template = ''{ATTR::a[]}/{ATTR::b[]}'',
     Attributes = [(''a'', VStrSlice [''x'', ''x-y'']), (''b'', VStrSlice [''y-z'', ''z''])],
     AllowAttributeSubstitution = True\<rparr>"

text \<open>The order does matter when an element contains a dash: two inflations can then meet on
  one key, and the line stored last stays. Two orders give two different maps.\<close>

theorem parameterSubstitute_order_matters:
  "map_res (\<lambda>out. map_of out ''k-x-y-z'') (parameterSubstitute demo_env (\<lambda>n m. m) dash_input)
     = Ok (Some ''x-y/z'') \<and>
   map_res (\<lambda>out. map_of out ''k-x-y-z'') (parameterSubstitute demo_env (\<lambda>n. rev) dash_input)
     = Ok (Some ''x/y-z'')"
  unfolding dash_input_def demo_env_def by code_simp

subsection \<open>Instances\<close>

definition two_input :: paramSubInput where
  "two_input = \<lparr>TemplateKey = ''p'', Template = ''/{ENV::S}/{ATTR::a[]}.h5'',
     Attributes = [(''a'', VSlice [VString ''x'', VInt 7])], AllowAttributeSubstitution = True\<rparr>"

definition two_segs :: "seg list" where
  "two_segs = [Lit ''/'', Mark ''{ENV::S}'', Lit ''/'', Mark ''{ATTR::a[]}'', Lit ''.h5'']"

lemma demo_orders: "perm_order (\<lambda>n m. m)" "perm_order (\<lambda>n. rev)"
  by (simp_all add: perm_order_def)

lemma two_input_facts:
  "Template two_input = render two_segs" "list_all wf_seg two_segs"
  "\<forall>p \<in> set (marks two_segs). benign (marker_action demo_env (Attributes two_input)
     (AllowAttributeSubstitution two_input) (seg_match p))"
  "\<forall>m \<in> set (FindAllStringSubmatch (Template two_input)).
     dash_free (marker_action demo_env (Attributes two_input) (AllowAttributeSubstitution two_input) m)"
  "parameterSubstitute demo_env (\<lambda>n m. m) two_input = Ok [(''p-x'', ''/a,b/x.h5''), (''p-7'', ''/a,b/7.h5'')]"
  unfolding demo_env_def by code_simp+

theorem parameterSubstitute_expansion_witness:
  "\<exists>out. parameterSubstitute demo_env (\<lambda>n. rev) two_input = Ok out \<and> wf_map out \<and>
     set out = render_line ` set (expansion (\<lambda>p. marker_action demo_env (Attributes two_input)
       (AllowAttributeSubstitution two_input) (seg_match p)) (marks two_segs) (TemplateKey two_input, two_segs))"
  by (rule parameterSubstitute_expansion [OF demo_orders(2) two_input_facts(1-3)])


theorem parameterSubstitute_keys_witness:
  "wf_map [(''p-x'', ''/a,b/x.h5''), (''p-7'', ''/a,b/7.h5'')] \<and> extends (TemplateKey two_input) ''p-7''"
  using parameterSubstitute_keys [OF demo_orders(1) two_input_facts(5)] by simp

definition one_segs :: "seg list" where
  "one_segs = [Lit ''/'', Mark ''{ENV::S}'', Lit ''/'', Mark ''{VAR::n}'', Mark ''{ATTR::a[1]}'']"

theorem parameterSubstitute_single_witness:
  "parameterSubstitute demo_env (\<lambda>n. rev) \<lparr>TemplateKey = ''p'', Template = ''/{ENV::S}/{VAR::n}{ATTR::a[1]}'',
      Attributes = Attributes two_input, AllowAttributeSubstitution = True\<rparr> = Ok [(''p'', ''/a,b/{VAR::n}7'')]"
proof -
  have "list_all wf_seg one_segs" "render one_segs = ''/{ENV::S}/{VAR::n}{ATTR::a[1]}''"
    "\<forall>p \<in> set (marks one_segs). replacing (marker_action demo_env (Attributes two_input) True (seg_match p))"
    "''/a,b/{VAR::n}7'' = render (map (fill (\<lambda>p. marker_action demo_env (Attributes two_input) True (seg_match p))) one_segs)"
    unfolding demo_env_def by code_simp+
  then show ?thesis
    using parameterSubstitute_single [OF demo_orders(2), of one_segs demo_env "Attributes two_input" True] by simp
qed

definition no_attr_input :: paramSubInput where
  "no_attr_input = \<lparr>TemplateKey = ''p'', Template = ''{ATTR::q}'', Attributes = [],
     AllowAttributeSubstitution = True\<rparr>"

theorem parameterSubstitute_error_witness:
  "AllowAttributeSubstitution no_attr_input \<and>
     (\<exists>m \<in> set (FindAllStringSubmatch (Template no_attr_input)).
        m1 m = ''ATTR'' \<and> map_of (Attributes no_attr_input) (m2 m) = None \<and>
        Errorf ''invalid attribute name: %s'' [''q''] = Errorf ''invalid attribute name: %s'' [m2 m])"
proof -
  have "parameterSubstitute demo_env (\<lambda>n m. m) no_attr_input = Err (Errorf ''invalid attribute name: %s'' [''q''])"
    unfolding demo_env_def by code_simp
  then show ?thesis
    using parameterSubstitute_error [of demo_env "\<lambda>n m. m" no_attr_input
        "Errorf ''invalid attribute name: %s'' [''q'']"] by blast
qed

theorem substitute_match_env_witness:
  "substitute_match demo_env (\<lambda>m. m) two_input (marker_match ''ENV'' ''S'' (NumIndex 5)) [(''p'', ''l'')] = Panic"
  using substitute_match_env [of "NumIndex 5" demo_env "\<lambda>m. m" two_input "''S''" "[(''p'', ''l'')]"]
  by (simp add: demo_env_def)


end
