(* ===== verification/Go_Range.thy ===== *)
theory Go_Range
  imports Go_Prelude
begin

section \<open>Ranging over a map that the body changes\<close>

text \<open>
  A \<^verbatim>\<open>range\<close> statement over a Go map whose body deletes and stores entries of that
  map. Go fixes no order; an entry removed before it is reached is not produced, and an entry
  created during the loop may be produced or skipped. A run is given by its schedule, the list
  of keys in the order they are produced; a schedule Go does not allow gives \<open>None\<close>. The
  theorem \<open>range_loop_settles\<close> says when every schedule leaves the same map.
\<close>

subsection \<open>The loop\<close>

datatype ('k, 'v) mapop = MDelete 'k | MStore 'k 'v

text \<open>
  The map, the keys still to be produced, and the keys created since the loop began, which may
  be produced.
\<close>

record ('k, 'v) range_state =
  rmap :: "('k \<times> 'v) list"
  todo :: "'k list"
  fresh :: "'k list"

fun map_step :: "('k, 'v) mapop \<Rightarrow> ('k, 'v) range_state \<Rightarrow> ('k, 'v) range_state" where
  "map_step (MDelete k) st = \<lparr>rmap = AList.delete k (rmap st), todo = removeAll k (todo st),
     fresh = removeAll k (fresh st)\<rparr>"
| "map_step (MStore k v) st = \<lparr>rmap = AList.update k v (rmap st), todo = todo st,
     fresh = (if k \<in> set (keys (rmap st)) then fresh st else List.insert k (fresh st))\<rparr>"

definition visit_key :: "'k \<Rightarrow> ('k, 'v) range_state \<Rightarrow> ('k, 'v) range_state" where
  "visit_key k st = st \<lparr>todo := removeAll k (todo st), fresh := removeAll k (fresh st)\<rparr>"

definition range_start :: "('k \<times> 'v) list \<Rightarrow> ('k, 'v) range_state" where
  "range_start m = \<lparr>rmap = m, todo = keys m, fresh = []\<rparr>"

text \<open>
  The body gets the entry and the choices the schedule attaches to the visit; an error return
  or a panic of the body ends the loop.
\<close>

fun range_loop :: "('i \<Rightarrow> 'k \<Rightarrow> 'v \<Rightarrow> ('k, 'v) mapop list res option) \<Rightarrow> ('k \<times> 'i) list \<Rightarrow>
    ('k, 'v) range_state \<Rightarrow> ('k \<times> 'v) list res option" where
  "range_loop body [] st = (if todo st = [] then Some (Ok (rmap st)) else None)"
| "range_loop body ((k, i) # sch) st =
     (if k \<in> set (todo st) \<or> k \<in> set (fresh st) then
        (case map_of (rmap st) k of
           None \<Rightarrow> None
         | Some v \<Rightarrow>
             (case body i k v of
                None \<Rightarrow> None
              | Some (Ok ops) \<Rightarrow> range_loop body sch (fold map_step ops (visit_key k st))
              | Some (Err e) \<Rightarrow> Some (Err e)
              | Some Panic \<Rightarrow> Some Panic
              | Some Exit \<Rightarrow> Some Exit))
      else None)"

lemma range_loop_cong [fundef_cong]:
  assumes "sch = sch'" and "st = st'"
    and "\<And>i k v. (k, i) \<in> set sch' \<Longrightarrow> body i k v = body' i k v"
  shows "range_loop body sch st = range_loop body' sch' st'"
proof -
  have "range_loop body sch' st = range_loop body' sch' st"
    using assms(3)
  proof (induction body sch' st rule: range_loop.induct)
    case (1 body st)
    then show ?case by simp
  next
    case (2 body k i sch st)
    then show ?case
      by (auto split: option.splits res.splits)
  qed
  then show ?thesis
    using assms by simp
qed

subsection \<open>What one visit writes\<close>

text \<open>
  The shapes of a body: it replaces the entry by new ones, stores the key again, or leaves
  the entry. \<open>writes ops k v E\<close>: the entry \<open>(k, v)\<close> becomes the entries \<open>E\<close>.
\<close>

definition replace_ops :: "'k \<Rightarrow> ('k \<times> 'v) list \<Rightarrow> ('k, 'v) mapop list" where
  "replace_ops k new = MDelete k # map (\<lambda>(k', v'). MStore k' v') new"

inductive writes :: "('k, 'v) mapop list \<Rightarrow> 'k \<Rightarrow> 'v \<Rightarrow> ('k \<times> 'v) set \<Rightarrow> bool" where
  leaves: "writes [] k v {(k, v)}"
| stores: "writes [MStore k v'] k v {(k, v')}"
| replaces: "wf_map new \<Longrightarrow> writes (replace_ops k new) k v (set new)"

lemma wf_map_entry: "wf_map m \<Longrightarrow> map_of m k = Some v \<longleftrightarrow> (k, v) \<in> set m"
  by (simp add: wf_map_def)

lemma wf_map_unique: "wf_map m \<Longrightarrow> (k, x) \<in> set m \<Longrightarrow> (k, y) \<in> set m \<Longrightarrow> x = y"
  using wf_map_entry [of m k x] wf_map_entry [of m k y] by simp

lemma set_update_entries:
  assumes "wf_map m"
  shows "set (AList.update k v m) = {p \<in> set m. fst p \<noteq> k} \<union> {(k, v)}"
proof -
  have "(x, y) \<in> set (AList.update k v m) \<longleftrightarrow> (x, y) \<in> {p \<in> set m. fst p \<noteq> k} \<union> {(k, v)}" for x y
    using assms by (auto simp: wf_map_entry [symmetric] map_of_update_gomap)
  then show ?thesis by auto
qed

lemma set_delete_entries: "set (AList.delete k m) = {p \<in> set m. fst p \<noteq> k}"
  by (induction m) auto

lemma fold_stores:
  assumes "wf_map new" and "wf_map (rmap st)" and "fst ` set new \<inter> fst ` set (rmap st) = {}"
  shows "let st' = fold map_step (map (\<lambda>(k, v). MStore k v) new) st in
    wf_map (rmap st') \<and> set (rmap st') = set (rmap st) \<union> set new \<and> todo st' = todo st \<and>
    set (fresh st') = set (fresh st) \<union> fst ` set new"
  using assms
proof (induction new arbitrary: st)
  case Nil
  then show ?case by simp
next
  case (Cons p new)
  obtain k v where p: "p = (k, v)" by (cases p)
  let ?st = "map_step (MStore k v) st"
  have k: "k \<notin> fst ` set (rmap st)" "k \<notin> fst ` set new"
    using Cons.prems p by (auto simp: wf_map_def)
  then have s: "set (rmap ?st) = insert (k, v) (set (rmap st))"
    using Cons.prems(2) by (force simp: set_update_entries)
  have "let st' = fold map_step (map (\<lambda>(k, v). MStore k v) new) ?st in
    wf_map (rmap st') \<and> set (rmap st') = set (rmap ?st) \<union> set new \<and> todo st' = todo ?st \<and>
    set (fresh st') = set (fresh ?st) \<union> fst ` set new"
  proof (rule Cons.IH)
    show "wf_map new"
      using Cons.prems(1) by (simp add: wf_map_def)
    show "wf_map (rmap ?st)"
      using Cons.prems(2) by simp
    show "fst ` set new \<inter> fst ` set (rmap ?st) = {}"
      unfolding s using Cons.prems(3) k(2) p by auto
  qed
  then show ?case
    using k by (auto simp: Let_def p s simp del: map_step.simps) (auto split: if_splits)
qed

text \<open>The state after a visit, given that the new keys are free.\<close>

lemma writes_effect:
  assumes "writes ops k v E" and "wf_map (rmap st)" and "(k, v) \<in> set (rmap st)"
    and "fst ` E \<inter> (fst ` set (rmap st) - {k}) = {}" and "k \<notin> set (todo st)"
  defines "st' \<equiv> fold map_step ops st"
  shows "wf_map (rmap st') \<and> set (rmap st') = {p \<in> set (rmap st). fst p \<noteq> k} \<union> E \<and>
    set (todo st') = set (todo st) \<and> set (fresh st') \<subseteq> set (fresh st) \<union> fst ` E"
  using assms(1)
proof cases
  case leaves
  have "set (rmap st) = {p \<in> set (rmap st). fst p \<noteq> k} \<union> {(k, v)}"
    using wf_map_unique [OF assms(2)] assms(3) by auto
  with leaves assms(2) show ?thesis
    by (auto simp: st'_def)
next
  case (stores v')
  have "k \<in> fst ` set (rmap st)"
    using assms(3) by force
  with stores assms(2) show ?thesis
    by (auto simp: st'_def set_update_entries)
next
  case (replaces new)
  let ?st = "map_step (MDelete k) st"
  have "fst ` set new \<inter> fst ` set (rmap ?st) = {}"
    using assms(4) replaces by (auto simp: set_delete_entries)
  then have "let st' = fold map_step (map (\<lambda>(k, v). MStore k v) new) ?st in
    wf_map (rmap st') \<and> set (rmap st') = set (rmap ?st) \<union> set new \<and> todo st' = todo ?st \<and>
    set (fresh st') = set (fresh ?st) \<union> fst ` set new"
    using replaces assms(2) by (intro fold_stores) auto
  with replaces assms(5) show ?thesis
    by (auto simp: Let_def st'_def replace_ops_def set_delete_entries)
qed

subsection \<open>Every schedule settles on the same map\<close>

definition settling :: "('i \<Rightarrow> 'k \<Rightarrow> 'v \<Rightarrow> ('k, 'v) mapop list res option) \<Rightarrow> ('k \<times> 'v) list \<Rightarrow>
    ('k \<Rightarrow> ('k \<times> 'v) set) \<Rightarrow> 'i \<Rightarrow> bool" where
  "settling body m Out i \<longleftrightarrow>
     (\<forall>(k, v) \<in> set m. \<exists>ops. body i k v = Some (Ok ops) \<and> writes ops k v (Out k)) \<and>
     (\<forall>k0 \<in> fst ` set m. \<forall>(k, v) \<in> Out k0. \<exists>ops. body i k v = Some (Ok ops) \<and> writes ops k v {(k, v)})"

definition separate :: "('k \<times> 'v) list \<Rightarrow> ('k \<Rightarrow> ('k \<times> 'v) set) \<Rightarrow> bool" where
  "separate m Out \<longleftrightarrow> (\<forall>k \<in> fst ` set m. \<forall>k' \<in> fst ` set m. k \<noteq> k' \<longrightarrow>
     fst ` Out k \<inter> fst ` Out k' = {} \<and> k' \<notin> fst ` Out k)"

lemma separateD:
  assumes "separate m Out" and "k \<in> fst ` set m" and "k' \<in> fst ` set m" and "k \<noteq> k'"
  shows "fst ` Out k \<inter> fst ` Out k' = {}" and "k' \<notin> fst ` Out k"
  using assms unfolding separate_def by blast+

text \<open>The state of the loop when the keys \<open>D\<close> are done.\<close>

definition settled :: "('k \<times> 'v) list \<Rightarrow> ('k \<Rightarrow> ('k \<times> 'v) set) \<Rightarrow> 'k set \<Rightarrow> ('k, 'v) range_state \<Rightarrow> bool" where
  "settled m Out D st \<longleftrightarrow> D \<subseteq> fst ` set m \<and> wf_map (rmap st) \<and>
     set (rmap st) = {p \<in> set m. fst p \<notin> D} \<union> (\<Union>k \<in> D. Out k) \<and>
     set (todo st) = fst ` set m - D \<and> set (fresh st) \<subseteq> (\<Union>k \<in> D. fst ` Out k)"

lemma settledD:
  assumes "settled m Out D st"
  shows "D \<subseteq> fst ` set m" and "wf_map (rmap st)"
    and "set (rmap st) = {p \<in> set m. fst p \<notin> D} \<union> (\<Union>k \<in> D. Out k)"
    and "set (todo st) = fst ` set m - D" and "set (fresh st) \<subseteq> (\<Union>k \<in> D. fst ` Out k)"
  using assms by (simp_all add: settled_def)

text \<open>What an entry that is still to come can write does not touch the other entries.\<close>

lemma settled_free:
  assumes "settled m Out D st" and "separate m Out" and "k \<in> fst ` set m" and "k \<notin> D"
  shows "fst ` Out k \<inter> (fst ` set (rmap st) - {k}) = {}"
proof -
  have "x \<notin> fst ` Out k" if x: "x \<in> fst ` set (rmap st)" and "x \<noteq> k" for x
  proof (cases "x \<in> fst ` set m - D")
    case True
    then show ?thesis
      using separateD(2) [OF assms(2,3)] that(2) by blast
  next
    case False
    with x obtain k' where k': "k' \<in> D" "x \<in> fst ` Out k'"
      unfolding settledD(3) [OF assms(1)] by force
    then have "k' \<in> fst ` set m" "k' \<noteq> k"
      using settledD(1) [OF assms(1)] assms(4) by blast+
    then show ?thesis
      using separateD(1) [OF assms(2), of k' k] assms(3) k'(2) by blast
  qed
  then show ?thesis by blast
qed

lemma settled_todo:
  assumes "settled m Out D st" and "separate m Out" and "settling body m Out i" and "wf_map m"
    and "k \<in> set (todo st)" and "map_of (rmap st) k = Some v"
  shows "\<exists>ops. body i k v = Some (Ok ops) \<and> settled m Out (insert k D) (fold map_step ops (visit_key k st))"
proof -
  have k: "k \<in> fst ` set m" "k \<notin> D"
    using assms(1,5) by (auto simp: settled_def)
  have kv: "(k, v) \<in> set (rmap st)"
    using assms(6) by (rule map_of_SomeD)
  moreover have apart: "k \<notin> fst ` Out k'" if "k' \<in> D" for k'
    using separateD(2) [OF assms(2) _ k(1), of k'] settledD(1) [OF assms(1)] k(2) that by blast
  ultimately have "(k, v) \<in> set m"
    unfolding settledD(3) [OF assms(1)] by force
  with assms(3) obtain ops where ops: "body i k v = Some (Ok ops)" "writes ops k v (Out k)"
    unfolding settling_def by blast
  note free = settled_free [OF assms(1,2) k]
  have eff: "wf_map (rmap (fold map_step ops (visit_key k st))) \<and>
      set (rmap (fold map_step ops (visit_key k st))) = {p \<in> set (rmap st). fst p \<noteq> k} \<union> Out k \<and>
      set (todo (fold map_step ops (visit_key k st))) = set (todo st) - {k} \<and>
      set (fresh (fold map_step ops (visit_key k st))) \<subseteq> set (fresh st) \<union> fst ` Out k"
    using writes_effect [OF ops(2), of "visit_key k st"] settledD(2) [OF assms(1)] kv free
    by (auto simp: visit_key_def)
  moreover have "{p \<in> set (rmap st). fst p \<noteq> k} = {p \<in> set m. fst p \<notin> insert k D} \<union> (\<Union>k \<in> D. Out k)"
    unfolding settledD(3) [OF assms(1)] using apart by force
  ultimately have "settled m Out (insert k D) (fold map_step ops (visit_key k st))"
    using settledD(1,4,5) [OF assms(1)] k unfolding settled_def by auto
  with ops(1) show ?thesis by blast
qed

lemma settled_fresh:
  assumes "settled m Out D st" and "separate m Out" and "settling body m Out i" and "wf_map m"
    and "k \<in> set (fresh st)" and "map_of (rmap st) k = Some v"
  shows "\<exists>ops. body i k v = Some (Ok ops) \<and> settled m Out D (fold map_step ops (visit_key k st))"
proof -
  obtain k0 where k0: "k0 \<in> D" "k \<in> fst ` Out k0" "k0 \<in> fst ` set m"
    using assms(5) settledD(1,5) [OF assms(1)] by blast
  have kv: "(k, v) \<in> set (rmap st)"
    using assms(6) by (rule map_of_SomeD)
  have other: "k \<notin> fst ` set m - D"
    using separateD(2) [OF assms(2) k0(3), of k] k0 by blast
  then obtain k1 where k1: "k1 \<in> D" "(k, v) \<in> Out k1"
    using kv unfolding settledD(3) [OF assms(1)] by force
  then obtain ops where ops: "body i k v = Some (Ok ops)" "writes ops k v {(k, v)}"
    using assms(3) settledD(1) [OF assms(1)] unfolding settling_def by blast
  have eff: "wf_map (rmap (fold map_step ops (visit_key k st))) \<and>
      set (rmap (fold map_step ops (visit_key k st))) = {p \<in> set (rmap st). fst p \<noteq> k} \<union> {(k, v)} \<and>
      set (todo (fold map_step ops (visit_key k st))) = set (todo st) - {k} \<and>
      set (fresh (fold map_step ops (visit_key k st))) \<subseteq> set (fresh st) \<union> {k}"
    using writes_effect [OF ops(2), of "visit_key k st"] settledD(2) [OF assms(1)] kv
    by (auto simp: visit_key_def)
  moreover have "{p \<in> set (rmap st). fst p \<noteq> k} \<union> {(k, v)} = set (rmap st)"
    using kv wf_map_unique [OF settledD(2) [OF assms(1)]] by auto
  moreover have "set (todo st) - {k} = set (todo st)"
    using other settledD(4) [OF assms(1)] by blast
  moreover have "k \<in> (\<Union>k \<in> D. fst ` Out k)"
    using k1 by force
  then have "set (fresh (fold map_step ops (visit_key k st))) \<subseteq> (\<Union>k \<in> D. fst ` Out k)"
    using eff settledD(5) [OF assms(1)] by blast
  ultimately have "settled m Out D (fold map_step ops (visit_key k st))"
    using settledD(1,3,4) [OF assms(1)] unfolding settled_def by simp
  with ops(1) show ?thesis by blast
qed

lemma range_loop_settled:
  assumes "settled m Out D st" and "separate m Out" and "\<forall>(k, i) \<in> set sch. settling body m Out i"
    and "wf_map m" and "range_loop body sch st = Some r"
  shows "\<exists>out. r = Ok out \<and> wf_map out \<and> set out = (\<Union>k \<in> fst ` set m. Out k)"
  using assms(1,3,5)
proof (induction sch arbitrary: D st)
  case Nil
  then have "todo st = []" and r: "r = Ok (rmap st)"
    by (simp_all split: if_splits)
  then have "D = fst ` set m"
    using Nil.prems(1) by (auto simp: settled_def)
  then have "set (rmap st) = (\<Union>k \<in> fst ` set m. Out k)"
    using Nil.prems(1) by (auto simp: settled_def)
  with r Nil.prems(1) show ?case
    by (auto simp: settled_def)
next
  case (Cons ki sch)
  obtain k i where ki: "ki = (k, i)" by (cases ki)
  from Cons.prems(3) ki have "k \<in> set (todo st) \<or> k \<in> set (fresh st)"
    by (auto split: if_splits)
  moreover obtain v where v: "map_of (rmap st) k = Some v"
    using Cons.prems(3) ki by (auto split: if_splits option.splits)
  moreover have "settling body m Out i"
    using Cons.prems(2) ki by auto
  ultimately obtain ops D' where ops: "body i k v = Some (Ok ops)"
    "settled m Out D' (fold map_step ops (visit_key k st))"
    using settled_todo settled_fresh Cons.prems(1) assms(2,4) by metis
  then have "range_loop body sch (fold map_step ops (visit_key k st)) = Some r"
    using Cons.prems(3) ki v by (auto split: if_splits)
  with Cons.IH [OF ops(2)] Cons.prems(2) show ?case
    by simp
qed

lemma settled_start: "wf_map m \<Longrightarrow> settled m Out {} (range_start m)"
  by (auto simp: settled_def range_start_def)

text \<open>
  If the entries the keys turn into do not collide, and visiting one of them again leaves it,
  then every schedule ends with exactly these entries.
\<close>

lemma range_loop_settles:
  assumes "wf_map m" and "separate m Out" and "\<forall>(k, i) \<in> set sch. settling body m Out i"
    and "range_loop body sch (range_start m) = Some r"
  shows "\<exists>out. r = Ok out \<and> wf_map out \<and> set out = (\<Union>k \<in> fst ` set m. Out k)"
  using range_loop_settled [OF settled_start [OF assms(1)] assms(2,3,1,4)] .

text \<open>A schedule exists: the keys once each, none of the created ones.\<close>

lemma range_loop_runs:
  assumes "settled m Out D st" and "separate m Out" and "settling body m Out i" and "wf_map m"
    and "distinct ks" and "set ks = set (todo st)"
  shows "\<exists>r. range_loop body (map (\<lambda>k. (k, i)) ks) st = Some r"
  using assms(1,5,6)
proof (induction ks arbitrary: D st)
  case Nil
  then show ?case by simp
next
  case (Cons k ks)
  then have k: "k \<in> set (todo st)" by auto
  then have "k \<in> fst ` set (rmap st)"
    using Cons.prems(1) by (force simp: settled_def)
  then obtain v where v: "map_of (rmap st) k = Some v"
    by (metis domD dom_map_of_conv_image_fst)
  obtain ops where ops: "body i k v = Some (Ok ops)"
      "settled m Out (insert k D) (fold map_step ops (visit_key k st))"
    using settled_todo [OF Cons.prems(1) assms(2,3,4) k v] by blast
  moreover have "set ks = set (todo (fold map_step ops (visit_key k st)))"
    using Cons.prems ops(2) by (auto simp: settled_def)
  ultimately show ?case
    using Cons.IH [OF ops(2)] Cons.prems(2) k v by simp
qed

lemma range_loop_exists:
  assumes "wf_map m" and "separate m Out" and "settling body m Out i"
  shows "\<exists>r. range_loop body (map (\<lambda>k. (k, i)) (keys m)) (range_start m) = Some r"
  using range_loop_runs [OF settled_start [OF assms(1)] assms(2,3,1), of "keys m"] assms(1)
  by (simp add: wf_map_def range_start_def)

end
