(* ===== verification/Data_Model.thy ===== *)
theory Data_Model
  imports Parameter_Substitution Go_Range
begin

section \<open>The payload's data\<close>

text \<open>
  The records of \<^verbatim>\<open>datastore.go\<close> and \<^verbatim>\<open>payload.go\<close>: data stores, data sources, the
  IO manager that groups them, and actions. A session is a value of any type \<open>'s\<close>, nil
  before the store is connected. The maps of a data source are optional, because storing into
  a nil map panics; an IO manager's parent is the address of another IO manager.
\<close>

record 's DataStore =
  st_Name :: string
  st_ID :: "string option"
  st_StoreType :: string
  st_DsProfile :: string
  st_Parameters :: attrs
  st_Session :: "'s option"

record DataSource =
  ds_Name :: string
  ds_ID :: "string option"
  ds_Paths :: "string gomap option"
  ds_DataPaths :: "string gomap option"
  ds_StoreName :: string

record 's IOManager =
  im_Attributes :: attrs
  im_Stores :: "'s DataStore list"
  im_Inputs :: "DataSource list"
  im_Outputs :: "DataSource list"
  im_parent :: "nat option"

record 's Action =
  ac_IOManager :: "'s IOManager"
  ac_Type :: string
  ac_Description :: string
  ac_Name :: string

record 's Payload =
  pl_IOManager :: "'s IOManager"
  pl_Actions :: "'s Action list"

text \<open>The seeds and the realization that plugins share (\<^verbatim>\<open>plugin/ccutility.go\<close>).\<close>

record SeedSet =
  ss_EventSeed :: "64 word"
  ss_RealizationSeed :: "64 word"

record EventConfiguration =
  ec_RealizationNumber :: int
  ec_Seeds :: "SeedSet gomap option"

text \<open>A nil map reads as an empty one.\<close>

definition nil_map :: "'v gomap option \<Rightarrow> 'v gomap" where
  "nil_map m = (case m of None \<Rightarrow> [] | Some m \<Rightarrow> m)"

lemma nil_map_simps [simp]: "nil_map None = []" "nil_map (Some m) = m"
  by (simp_all add: nil_map_def)

text \<open>\<^verbatim>\<open>maps.Copy(dst, src)\<close> and \<^verbatim>\<open>delete(dst, k)\<close> on a map that may be nil.\<close>

definition copy_into :: "'v gomap option \<Rightarrow> 'v gomap \<Rightarrow> 'v gomap option res" where
  "copy_into dst src = (case dst of
     None \<Rightarrow> if src = [] then Ok None else Panic
   | Some m \<Rightarrow> Ok (Some (maps_copy m src)))"

definition delete_from :: "string \<Rightarrow> 'v gomap option \<Rightarrow> 'v gomap option" where
  "delete_from k m = map_option (AList.delete k) m"

subsection \<open>Runs with choices\<close>

text \<open>
  A run whose map orders are given by schedules: \<open>None\<close> when a schedule is not one Go allows,
  otherwise the outcome of the run.
\<close>

type_synonym 'a run = "'a res option"

definition run_bind :: "'a run \<Rightarrow> ('a \<Rightarrow> 'b run) \<Rightarrow> 'b run" where
  "run_bind r f = (case r of
     None \<Rightarrow> None
   | Some (Ok x) \<Rightarrow> f x
   | Some (Err e) \<Rightarrow> Some (Err e)
   | Some Panic \<Rightarrow> Some Panic
   | Some Exit \<Rightarrow> Some Exit)"

lemma run_bind_simps [simp, res_simps]:
  "run_bind None f = None"
  "run_bind (Some (Ok x)) f = f x"
  "run_bind (Some (Err e)) f = Some (Err e)"
  "run_bind (Some Panic) f = Some Panic"
  "run_bind (Some Exit) f = Some Exit"
  by (simp_all add: run_bind_def)

lemma run_bind_Ok:
  "run_bind r f = Some (Ok y) \<longleftrightarrow> (\<exists>x. r = Some (Ok x) \<and> f x = Some (Ok y))"
  by (auto simp: run_bind_def split: option.splits res.splits)

lemma run_bind_cong [fundef_cong]:
  "r = r' \<Longrightarrow> (\<And>x. r' = Some (Ok x) \<Longrightarrow> f x = g x) \<Longrightarrow> run_bind r f = run_bind r' g"
  by (auto simp: run_bind_def split: option.splits res.splits)

text \<open>\<^verbatim>\<open>for i, x := range xs { ...; xs[i] = y }\<close> with a body that may stop the loop.\<close>

fun run_list :: "(nat \<Rightarrow> 'a \<Rightarrow> 'b run) \<Rightarrow> nat \<Rightarrow> 'a list \<Rightarrow> 'b list run" where
  "run_list f i [] = Some (Ok [])"
| "run_list f i (x # xs) = run_bind (f i x) (\<lambda>y. run_bind (run_list f (Suc i) xs) (\<lambda>ys. Some (Ok (y # ys))))"

lemma run_list_Ok:
  "run_list f i xs = Some (Ok ys) \<longleftrightarrow>
     length ys = length xs \<and> (\<forall>n < length xs. f (i + n) (xs ! n) = Some (Ok (ys ! n)))"
proof (induction xs arbitrary: i ys)
  case Nil
  then show ?case by auto
next
  case (Cons x xs)
  then show ?case
    by (cases ys) (auto simp: run_bind_Ok nth_Cons All_less_Suc2)
qed

lemma run_list_cong [fundef_cong]:
  assumes "i = i'" and "xs = xs'" and "\<And>n x. x \<in> set xs' \<Longrightarrow> f n x = g n x"
  shows "run_list f i xs = run_list g i' xs'"
proof -
  have "run_list f i' xs' = run_list g i' xs'"
    using assms(3) by (induction xs' arbitrary: i') auto
  then show ?thesis
    using assms by simp
qed

end
