(* ===== verification/Payload_Attributes.thy ===== *)
theory Payload_Attributes
  imports Data_Model
begin

section \<open>Reading payload attributes\<close>

text \<open>
  \<^verbatim>\<open>payload-attributes.go\<close>: the generic \<open>GetAttribute\<close> with its branch per kind of the
  type argument, the getters built from it, and the slices. The conversions of the
  \<^verbatim>\<open>cast\<close> package are arguments of the model (\<open>cast_fns\<close>); the documented behaviour of
  the package the theorems rely on is \<open>cast_documented\<close>. A result is a \<open>val\<close> of the
  requested kind.
\<close>

subsection \<open>Converting a float64 to an int\<close>

text \<open>
  Truncation towards zero of the number an IEEE 754 bit pattern stands for; outside the range
  of an \<^verbatim>\<open>int\<close>, and for infinities and NaN, the least \<^verbatim>\<open>int\<close>, as on amd64.
\<close>

definition float_exponent :: "64 word \<Rightarrow> nat" where
  "float_exponent w = nat ((uint w div 2 ^ 52) mod 2 ^ 11)"

definition float_mantissa :: "64 word \<Rightarrow> nat" where
  "float_mantissa w = nat (uint w mod 2 ^ 52)"

definition float_negative :: "64 word \<Rightarrow> bool" where
  "float_negative w \<longleftrightarrow> uint w \<ge> 2 ^ 63"

definition float_abs_trunc :: "64 word \<Rightarrow> nat" where
  "float_abs_trunc w =
     (let e = float_exponent w; m = (if e = 0 then float_mantissa w else 2 ^ 52 + float_mantissa w); e' = max e 1
      in if e' \<ge> 1075 then m * 2 ^ (e' - 1075) else m div 2 ^ (1075 - e'))"

definition float_to_int :: "64 word \<Rightarrow> int" where
  "float_to_int w =
     (if float_exponent w = 2047 then - (2 ^ 63)
      else let i = (if float_negative w then - int (float_abs_trunc w) else int (float_abs_trunc w))
        in if int64 i then i else - (2 ^ 63))"

lemma float_to_int_int64: "int64 (float_to_int w)"
  by (simp add: float_to_int_def Let_def int64_def)

subsection \<open>GetAttribute\<close>

record cast_fns =
  ToInt64E :: "val \<Rightarrow> int res"
  ToStringE :: "val \<Rightarrow> string res"
  ToFloat64E :: "val \<Rightarrow> (64 word) res"
  ToStringMap :: "val \<Rightarrow> val gomap"

text \<open>The kinds of \<^verbatim>\<open>PayloadAttributeTypes\<close>.\<close>

datatype attr_kind = KInt64 | KInt32 | KInt | KFloat64 | KString | KBool | KMap

definition GetAttribute :: "cast_fns \<Rightarrow> attr_kind \<Rightarrow> attrs \<Rightarrow> string \<Rightarrow> val res" where
  "GetAttribute cs tk pa name =
     (case map_of pa name of
        Some attr \<Rightarrow>
          (case tk of
             KInt64 \<Rightarrow> res_bind (ToInt64E cs attr) (\<lambda>i. Ok (VInt i))
           | KInt \<Rightarrow> res_bind (ToInt64E cs attr) (\<lambda>i. Ok (VInt (wrap64 i)))
           | KInt32 \<Rightarrow> res_bind (ToInt64E cs attr) (\<lambda>i. Ok (VInt (wrap32 i)))
           | KString \<Rightarrow> res_bind (ToStringE cs attr) (\<lambda>s. Ok (VString s))
           | KBool \<Rightarrow> res_bind (ToStringE cs attr) (\<lambda>s. Ok (VBool (to_lower s = ''true'')))
           | KFloat64 \<Rightarrow> res_bind (ToFloat64E cs attr) (\<lambda>f. Ok (VFloat f))
           | KMap \<Rightarrow> Ok (VMap (ToStringMap cs attr)))
      | None \<Rightarrow> Err (Errorf ''Attribute %s is not in the payload'' [name]))"

text \<open>\<^verbatim>\<open>log.Fatalf\<close> ends the process.\<close>

definition GetOrFail :: "cast_fns \<Rightarrow> attr_kind \<Rightarrow> attrs \<Rightarrow> string \<Rightarrow> val res" where
  "GetOrFail cs tk pa attr = (case GetAttribute cs tk pa attr of Err e \<Rightarrow> Exit | r \<Rightarrow> r)"

definition GetOrDefault :: "cast_fns \<Rightarrow> attr_kind \<Rightarrow> attrs \<Rightarrow> string \<Rightarrow> val \<Rightarrow> val res" where
  "GetOrDefault cs tk pa attr defaultVal = (case GetAttribute cs tk pa attr of Err e \<Rightarrow> Ok defaultVal | r \<Rightarrow> r)"

definition GetInt where "GetInt cs pa name = GetAttribute cs KInt pa name"
definition GetIntOrFail where "GetIntOrFail cs pa name = GetOrFail cs KInt pa name"
definition GetIntOrDefault where "GetIntOrDefault cs pa name d = GetOrDefault cs KInt pa name (VInt d)"
definition GetInt64 where "GetInt64 cs pa name = GetAttribute cs KInt64 pa name"
definition GetInt64OrFail where "GetInt64OrFail cs pa name = GetOrFail cs KInt64 pa name"
definition GetInt64OrDefault where "GetInt64OrDefault cs pa name d = GetOrDefault cs KInt64 pa name (VInt d)"
definition GetFloat where "GetFloat cs pa name = GetAttribute cs KFloat64 pa name"
definition GetFloatOrFail where "GetFloatOrFail cs pa name = GetOrFail cs KFloat64 pa name"
definition GetFloatOrDefault where "GetFloatOrDefault cs pa name d = GetOrDefault cs KFloat64 pa name (VFloat d)"
definition GetString where "GetString cs pa name = GetAttribute cs KString pa name"
definition GetStringOrFail where "GetStringOrFail cs pa name = GetOrFail cs KString pa name"
definition GetStringOrDefault where "GetStringOrDefault cs pa name d = GetOrDefault cs KString pa name (VString d)"
definition GetBoolean where "GetBoolean cs pa name = GetAttribute cs KBool pa name"
definition GetBooleanOrFail where "GetBooleanOrFail cs pa name = GetOrFail cs KBool pa name"
definition GetBooleanOrDefault where "GetBooleanOrDefault cs pa name d = GetOrDefault cs KBool pa name (VBool d)"
definition GetMap where "GetMap cs pa name = GetAttribute cs KMap pa name"

text \<open>\<^verbatim>\<open>mapstructure.Decode\<close> is an argument.\<close>

definition Decode :: "cast_fns \<Rightarrow> (val \<Rightarrow> 'd res) \<Rightarrow> attrs \<Rightarrow> string \<Rightarrow> 'd res" where
  "Decode cs decode pa name = res_bind (GetAttribute cs KMap pa name) decode"

subsection \<open>Slices\<close>

text \<open>\<^verbatim>\<open>v.(T)\<close> panics on an element of another type, and so does \<^verbatim>\<open>vals.([]any)\<close>.\<close>

definition Slice2Type :: "(val \<Rightarrow> 'a option) \<Rightarrow> val list \<Rightarrow> 'a list res" where
  "Slice2Type as_T input = res_map (\<lambda>v. case as_T v of Some t \<Rightarrow> Ok t | None \<Rightarrow> Panic) input"

fun as_float :: "val \<Rightarrow> (64 word) option" where
  "as_float (VFloat w) = Some w"
| "as_float v = None"

fun as_string :: "val \<Rightarrow> string option" where
  "as_string (VString s) = Some s"
| "as_string v = None"

definition get_slice :: "(val \<Rightarrow> 'a option) \<Rightarrow> attrs \<Rightarrow> string \<Rightarrow> 'a list res" where
  "get_slice as_T pa name =
     (case map_of pa name of
        None \<Rightarrow> Err (Errorf ''invalid value for %s'' [name])
      | Some (VSlice vs) \<Rightarrow> Slice2Type as_T vs
      | Some v \<Rightarrow> Panic)"

definition GetIntSlice :: "attrs \<Rightarrow> string \<Rightarrow> int list res" where
  "GetIntSlice pa name = res_bind (get_slice as_float pa name) (\<lambda>floatVals. Ok (map float_to_int floatVals))"

definition GetFloatSlice :: "attrs \<Rightarrow> string \<Rightarrow> 64 word list res" where
  "GetFloatSlice pa name = get_slice as_float pa name"

definition GetStringSlice :: "attrs \<Rightarrow> string \<Rightarrow> string list res" where
  "GetStringSlice pa name = get_slice as_string pa name"

subsection \<open>Properties\<close>

text \<open>
  Documented behaviour of \<^verbatim>\<open>cast\<close>: a string is itself, a boolean prints, an integer is
  itself, and no conversion panics or exits.
\<close>

definition cast_documented :: "cast_fns \<Rightarrow> bool" where
  "cast_documented cs \<longleftrightarrow>
     (\<forall>s. ToStringE cs (VString s) = Ok s) \<and>
     (\<forall>b. ToStringE cs (VBool b) = Ok (if b then ''true'' else ''false'')) \<and>
     (\<forall>i. ToInt64E cs (VInt i) = Ok (wrap64 i)) \<and>
     (\<forall>v. ToStringE cs v \<noteq> Panic \<and> ToStringE cs v \<noteq> Exit) \<and>
     (\<forall>v. ToInt64E cs v \<noteq> Panic \<and> ToInt64E cs v \<noteq> Exit) \<and>
     (\<forall>v. ToFloat64E cs v \<noteq> Panic \<and> ToFloat64E cs v \<noteq> Exit)"

lemma res_bind_pure_outcome: "r \<noteq> Panic \<Longrightarrow> r \<noteq> Exit \<Longrightarrow> res_bind r (\<lambda>x. Ok (f x)) \<noteq> Panic \<and> res_bind r (\<lambda>x. Ok (f x)) \<noteq> Exit"
  by (cases r) auto

lemma GetAttribute_outcome:
  "cast_documented cs \<Longrightarrow> GetAttribute cs tk pa name \<noteq> Panic \<and> GetAttribute cs tk pa name \<noteq> Exit"
  unfolding GetAttribute_def cast_documented_def
  by (cases tk) (auto split: option.splits simp: res_bind_pure_outcome)

text \<open>The kind of a value.\<close>

fun of_kind :: "attr_kind \<Rightarrow> val \<Rightarrow> bool" where
  "of_kind KInt64 (VInt i) \<longleftrightarrow> True"
| "of_kind KInt (VInt i) \<longleftrightarrow> int64 i"
| "of_kind KInt32 (VInt i) \<longleftrightarrow> - (2 ^ 31) \<le> i \<and> i < 2 ^ 31"
| "of_kind KFloat64 (VFloat f) \<longleftrightarrow> True"
| "of_kind KString (VString s) \<longleftrightarrow> True"
| "of_kind KBool (VBool b) \<longleftrightarrow> True"
| "of_kind KMap (VMap m) \<longleftrightarrow> True"
| "of_kind tk v \<longleftrightarrow> False"


text \<open>A boolean attribute is true exactly when its text is \<^verbatim>\<open>true\<close> in any case; every other
  text, also \<^verbatim>\<open>1\<close> or \<^verbatim>\<open>yes\<close>, reads as false and is no error.\<close>

theorem GetBoolean_text:
  assumes "cast_documented cs" and "map_of pa name = Some (VString s)"
  shows "GetBoolean cs pa name = Ok (VBool (to_lower s = ''true''))"
  using assms by (simp add: GetBoolean_def GetAttribute_def cast_documented_def)

lemma Slice2Type_floats:
  "Slice2Type as_float vs = (if list_all (\<lambda>v. as_float v \<noteq> None) vs then Ok (map (the \<circ> as_float) vs) else Panic)"
  unfolding Slice2Type_def by (induction vs) (auto split: option.splits)


text \<open>Reading a 32-bit integer wraps silently: the value read agrees with the converted attribute
  modulo $2^{32}$, and no error tells that it does not fit.\<close>

theorem GetAttribute_int32_wraps:
  assumes "map_of pa name = Some v" and "ToInt64E cs v = Ok i"
  shows "\<exists>j. GetAttribute cs KInt32 pa name = Ok (VInt j) \<and> j mod 2 ^ 32 = i mod 2 ^ 32 \<and>
    - (2 ^ 31) \<le> j \<and> j < 2 ^ 31"
proof -
  have "wrap32 i mod 2 ^ 32 = i mod 2 ^ 32"
    by (simp add: wrap32_def mod_simps)
  then show ?thesis
    using assms wrap32_bounds [of i] by (simp add: GetAttribute_def)
qed

subsection \<open>Instances\<close>

definition demo_cast :: cast_fns where
  "demo_cast = \<lparr>ToInt64E = (\<lambda>v. case v of VInt i \<Rightarrow> Ok (wrap64 i) | VFloat w \<Rightarrow> Ok (float_to_int w)
       | _ \<Rightarrow> Err (External ''unable to cast to int64'')),
     ToStringE = (\<lambda>v. case v of VString s \<Rightarrow> Ok s | VBool b \<Rightarrow> Ok (if b then ''true'' else ''false'')
       | VInt i \<Rightarrow> Ok (show_int i) | _ \<Rightarrow> Err (External ''unable to cast to string'')),
     ToFloat64E = (\<lambda>v. case v of VFloat w \<Rightarrow> Ok w | _ \<Rightarrow> Err (External ''unable to cast to float64'')),
     ToStringMap = (\<lambda>v. case v of VMap m \<Rightarrow> m | _ \<Rightarrow> [])\<rparr>"

lemma demo_cast_documented: "cast_documented demo_cast"
  by (auto simp: cast_documented_def demo_cast_def split: val.splits)

definition demo_attrs :: attrs where
  "demo_attrs = [(''n'', VInt 4294967297), (''b'', VString ''TRUE''), (''fs'', VSlice [VFloat 0x4004000000000000]), (''x'', VNil)]"


theorem GetBoolean_text_witness:
  "GetBoolean demo_cast demo_attrs ''b'' = Ok (VBool True)"
proof -
  have "to_lower ''TRUE'' = ''true''"
    by code_simp
  then show ?thesis
    using GetBoolean_text [OF demo_cast_documented, of demo_attrs "''b''" "''TRUE''"] by (simp add: demo_attrs_def)
qed

theorem GetAttribute_int32_wraps_witness:
  "\<exists>j. GetAttribute demo_cast KInt32 demo_attrs ''n'' = Ok (VInt j) \<and> j mod 2 ^ 32 = 4294967297 mod 2 ^ 32 \<and>
    - (2 ^ 31) \<le> j \<and> j < 2 ^ 31"
  by (rule GetAttribute_int32_wraps [of _ _ "VInt 4294967297"])
    (simp_all add: demo_attrs_def demo_cast_def wrap64_def)

end
