(* ===== verification/Go_Files.thy ===== *)
theory Go_Files
  imports Go_Strings
begin

section \<open>Paths and files of the local machine\<close>

text \<open>
  The lexical path functions of \<^verbatim>\<open>path/filepath\<close> (\<open>Clean\<close>, \<open>Join\<close>, \<open>Dir\<close>, \<open>Base\<close>) on
  Unix, and the calls of package \<^verbatim>\<open>os\<close> the SDK makes, over a file system without symbolic
  links or permissions: a map from cleaned paths to contents, and a set of directories. A
  reader is what remains to be read, with the error that ends it.
\<close>

subsection \<open>Paths\<close>

text \<open>
  A cleaned path: whether it is rooted, and its elements. A rooted path has no \<^verbatim>\<open>..\<close>, a
  relative one only at the front.
\<close>

type_synonym fpath = "bool \<times> string list"

definition clean_step :: "bool \<Rightarrow> string \<Rightarrow> string list \<Rightarrow> string list" where
  "clean_step rooted c stack =
     (if c = [] \<or> c = ''.'' then stack
      else if c = ''..'' then
        (case stack of
           [] \<Rightarrow> if rooted then [] else [''..'']
         | t # ts \<Rightarrow> if t = ''..'' then ''..'' # stack else ts)
      else c # stack)"

definition parse_path :: "string \<Rightarrow> fpath" where
  "parse_path p =
     (let rooted = (case p of [] \<Rightarrow> False | c # cs \<Rightarrow> c = CHR ''/'')
      in (rooted, rev (fold (clean_step rooted) (split_on (CHR ''/'') p) [])))"

definition print_path :: "fpath \<Rightarrow> string" where
  "print_path fp = (case fp of
     (True, cs) \<Rightarrow> ''/'' @ join ''/'' cs
   | (False, []) \<Rightarrow> ''.''
   | (False, cs) \<Rightarrow> join ''/'' cs)"

definition path_clean :: "string \<Rightarrow> string" where
  "path_clean p = print_path (parse_path p)"

definition path_join :: "string list \<Rightarrow> string" where
  "path_join ps = (let qs = filter (\<lambda>p. p \<noteq> []) ps in if qs = [] then [] else path_clean (join ''/'' qs))"

text \<open>\<^verbatim>\<open>filepath.Dir\<close>: everything up to the last slash, cleaned.\<close>

definition path_dir :: "string \<Rightarrow> string" where
  "path_dir p = path_clean (rev (dropWhile (\<lambda>c. c \<noteq> CHR ''/'') (rev p)))"

definition path_base :: "string \<Rightarrow> string" where
  "path_base p =
     (if p = [] then ''.''
      else let q = dropWhile (\<lambda>c. c = CHR ''/'') (rev p)
        in if q = [] then ''/'' else rev (takeWhile (\<lambda>c. c \<noteq> CHR ''/'') q))"

text \<open>The paths \<open>parse_path\<close> yields.\<close>

definition path_elem :: "string \<Rightarrow> bool" where
  "path_elem c \<longleftrightarrow> c \<noteq> [] \<and> c \<noteq> ''.'' \<and> CHR ''/'' \<notin> set c"

fun wf_fpath :: "fpath \<Rightarrow> bool" where
  "wf_fpath (True, cs) \<longleftrightarrow> list_all (\<lambda>c. path_elem c \<and> c \<noteq> ''..'') cs"
| "wf_fpath (False, cs) \<longleftrightarrow> list_all path_elem cs \<and> ''..'' \<notin> set (dropWhile (\<lambda>c. c = ''..'') cs)"

lemma dots_then_names:
  "''..'' \<notin> set (dropWhile (\<lambda>c. c = ''..'') cs) \<Longrightarrow> c \<noteq> ''..'' \<Longrightarrow> ''..'' \<notin> set (dropWhile (\<lambda>c. c = ''..'') (cs @ [c]))"
  by (induction cs) auto

lemma dots_butlast:
  "''..'' \<notin> set (dropWhile (\<lambda>c. c = ''..'') (cs @ [c])) \<Longrightarrow> ''..'' \<notin> set (dropWhile (\<lambda>c. c = ''..'') cs)"
  by (induction cs) (auto split: if_splits)

lemma dots_only:
  "''..'' \<notin> set (dropWhile (\<lambda>c. c = ''..'') (cs @ [''..''])) \<Longrightarrow> ''..'' \<notin> set (dropWhile (\<lambda>c. c = ''..'') ((cs @ [''..'']) @ [''..'']))"
  by (induction cs) (auto split: if_splits)

lemma clean_step_wf:
  assumes "wf_fpath (rooted, rev stack)" and "CHR ''/'' \<notin> set c"
  shows "wf_fpath (rooted, rev (clean_step rooted c stack))"
proof (cases "c = [] \<or> c = ''.'' \<or> c = ''..''")
  case False
  then have "path_elem c" and n: "c \<noteq> ''..''"
    using assms(2) by (auto simp: path_elem_def)
  then show ?thesis
    using assms(1) False dots_then_names [OF _ n, of "rev stack"]
    by (cases rooted) (auto simp: clean_step_def)
next
  case True
  have dots: "path_elem ''..''"
    by (simp add: path_elem_def)
  show ?thesis
  proof (cases stack)
    case Nil
    then show ?thesis
      using assms True dots by (cases rooted) (auto simp: clean_step_def)
  next
    case (Cons t ts)
    then show ?thesis
      using assms True dots dots_butlast [of "rev ts" t] dots_only [of "rev ts"]
      by (cases rooted; cases "t = ''..''") (auto simp: clean_step_def)
  qed
qed

lemma parse_path_wf: "wf_fpath (parse_path p)"
proof -
  have "wf_fpath (rooted, rev (fold (clean_step rooted) cs stack))"
    if "wf_fpath (rooted, rev stack)" "\<forall>c \<in> set cs. CHR ''/'' \<notin> set c" for rooted stack cs
    using that by (induction cs arbitrary: stack) (auto intro: clean_step_wf)
  moreover have "\<forall>c \<in> set (split_on (CHR ''/'') p). CHR ''/'' \<notin> set c"
    using split_on_sep_free by blast
  moreover have "wf_fpath (r, rev [])" for r
    by (cases r) simp_all
  ultimately show ?thesis
    unfolding parse_path_def Let_def by blast
qed

text \<open>Printing a well-formed path and parsing it gives it back.\<close>

lemma fold_clean_names:
  assumes "list_all (\<lambda>c. path_elem c \<and> c \<noteq> ''..'') cs"
  shows "fold (clean_step r) cs stack = rev cs @ stack"
  using assms by (induction cs arbitrary: stack) (auto simp: clean_step_def path_elem_def)

lemma fold_clean_relative:
  assumes "list_all path_elem cs" and "''..'' \<notin> set (dropWhile (\<lambda>c. c = ''..'') cs)"
    and "list_all (\<lambda>c. c = ''..'') stack"
  shows "fold (clean_step False) cs stack = rev cs @ stack"
  using assms
proof (induction cs arbitrary: stack)
  case Nil
  then show ?case by simp
next
  case (Cons c cs)
  show ?case
  proof (cases "c = ''..''")
    case True
    then have "clean_step False c stack = c # stack"
      using Cons.prems(3) by (cases stack) (auto simp: clean_step_def)
    then show ?thesis
      using Cons True by auto
  next
    case False
    then have "list_all (\<lambda>c. path_elem c \<and> c \<noteq> ''..'') (c # cs)"
      using Cons.prems by (auto simp: list_all_iff)
    then show ?thesis
      using fold_clean_names by blast
  qed
qed

lemma split_join_elems:
  "list_all path_elem cs \<Longrightarrow> cs \<noteq> [] \<Longrightarrow> split_on (CHR ''/'') (join ''/'' cs) = cs"
  by (rule split_on_join) (auto simp: list_all_iff path_elem_def)

lemma parse_print_path:
  assumes "wf_fpath fp"
  shows "parse_path (print_path fp) = fp"
proof (cases fp)
  case (Pair r cs)
  show ?thesis
  proof (cases r)
    case True
    with assms Pair have cs: "list_all (\<lambda>c. path_elem c \<and> c \<noteq> ''..'') cs"
      by simp
    have "fold (clean_step True) (split_on (CHR ''/'') (''/'' @ join ''/'' cs)) [] = rev cs"
    proof (cases "cs = []")
      case False
      have "list_all path_elem cs"
        using cs by (auto simp: list_all_iff)
      then show ?thesis
        using False cs fold_clean_names [OF cs, of True "[]"] split_join_elems [of cs]
        by (simp add: clean_step_def)
    qed (simp add: clean_step_def)
    then show ?thesis
      using Pair True by (simp add: parse_path_def print_path_def)
  next
    case False
    with assms Pair have cs: "list_all path_elem cs" "''..'' \<notin> set (dropWhile (\<lambda>c. c = ''..'') cs)"
      by simp_all
    show ?thesis
    proof (cases cs)
      case Nil
      then show ?thesis
        using Pair False by (simp add: parse_path_def print_path_def clean_step_def)
    next
      case (Cons c cs')
      then obtain x xs where x: "join ''/'' cs = x # xs" "x \<noteq> CHR ''/''"
        using cs(1) by (cases c; cases cs') (auto simp: path_elem_def join_Cons)
      then show ?thesis
        using Pair False Cons cs split_join_elems [of cs] fold_clean_relative [of cs "[]"]
        by (simp add: parse_path_def print_path_def)
    qed
  qed
qed

lemma parse_path_clean [simp]: "parse_path (path_clean p) = parse_path p"
  by (simp add: path_clean_def parse_print_path parse_path_wf)

lemma path_clean_idem [simp]: "path_clean (path_clean p) = path_clean p"
  by (simp add: path_clean_def parse_print_path parse_path_wf)

subsection \<open>Files\<close>

text \<open>A reader: the bytes it yields and the error that ends it, if any.\<close>

record reader =
  rd_bytes :: string
  rd_error :: "go_error option"

record file_system =
  fs_files :: "(fpath \<times> string) list"
  fs_dirs :: "fpath list"

definition is_dir :: "file_system \<Rightarrow> fpath \<Rightarrow> bool" where
  "is_dir fs p \<longleftrightarrow> snd p = [] \<or> p \<in> set (fs_dirs fs)"

definition parent :: "fpath \<Rightarrow> fpath" where
  "parent p = (fst p, butlast (snd p))"

definition ancestors :: "fpath \<Rightarrow> fpath list" where
  "ancestors p = map (\<lambda>n. (fst p, take (Suc n) (snd p))) [0..<length (snd p)]"

definition os_ReadFile :: "string \<Rightarrow> file_system \<Rightarrow> string res" where
  "os_ReadFile p fs = (case map_of (fs_files fs) (parse_path p) of
     Some d \<Rightarrow> Ok d
   | None \<Rightarrow> Err (External (if is_dir fs (parse_path p) then ''is a directory'' else ''no such file'')))"

definition os_WriteFile :: "string \<Rightarrow> string \<Rightarrow> file_system \<Rightarrow> unit res \<times> file_system" where
  "os_WriteFile p d fs =
     (let fp = parse_path p in
      if is_dir fs fp then (Err (External ''is a directory''), fs)
      else if \<not> is_dir fs (parent fp) then (Err (External ''no such directory''), fs)
      else (Ok (), fs \<lparr>fs_files := AList.update fp d (fs_files fs)\<rparr>))"

definition os_MkdirAll :: "string \<Rightarrow> file_system \<Rightarrow> unit res \<times> file_system" where
  "os_MkdirAll p fs =
     (let as = ancestors (parse_path p) in
      if list_ex (\<lambda>a. map_of (fs_files fs) a \<noteq> None) as then (Err (External ''not a directory''), fs)
      else (Ok (), fs \<lparr>fs_dirs := fs_dirs fs @ filter (\<lambda>a. a \<notin> set (fs_dirs fs)) as\<rparr>))"

text \<open>
  \<^verbatim>\<open>os.Create\<close> followed by \<^verbatim>\<open>io.Copy\<close> into the file: the file is emptied first, and
  keeps what was read when the reader ends with an error.
\<close>

definition os_Create :: "string \<Rightarrow> file_system \<Rightarrow> unit res \<times> file_system" where
  "os_Create p fs = os_WriteFile p [] fs"

definition io_Copy :: "string \<Rightarrow> reader \<Rightarrow> file_system \<Rightarrow> unit res \<times> file_system" where
  "io_Copy p r fs = (case os_WriteFile p (rd_bytes r) fs of (res, fs') \<Rightarrow>
     (res_bind res (\<lambda>_. case rd_error r of None \<Rightarrow> Ok () | Some e \<Rightarrow> Err e), fs'))"

lemma io_Copy_Ok:
  assumes "fst (io_Copy p r fs) = Ok ()"
  shows "fst (os_WriteFile p (rd_bytes r) fs) = Ok ()" and "rd_error r = None"
    and "snd (io_Copy p r fs) = snd (os_WriteFile p (rd_bytes r) fs)"
  using assms
  by (auto simp: io_Copy_def res_bind_eq_Ok split: prod.splits option.splits)

text \<open>No path is both a file and a directory, files and directories lie in directories.\<close>

definition wf_fs :: "file_system \<Rightarrow> bool" where
  "wf_fs fs \<longleftrightarrow> wf_map (fs_files fs) \<and>
     (\<forall>p \<in> fst ` set (fs_files fs). \<not> is_dir fs p \<and> is_dir fs (parent p)) \<and>
     (\<forall>p \<in> set (fs_dirs fs). is_dir fs (parent p))"

lemma ancestors_iff: "a \<in> set (ancestors p) \<longleftrightarrow> (\<exists>n < length (snd p). a = (fst p, take (Suc n) (snd p)))"
  by (auto simp: ancestors_def)

lemma ancestors_self: "snd p \<noteq> [] \<Longrightarrow> p \<in> set (ancestors p)"
  unfolding ancestors_iff by (rule exI [of _ "length (snd p) - 1"]) (cases p; simp)

lemma parent_ancestor:
  assumes "a \<in> set (ancestors p)"
  shows "snd (parent a) = [] \<or> parent a \<in> set (ancestors p)"
proof -
  obtain n where n: "n < length (snd p)" "a = (fst p, take (Suc n) (snd p))"
    using assms by (auto simp: ancestors_iff)
  then have "parent a = (fst p, take n (snd p))"
    by (simp add: parent_def butlast_take)
  then show ?thesis
    using n(1) by (cases n) (auto simp: ancestors_iff intro: exI [of _ "n - 1"])
qed

lemma os_WriteFile_wf:
  assumes "wf_fs fs"
  shows "wf_fs (snd (os_WriteFile p d fs))"
proof (cases "fst (os_WriteFile p d fs) = Ok ()")
  case True
  let ?fp = "parse_path p" and ?fs = "snd (os_WriteFile p d fs)"
  have ok: "\<not> is_dir fs ?fp" "is_dir fs (parent ?fp)"
    using True by (auto simp: os_WriteFile_def Let_def split: if_splits)
  then have fs: "fs_dirs ?fs = fs_dirs fs" "fs_files ?fs = AList.update ?fp d (fs_files fs)"
    by (auto simp: os_WriteFile_def Let_def)
  have dir: "is_dir ?fs = is_dir fs"
    by (simp add: is_dir_def fs fun_eq_iff)
  show ?thesis
    using assms ok unfolding wf_fs_def dir fs dom_update by auto
next
  case False
  then show ?thesis
    using assms by (auto simp: os_WriteFile_def Let_def split: if_splits)
qed

lemma os_MkdirAll_wf:
  assumes "wf_fs fs"
  shows "wf_fs (snd (os_MkdirAll p fs))"
proof (cases "list_ex (\<lambda>a. map_of (fs_files fs) a \<noteq> None) (ancestors (parse_path p))")
  case True
  then show ?thesis
    using assms by (simp add: os_MkdirAll_def Let_def)
next
  case False
  then have new: "a \<notin> fst ` set (fs_files fs)" if "a \<in> set (ancestors (parse_path p))" for a
    using that by (auto simp: list_ex_iff map_of_eq_None_iff)
  let ?fs = "snd (os_MkdirAll p fs)"
  have fs: "fs_files ?fs = fs_files fs" "set (fs_dirs ?fs) = set (fs_dirs fs) \<union> set (ancestors (parse_path p))"
    using False by (auto simp: os_MkdirAll_def Let_def)
  have dir: "is_dir ?fs q \<longleftrightarrow> is_dir fs q \<or> q \<in> set (ancestors (parse_path p))" for q
    unfolding is_dir_def fs(2) by auto
  have up: "is_dir ?fs (parent a)" if "a \<in> set (ancestors (parse_path p))" for a
    using parent_ancestor [OF that] unfolding dir by (auto simp: is_dir_def)
  show ?thesis
    using assms new up unfolding wf_fs_def fs dir by blast
qed

lemma os_MkdirAll_is_dir: "fst (os_MkdirAll p fs) = Ok () \<Longrightarrow> is_dir (snd (os_MkdirAll p fs)) (parse_path p)"
  using ancestors_self [of "parse_path p"]
  by (auto simp: os_MkdirAll_def Let_def is_dir_def split: if_splits)

lemma os_read_after_write:
  "fst (os_WriteFile p d fs) = Ok () \<Longrightarrow>
     os_ReadFile q (snd (os_WriteFile p d fs)) = (if parse_path q = parse_path p then Ok d else os_ReadFile q fs)"
  by (auto simp: os_WriteFile_def os_ReadFile_def Let_def gomap_simps is_dir_def split: if_splits)

lemma os_MkdirAll_read: "os_ReadFile q fs = Ok d \<Longrightarrow> os_ReadFile q (snd (os_MkdirAll p fs)) = Ok d"
  by (auto simp: os_MkdirAll_def os_ReadFile_def Let_def split: option.splits)

end
