(* ===== verification/IO_Manager.thy ===== *)
theory IO_Manager
  imports Payload_Attributes Go_Files
begin

section \<open>The IO manager\<close>

text \<open>
  \<^verbatim>\<open>payload.go\<close>: looking up stores and data sources through the chain of parents, and
  the operations that move data. Looking up is a recursion over parent addresses, which ends
  only if the chain does: \<open>None\<close> is the recursion that never returns. What the two lookups
  share is the locale \<open>scoped_lookup\<close>. A session is the tuple of interfaces its dynamic
  type implements; file stores of the \<^verbatim>\<open>filesapi\<close> package are arguments that act on an
  abstract remote state, local files are those of theory \<^verbatim>\<open>Go_Files\<close>.
\<close>

subsection \<open>Scopes\<close>

text \<open>The scope reached after n steps up, if the chain is that long.\<close>

primrec up_iter :: "('m \<Rightarrow> nat option) \<Rightarrow> (nat \<Rightarrow> 'm) \<Rightarrow> 'm \<Rightarrow> nat \<Rightarrow> 'm option" where
  "up_iter up h m 0 = Some m"
| "up_iter up h m (Suc n) = (case up m of None \<Rightarrow> None | Some a \<Rightarrow> up_iter up h (h a) n)"

lemma up_iter_last:
  "up_iter up h m (Suc n) = (case up_iter up h m n of None \<Rightarrow> None | Some m' \<Rightarrow> map_option h (up m'))"
proof (induction n arbitrary: m)
  case 0
  show ?case by (auto split: option.splits)
next
  case (Suc n)
  show ?case
  proof (cases "up m")
    case (Some a)
    then show ?thesis
      using Suc.IH [of "h a"] by simp
  qed simp
qed

text \<open>
  A lookup through scopes: the scope's own entry, else the parent's, else an error. The last
  law says the lookup returns only where the chain gives it a reason to.
\<close>

locale scoped_lookup =
  fixes own :: "'m \<Rightarrow> 'k \<Rightarrow> 'v option"
    and up :: "'m \<Rightarrow> nat option"
    and missing :: "'k \<Rightarrow> go_error"
    and get :: "(nat \<Rightarrow> 'm) \<Rightarrow> 'm \<Rightarrow> 'k \<Rightarrow> 'v res option"
  assumes get_own: "own m k = Some v \<Longrightarrow> get h m k = Some (Ok v)"
    and get_up: "own m k = None \<Longrightarrow> up m = Some a \<Longrightarrow> get h m k = get h (h a) k"
    and get_top: "own m k = None \<Longrightarrow> up m = None \<Longrightarrow> get h m k = Some (Err (missing k))"
    and get_reason: "get h m k = Some r \<Longrightarrow> \<exists>n m'. up_iter up h m n = Some m' \<and> (own m' k \<noteq> None \<or> up m' = None)"
begin

lemma get_at:
  assumes "up_iter up h m n = Some m'" and "\<forall>i < n. \<forall>mi. up_iter up h m i = Some mi \<longrightarrow> own mi k = None"
  shows "get h m k = get h m' k"
  using assms
proof (induction n arbitrary: m)
  case 0
  then show ?case by simp
next
  case (Suc n)
  then obtain a where a: "up m = Some a" "up_iter up h (h a) n = Some m'"
    by (auto split: option.splits)
  have "own m k = None"
    using Suc.prems(2) [rule_format, of 0 m] by simp
  then have "get h m k = get h (h a) k"
    by (rule get_up) (rule a(1))
  moreover have "get h (h a) k = get h m' k"
  proof (rule Suc.IH [OF a(2)], intro allI impI)
    fix i mi assume "i < n" "up_iter up h (h a) i = Some mi"
    then show "own mi k = None"
      using Suc.prems(2) [rule_format, of "Suc i" mi] a(1) by simp
  qed
  ultimately show ?case by simp
qed

text \<open>The first scope of the chain with a reason to stop.\<close>

definition stops_at :: "(nat \<Rightarrow> 'm) \<Rightarrow> 'm \<Rightarrow> 'k \<Rightarrow> nat \<Rightarrow> 'm \<Rightarrow> bool" where
  "stops_at h m k n m' \<longleftrightarrow> up_iter up h m n = Some m' \<and> (own m' k \<noteq> None \<or> up m' = None) \<and>
     (\<forall>i < n. \<forall>mi. up_iter up h m i = Some mi \<longrightarrow> own mi k = None)"

lemma up_iter_beyond: "up_iter up h m n = Some m' \<Longrightarrow> i \<le> n \<Longrightarrow> \<exists>mi. up_iter up h m i = Some mi"
proof (induction n arbitrary: m i)
  case (Suc n)
  then show ?case by (cases i) (auto split: option.splits)
qed simp

lemma up_iter_not_top: "up_iter up h m n = Some m' \<Longrightarrow> i < n \<Longrightarrow> up_iter up h m i = Some mi \<Longrightarrow> up mi \<noteq> None"
proof (induction n arbitrary: m i)
  case (Suc n)
  then show ?case by (cases i) (auto split: option.splits)
qed simp

lemma stops_exists:
  assumes "up_iter up h m n = Some m'" and "own m' k \<noteq> None \<or> up m' = None"
  shows "\<exists>n m'. stops_at h m k n m'"
proof -
  let ?P = "\<lambda>n. \<exists>m'. up_iter up h m n = Some m' \<and> (own m' k \<noteq> None \<or> up m' = None)"
  have "?P n" using assms by blast
  then have least: "?P (LEAST n. ?P n)" by (rule LeastI)
  then obtain m1 where m1: "up_iter up h m (LEAST n. ?P n) = Some m1" "own m1 k \<noteq> None \<or> up m1 = None"
    by blast
  have "own mi k = None" if "i < (LEAST n. ?P n)" "up_iter up h m i = Some mi" for i mi
    using not_less_Least [OF that(1)] that(2) by blast
  then show ?thesis
    using m1 unfolding stops_at_def by blast
qed

lemma get_stops:
  "stops_at h m k n m' \<Longrightarrow> get h m k = Some (case own m' k of Some v \<Rightarrow> Ok v | None \<Rightarrow> Err (missing k))"
  using get_at [of h m n m' k] get_own [of m' k] get_top [of m' k]
  by (auto simp: stops_at_def split: option.splits)

lemma get_Some_iff: "get h m k \<noteq> None \<longleftrightarrow> (\<exists>n m'. stops_at h m k n m')"
  using get_stops get_reason stops_exists by (metis not_None_eq option.distinct(1))

text \<open>The nearest scope that has the key answers.\<close>

lemma get_Ok_iff:
  "get h m k = Some (Ok v) \<longleftrightarrow>
     (\<exists>n m'. up_iter up h m n = Some m' \<and> own m' k = Some v \<and>
        (\<forall>i < n. \<forall>mi. up_iter up h m i = Some mi \<longrightarrow> own mi k = None))"
proof
  assume "get h m k = Some (Ok v)"
  moreover from this obtain n m' where "stops_at h m k n m'"
    using get_Some_iff by blast
  ultimately show "\<exists>n m'. up_iter up h m n = Some m' \<and> own m' k = Some v \<and>
      (\<forall>i < n. \<forall>mi. up_iter up h m i = Some mi \<longrightarrow> own mi k = None)"
    using get_stops [of h m k n m'] by (auto simp: stops_at_def split: option.splits)
next
  assume "\<exists>n m'. up_iter up h m n = Some m' \<and> own m' k = Some v \<and>
      (\<forall>i < n. \<forall>mi. up_iter up h m i = Some mi \<longrightarrow> own mi k = None)"
  then show "get h m k = Some (Ok v)"
    using get_at get_own by metis
qed

lemma get_Err_iff:
  "get h m k = Some (Err e) \<longleftrightarrow>
     e = missing k \<and> (\<exists>n m'. up_iter up h m n = Some m' \<and> up m' = None \<and> own m' k = None \<and>
        (\<forall>i < n. \<forall>mi. up_iter up h m i = Some mi \<longrightarrow> own mi k = None))"
proof
  assume "get h m k = Some (Err e)"
  moreover from this obtain n m' where "stops_at h m k n m'"
    using get_Some_iff by blast
  ultimately show "e = missing k \<and> (\<exists>n m'. up_iter up h m n = Some m' \<and> up m' = None \<and> own m' k = None \<and>
      (\<forall>i < n. \<forall>mi. up_iter up h m i = Some mi \<longrightarrow> own mi k = None))"
    using get_stops [of h m k n m'] by (auto simp: stops_at_def split: option.splits)
next
  assume "e = missing k \<and> (\<exists>n m'. up_iter up h m n = Some m' \<and> up m' = None \<and> own m' k = None \<and>
      (\<forall>i < n. \<forall>mi. up_iter up h m i = Some mi \<longrightarrow> own mi k = None))"
  then show "get h m k = Some (Err e)"
    using get_at get_top by metis
qed

lemma get_cases: "get h m k = None \<or> (\<exists>v. get h m k = Some (Ok v)) \<or> get h m k = Some (Err (missing k))"
proof (cases "get h m k")
  case (Some r)
  then obtain n m' where "stops_at h m k n m'"
    using get_Some_iff by blast
  then show ?thesis
    using get_stops by (auto split: option.splits)
qed simp

text \<open>The lookup does not return exactly when the chain never ends and no scope has the key.\<close>

lemma get_None_iff:
  "get h m k = None \<longleftrightarrow> (\<forall>n. \<exists>m'. up_iter up h m n = Some m' \<and> own m' k = None)"
proof
  assume g: "get h m k = None"
  have no: "own m' k = None \<and> up m' \<noteq> None" if "up_iter up h m n = Some m'" for n m'
    using g that stops_exists get_Some_iff by blast
  have "\<exists>m'. up_iter up h m n = Some m'" for n
  proof (induction n)
    case (Suc n)
    then obtain m' a where m': "up_iter up h m n = Some m'" "up m' = Some a"
      using no by blast
    then have "up_iter up h m (Suc n) = Some (h a)"
      using up_iter_last [of up h m n] by (simp del: up_iter.simps)
    then show ?case by blast
  qed simp
  then show "\<forall>n. \<exists>m'. up_iter up h m n = Some m' \<and> own m' k = None"
    using no by blast
next
  assume all: "\<forall>n. \<exists>m'. up_iter up h m n = Some m' \<and> own m' k = None"
  show "get h m k = None"
  proof (rule ccontr)
    assume "get h m k \<noteq> None"
    then obtain n m' where s: "stops_at h m k n m'"
      using get_Some_iff by blast
    from all obtain m1 where m1: "up_iter up h m (Suc n) = Some m1"
      by blast
    have "own m' k = None"
      using s all by (metis option.inject stops_at_def)
    moreover have "up m' \<noteq> None"
      using up_iter_not_top [OF m1, of n m'] s by (simp add: stops_at_def)
    ultimately show False
      using s by (simp add: stops_at_def)
  qed
qed

end

subsection \<open>Stores and data sources\<close>

text \<open>IO managers live at addresses; an address names the one a parent pointer points to.\<close>

type_synonym 's heap = "nat \<Rightarrow> 's IOManager"

definition SetParent :: "nat \<Rightarrow> 's IOManager \<Rightarrow> 's IOManager" where
  "SetParent iom im = im \<lparr>im_parent := Some iom\<rparr>"

partial_function (option) GetStore :: "'s heap \<Rightarrow> 's IOManager \<Rightarrow> string \<Rightarrow> 's DataStore res option" where
  "GetStore h im name =
     (case find (\<lambda>store. st_Name store = name) (im_Stores im) of
        Some store \<Rightarrow> Some (Ok store)
      | None \<Rightarrow>
          (case im_parent im of
             Some a \<Rightarrow> GetStore h (h a) name
           | None \<Rightarrow> Some (Err (Errorf ''invalid store name: %s'' [name]))))"

datatype DataSourceIoType = DataSourceInput | DataSourceOutput | DataSourceAll

record GetDsInput =
  DsIoType :: DataSourceIoType
  DsName :: string

definition sources_of :: "DataSourceIoType \<Rightarrow> 's IOManager \<Rightarrow> DataSource list" where
  "sources_of t im = (case t of
     DataSourceInput \<Rightarrow> im_Inputs im
   | DataSourceOutput \<Rightarrow> im_Outputs im
   | DataSourceAll \<Rightarrow> im_Inputs im @ im_Outputs im)"

partial_function (option) GetDataSource :: "'s heap \<Rightarrow> 's IOManager \<Rightarrow> GetDsInput \<Rightarrow> DataSource res option" where
  "GetDataSource h im input =
     (case find (\<lambda>ds. DsName input = ds_Name ds) (sources_of (DsIoType input) im) of
        Some ds \<Rightarrow> Some (Ok ds)
      | None \<Rightarrow>
          (case im_parent im of
             Some a \<Rightarrow> GetDataSource h (h a) input
           | None \<Rightarrow> Some (Err (Errorf ''data source %s not found'' [DsName input]))))"

declare GetStore.simps [code] GetDataSource.simps [code]

definition GetInputDataSource :: "'s heap \<Rightarrow> 's IOManager \<Rightarrow> string \<Rightarrow> DataSource res option" where
  "GetInputDataSource h im name = GetDataSource h im \<lparr>DsIoType = DataSourceInput, DsName = name\<rparr>"

definition GetOutputDataSource :: "'s heap \<Rightarrow> 's IOManager \<Rightarrow> string \<Rightarrow> DataSource res option" where
  "GetOutputDataSource h im name = GetDataSource h im \<lparr>DsIoType = DataSourceOutput, DsName = name\<rparr>"

definition own_store :: "'s IOManager \<Rightarrow> string \<Rightarrow> 's DataStore option" where
  "own_store im name = find (\<lambda>store. st_Name store = name) (im_Stores im)"

definition own_source :: "'s IOManager \<Rightarrow> GetDsInput \<Rightarrow> DataSource option" where
  "own_source im input = find (\<lambda>ds. DsName input = ds_Name ds) (sources_of (DsIoType input) im)"

lemma GetStore_reason:
  fixes h :: "'s heap"
  assumes "GetStore h im name = Some r"
  shows "\<exists>n im'. up_iter im_parent h im n = Some im' \<and> (own_store im' name \<noteq> None \<or> im_parent im' = None)"
proof (rule GetStore.raw_induct [OF _ assms])
  fix get and h :: "'s heap" and im :: "'s IOManager" and name r
  assume IH: "\<And>h im name r. get h im name = Some r \<Longrightarrow>
      \<exists>n im'. up_iter im_parent h im n = Some im' \<and> (own_store im' name \<noteq> None \<or> im_parent im' = None)"
    and body: "(case find (\<lambda>store. st_Name store = name) (im_Stores im) of
        None \<Rightarrow> (case im_parent im of
            None \<Rightarrow> Some (Err (Errorf ''invalid store name: %s'' [name]))
          | Some a \<Rightarrow> get h (h a) name)
      | Some x \<Rightarrow> Some (Ok x)) = Some r"
  show "\<exists>n im'. up_iter im_parent h im n = Some im' \<and> (own_store im' name \<noteq> None \<or> im_parent im' = None)"
  proof (cases "own_store im name \<noteq> None \<or> im_parent im = None")
    case True
    then show ?thesis by (intro exI [of _ 0]) auto
  next
    case False
    then obtain a where a: "own_store im name = None" "im_parent im = Some a" by auto
    with body have "get h (h a) name = Some r"
      by (simp add: own_store_def)
    from IH [OF this] obtain n im' where
      "up_iter im_parent h (h a) n = Some im'" "own_store im' name \<noteq> None \<or> im_parent im' = None"
      by blast
    then show ?thesis
      using a by (intro exI [of _ "Suc n"] exI [of _ im']) simp
  qed
qed

lemma GetDataSource_reason:
  fixes h :: "'s heap"
  assumes "GetDataSource h im input = Some r"
  shows "\<exists>n im'. up_iter im_parent h im n = Some im' \<and> (own_source im' input \<noteq> None \<or> im_parent im' = None)"
proof (rule GetDataSource.raw_induct [OF _ assms])
  fix get and h :: "'s heap" and im :: "'s IOManager" and input r
  assume IH: "\<And>h im input r. get h im input = Some r \<Longrightarrow>
      \<exists>n im'. up_iter im_parent h im n = Some im' \<and> (own_source im' input \<noteq> None \<or> im_parent im' = None)"
    and body: "(case find (\<lambda>ds. DsName input = ds_Name ds) (sources_of (DsIoType input) im) of
        None \<Rightarrow> (case im_parent im of
            None \<Rightarrow> Some (Err (Errorf ''data source %s not found'' [DsName input]))
          | Some a \<Rightarrow> get h (h a) input)
      | Some x \<Rightarrow> Some (Ok x)) = Some r"
  show "\<exists>n im'. up_iter im_parent h im n = Some im' \<and> (own_source im' input \<noteq> None \<or> im_parent im' = None)"
  proof (cases "own_source im input \<noteq> None \<or> im_parent im = None")
    case True
    then show ?thesis by (intro exI [of _ 0]) auto
  next
    case False
    then obtain a where a: "own_source im input = None" "im_parent im = Some a" by auto
    with body have "get h (h a) input = Some r"
      by (simp add: own_source_def)
    from IH [OF this] obtain n im' where
      "up_iter im_parent h (h a) n = Some im'" "own_source im' input \<noteq> None \<or> im_parent im' = None"
      by blast
    then show ?thesis
      using a by (intro exI [of _ "Suc n"] exI [of _ im']) simp
  qed
qed

interpretation store_scope: scoped_lookup own_store im_parent "\<lambda>name. Errorf ''invalid store name: %s'' [name]" GetStore
proof
  fix h :: "'s heap" and m k v a
  show "own_store m k = Some v \<Longrightarrow> GetStore h m k = Some (Ok v)"
    and "own_store m k = None \<Longrightarrow> im_parent m = Some a \<Longrightarrow> GetStore h m k = GetStore h (h a) k"
    and "own_store m k = None \<Longrightarrow> im_parent m = None \<Longrightarrow>
      GetStore h m k = Some (Err (Errorf ''invalid store name: %s'' [k]))"
    by (subst GetStore.simps; simp add: own_store_def)+
qed (rule GetStore_reason)

interpretation source_scope: scoped_lookup own_source im_parent
  "\<lambda>input. Errorf ''data source %s not found'' [DsName input]" GetDataSource
proof
  fix h :: "'s heap" and m k v a
  show "own_source m k = Some v \<Longrightarrow> GetDataSource h m k = Some (Ok v)"
    and "own_source m k = None \<Longrightarrow> im_parent m = Some a \<Longrightarrow> GetDataSource h m k = GetDataSource h (h a) k"
    and "own_source m k = None \<Longrightarrow> im_parent m = None \<Longrightarrow>
      GetDataSource h m k = Some (Err (Errorf ''data source %s not found'' [DsName k]))"
    by (subst GetDataSource.simps; simp add: own_source_def)+
qed (rule GetDataSource_reason)

text \<open>C17. A store is found in the nearest scope of the chain of parents that has it: the manager's own
  stores hide those of its parents.\<close>

theorem GetStore_nearest:
  "GetStore h im name = Some (Ok store) \<longleftrightarrow>
     (\<exists>n im'. up_iter im_parent h im n = Some im' \<and> own_store im' name = Some store \<and>
        (\<forall>i < n. \<forall>mi. up_iter im_parent h im i = Some mi \<longrightarrow> own_store mi name = None))"
  by (rule store_scope.get_Ok_iff)

definition demo_im :: "string list \<Rightarrow> nat option \<Rightarrow> unit IOManager" where
  "demo_im names p = \<lparr>im_Attributes = [], im_Stores = map (\<lambda>n. \<lparr>st_Name = n, st_ID = None, st_StoreType = ''FS'',
     st_DsProfile = [], st_Parameters = [], st_Session = None\<rparr>) names, im_Inputs = [], im_Outputs = [], im_parent = p\<rparr>"

theorem GetStore_nearest_witness:
  "\<exists>n im'. up_iter im_parent (\<lambda>_. demo_im [''b''] None) (demo_im [''a''] (Some 0)) n = Some im' \<and>
     own_store im' ''b'' \<noteq> None"
proof -
  have "\<exists>s. GetStore (\<lambda>_. demo_im [''b''] None) (demo_im [''a''] (Some 0)) ''b'' = Some (Ok s)"
    by (subst GetStore.simps, subst GetStore.simps) (simp add: demo_im_def)
  then show ?thesis
    using GetStore_nearest [of "\<lambda>_. demo_im [''b''] None" "demo_im [''a''] (Some 0)" "''b''"] by fastforce
qed

text \<open>C18. Looking up a data source fails to return exactly when the chain of parents never ends and no
  scope on it has the data source: a manager that is its own parent does not report an unknown
  name, it recurses for ever.\<close>

theorem GetDataSource_diverges:
  "GetDataSource h im input = None \<longleftrightarrow>
     (\<forall>n. \<exists>im'. up_iter im_parent h im n = Some im' \<and> own_source im' input = None)"
  by (rule source_scope.get_None_iff)

text \<open>Setting a manager as its own parent makes every lookup of a store it does not have run for
  ever.\<close>

theorem SetParent_self_diverges:
  assumes "h a = SetParent a im" and "own_store im name = None"
  shows "GetStore h (h a) name = None"
proof -
  have "own_store (h a) name = None" and p: "im_parent (h a) = Some a"
    using assms by (simp_all add: SetParent_def own_store_def)
  then have "up_iter im_parent h (h a) n = Some (h a)" for n
    by (induction n) simp_all
  then show ?thesis
    using \<open>own_store (h a) name = None\<close> unfolding store_scope.get_None_iff by blast
qed

theorem SetParent_self_diverges_witness:
  "GetStore (\<lambda>_. SetParent 0 (demo_im [''a''] None)) (SetParent 0 (demo_im [''a''] None)) ''b'' = None"
  using SetParent_self_diverges [of "\<lambda>_. SetParent 0 (demo_im [''a''] None)" 0 "demo_im [''a''] None" "''b''"]
  by (simp add: own_store_def demo_im_def)

end
