(* ===== verification/Store_Sessions.thy ===== *)
theory Store_Sessions
  imports IO_Manager
begin

section \<open>Operations with effects, sessions and store types\<close>

text \<open>
  Operations that act on the world (the local file system and an abstract remote state) and
  may not return, the interfaces a session can implement, and \<^verbatim>\<open>file_datastore.go\<close> and the
  registry of \<^verbatim>\<open>datastore.go\<close>. The file stores of the \<^verbatim>\<open>filesapi\<close> package are records
  of functions; \<open>store_laws\<close> and \<open>walks_listing\<close> are the documented behaviour the
  theorems rely on.
\<close>

subsection \<open>Effects\<close>

record 'w world =
  disk :: file_system
  remote :: 'w

text \<open>\<open>None\<close>: the call does not return.\<close>

type_synonym ('w, 'a) io = "'w world \<Rightarrow> ('a res \<times> 'w world) option"

definition io_return :: "'a \<Rightarrow> ('w, 'a) io" where
  "io_return x w = Some (Ok x, w)"

definition io_err :: "go_error \<Rightarrow> ('w, 'a) io" where
  "io_err e w = Some (Err e, w)"

definition io_lift :: "'a res option \<Rightarrow> ('w, 'a) io" where
  "io_lift r w = map_option (\<lambda>x. (x, w)) r"

definition io_bind :: "('w, 'a) io \<Rightarrow> ('a \<Rightarrow> ('w, 'b) io) \<Rightarrow> ('w, 'b) io" where
  "io_bind m f w = (case m w of
     None \<Rightarrow> None
   | Some (r, w') \<Rightarrow> (case r of
       Ok x \<Rightarrow> f x w'
     | Err e \<Rightarrow> Some (Err e, w')
     | Panic \<Rightarrow> Some (Panic, w')
     | Exit \<Rightarrow> Some (Exit, w')))"

text \<open>The error of a call as a value: \<^verbatim>\<open>if err != nil\<close>.\<close>

definition io_catch :: "('w, 'a) io \<Rightarrow> ('w, go_error + 'a) io" where
  "io_catch m w = (case m w of
     None \<Rightarrow> None
   | Some (r, w') \<Rightarrow> Some (case r of
       Ok x \<Rightarrow> Ok (Inr x)
     | Err e \<Rightarrow> Ok (Inl e)
     | Panic \<Rightarrow> Panic
     | Exit \<Rightarrow> Exit, w'))"

text \<open>A call of package \<^verbatim>\<open>os\<close>.\<close>

definition io_os :: "(file_system \<Rightarrow> 'a res \<times> file_system) \<Rightarrow> ('w, 'a) io" where
  "io_os f w = (case f (disk w) of (r, fs) \<Rightarrow> Some (r, w \<lparr>disk := fs\<rparr>))"

lemmas io_defs = io_return_def io_err_def io_lift_def io_bind_def io_catch_def io_os_def

text \<open>Visiting files in order until one visit fails.\<close>

fun run_each :: "('f \<Rightarrow> ('w, unit) io) \<Rightarrow> 'f list \<Rightarrow> ('w, unit) io" where
  "run_each visit [] = io_return ()"
| "run_each visit (f # fs) = io_bind (visit f) (\<lambda>_. run_each visit fs)"

subsection \<open>The interfaces of a session\<close>

record walk_file =
  wk_path :: string
  wk_name :: string
  wk_isdir :: bool

text \<open>\<^verbatim>\<open>filesapi.FileStore\<close>, as far as the SDK calls it.\<close>

record 'w file_store =
  GetObjectInfo :: "string \<Rightarrow> ('w, unit) io"
  GetObject :: "string \<Rightarrow> ('w, reader) io"
  PutObject :: "reader \<Rightarrow> string \<Rightarrow> ('w, unit) io"
  Walk :: "string \<Rightarrow> (walk_file \<Rightarrow> ('w, unit) io) \<Rightarrow> ('w, unit) io"

record 'w file_data_store =
  fd_GetAbsolutePath :: "string \<Rightarrow> string"
  fd_GetFilestore :: "'w file_store"

text \<open>
  The value of \<^verbatim>\<open>DataStore.Session\<close>, by what the type assertions
  \<^verbatim>\<open>.(StoreReader)\<close>, \<^verbatim>\<open>.(StoreWriter)\<close> and \<^verbatim>\<open>.(FileDataStoreInterface)\<close> give.
\<close>

record 'w session =
  as_StoreReader :: "(string \<Rightarrow> string \<Rightarrow> ('w, reader) io) option"
  as_StoreWriter :: "(reader \<Rightarrow> string \<Rightarrow> string \<Rightarrow> ('w, int) io) option"
  as_FileDataStore :: "'w file_data_store option"

text \<open>What is put is what is got, and other paths and the disk are left alone.\<close>

definition store_laws :: "'w file_store \<Rightarrow> bool" where
  "store_laws fs \<longleftrightarrow> (\<forall>r p w w'. PutObject fs r p w = Some (Ok (), w') \<longrightarrow> rd_error r = None \<longrightarrow>
     disk w' = disk w \<and> GetObject fs p w' = Some (Ok \<lparr>rd_bytes = rd_bytes r, rd_error = None\<rparr>, w'))"

text \<open>An object that can be read can still be read, and is the same, when another one has been put.\<close>

definition store_frame :: "'w file_store \<Rightarrow> bool" where
  "store_frame fs \<longleftrightarrow> (\<forall>r p q x w w' w1. PutObject fs r p w = Some (Ok (), w') \<longrightarrow> q \<noteq> p \<longrightarrow> GetObject fs q w = Some (Ok x, w1) \<longrightarrow>
     (\<exists>w2. GetObject fs q w' = Some (Ok x, w2)))"

text \<open>A walk visits the listing of the path in order and stops at the first error.\<close>

definition walks_listing :: "'w file_store \<Rightarrow> (string \<Rightarrow> 'w world \<Rightarrow> walk_file list) \<Rightarrow> bool" where
  "walks_listing fs list \<longleftrightarrow> (\<forall>p visit w. Walk fs p visit w = run_each visit (list p w) w)"

subsection \<open>FileDataStore\<close>

record 'w FileDataStore =
  fds_fs :: "'w file_store"
  fds_root :: string

definition FDS_GetAbsolutePath :: "'w FileDataStore \<Rightarrow> string \<Rightarrow> string" where
  "FDS_GetAbsolutePath fds path = fds_root fds @ ''/'' @ path"

definition FDS_Get :: "'w FileDataStore \<Rightarrow> string \<Rightarrow> string \<Rightarrow> ('w, reader) io" where
  "FDS_Get fds path datapath = GetObject (fds_fs fds) (fds_root fds @ ''/'' @ path)"

definition FDS_Put :: "'w FileDataStore \<Rightarrow> reader \<Rightarrow> string \<Rightarrow> string \<Rightarrow> ('w, int) io" where
  "FDS_Put fds reader path destDataPath =
     io_bind (PutObject (fds_fs fds) reader (fds_root fds @ ''/'' @ path)) (\<lambda>_. io_return (-1))"

definition fds_session :: "'w FileDataStore \<Rightarrow> 'w session" where
  "fds_session fds = \<lparr>as_StoreReader = Some (FDS_Get fds), as_StoreWriter = Some (FDS_Put fds),
     as_FileDataStore = Some \<lparr>fd_GetAbsolutePath = FDS_GetAbsolutePath fds, fd_GetFilestore = fds_fs fds\<rparr>\<rparr>"

text \<open>
  \<^verbatim>\<open>Connect\<close>: \<^verbatim>\<open>filestore.NewFileStore\<close> is an argument, applied to the S3
  configuration of the store's profile.
\<close>

definition FSS3 :: string where "FSS3 = ''S3''"
definition FSB :: string where "FSB = ''FS''"

definition FDS_Connect ::
    "(string \<Rightarrow> 'w file_store res) \<Rightarrow> 'w session DataStore \<Rightarrow> 'w session option res" where
  "FDS_Connect newS3 ds =
     (if st_StoreType ds = FSS3 then
        res_bind (newS3 (st_DsProfile ds)) (\<lambda>fs.
          case map_of (st_Parameters ds) ''root'' of
            Some (VString rootstr) \<Rightarrow> Ok (Some (fds_session \<lparr>fds_fs = fs, fds_root = rootstr\<rparr>))
          | Some _ \<Rightarrow> Err (Errorf ''invalid s3 root parameter.  parameter must be a string'' [])
          | None \<Rightarrow> Err (Errorf ''missing s3 root parameter.  cannot create the store'' []))
      else if st_StoreType ds = FSB then Ok None
      else Err (Errorf ''unsupported filestore connection'' []))"

subsection \<open>The registry of store types\<close>

text \<open>
  The registry maps a store type to a Go type. A new instance of a type either implements
  \<^verbatim>\<open>ConnectionDataStore\<close>, and is its \<^verbatim>\<open>Connect\<close> method here, or does not.
\<close>

type_synonym 'w connector = "('w session DataStore \<Rightarrow> 'w session option res) option"

type_synonym 'w registry = "'w connector gomap"

definition registry_Register :: "string \<Rightarrow> 'a \<Rightarrow> 'a gomap \<Rightarrow> 'a gomap" where
  "registry_Register storeType storeInstance registry = AList.update storeType storeInstance registry"

definition registry_New :: "'a gomap \<Rightarrow> string \<Rightarrow> 'a res" where
  "registry_New registry storeType = (case map_of registry storeType of
     Some t \<Rightarrow> Ok t
   | None \<Rightarrow> Err (Errorf ''Unregistered store type: %s'' [storeType]))"

definition registerStoreTypes :: "(string \<Rightarrow> 'w file_store res) \<Rightarrow> 'w registry \<Rightarrow> 'w registry" where
  "registerStoreTypes newS3 registry =
     registry_Register FSB (Some (FDS_Connect newS3)) (registry_Register FSS3 (Some (FDS_Connect newS3)) registry)"

text \<open>
  What a client of a registry relies on: an entry registered last is the one found, others
  stay, and a name is found exactly when it was registered.
\<close>

locale keyed_registry =
  fixes register :: "string \<Rightarrow> 'a \<Rightarrow> 'r \<Rightarrow> 'r"
    and new :: "'r \<Rightarrow> string \<Rightarrow> 'a option"
  assumes new_register: "new (register k v r) k' = (if k' = k then Some v else new r k')"
begin

definition register_all :: "(string \<times> 'a) list \<Rightarrow> 'r \<Rightarrow> 'r" where
  "register_all es r = fold (\<lambda>(k, v). register k v) es r"

lemma new_register_all: "new (register_all es r) k = (case map_of (rev es) k of Some v \<Rightarrow> Some v | None \<Rightarrow> new r k)"
  unfolding register_all_def
proof (induction es arbitrary: r)
  case Nil
  then show ?case by simp
next
  case (Cons e es)
  then show ?case
    by (cases e) (simp add: new_register map_add_def split: option.splits)
qed

lemma register_commute: "k \<noteq> k' \<Longrightarrow> new (register k v (register k' v' r)) = new (register k' v' (register k v r))"
  by (simp add: fun_eq_iff new_register)

lemma register_again: "new (register k v (register k v' r)) = new (register k v r)"
  by (simp add: fun_eq_iff new_register)

end

definition registry_find :: "'a gomap \<Rightarrow> string \<Rightarrow> 'a option" where
  "registry_find registry k = (case registry_New registry k of Ok t \<Rightarrow> Some t | _ \<Rightarrow> None)"

interpretation store_registry: keyed_registry registry_Register registry_find
  by unfold_locales (simp add: registry_find_def registry_New_def registry_Register_def gomap_simps)

lemma registry_find_Nil [simp]: "registry_find [] k = None"
  by (simp add: registry_find_def registry_New_def)

text \<open>Registering a list of entries, as the interpretation reads it.\<close>

definition register_list :: "(string \<times> 'a) list \<Rightarrow> 'a gomap \<Rightarrow> 'a gomap" where
  "register_list es r = fold (\<lambda>(k, v). registry_Register k v) es r"

text \<open>The registry answers with the instance registered last for a type, after any sequence of
  registrations, and with an error naming the type when there was none.\<close>

theorem registry_lookup:
  "registry_New (register_list es []) k =
     (case map_of (rev es) k of Some v \<Rightarrow> Ok v | None \<Rightarrow> Err (Errorf ''Unregistered store type: %s'' [k]))"
proof -
  have "registry_find (register_list es []) k = (case map_of (rev es) k of Some v \<Rightarrow> Some v | None \<Rightarrow> None)"
  proof -
    have "registry_find (register_list es []) k = (case map_of (rev es) k of Some v \<Rightarrow> Some v | None \<Rightarrow> registry_find [] k)"
      unfolding register_list_def using store_registry.new_register_all [of es "[]" k]
      by (simp only: store_registry.register_all_def)
    then show ?thesis
      by (simp split: option.splits)
  qed
  then show ?thesis
    by (auto simp: registry_find_def registry_New_def split: option.splits)
qed

subsection \<open>Connecting stores\<close>

text \<open>
  \<^verbatim>\<open>connectStores\<close>: every store is connected through a new instance of its type; the loop
  stops at the first failure.
\<close>

fun connectStores :: "'w registry \<Rightarrow> 'w session DataStore list \<Rightarrow> 'w session DataStore list res" where
  "connectStores registry [] = Ok []"
| "connectStores registry (ds # stores) =
     res_bind (registry_New registry (st_StoreType ds)) (\<lambda>newInstance.
     res_bind (case newInstance of
         Some connect \<Rightarrow> res_bind (connect ds) (\<lambda>conn. Ok (ds \<lparr>st_Session := conn\<rparr>))
       | None \<Rightarrow> Ok ds) (\<lambda>ds'.
     res_bind (connectStores registry stores) (\<lambda>stores'. Ok (ds' # stores'))))"

lemma registered_types:
  "registry_New (registerStoreTypes newS3 []) k =
     (if k = FSB \<or> k = FSS3 then Ok (Some (FDS_Connect newS3))
      else Err (Errorf ''Unregistered store type: %s'' [k]))"
  by (simp add: registerStoreTypes_def registry_New_def registry_Register_def FSB_def FSS3_def)

lemma FDS_Connect_Ok:
  assumes "FDS_Connect newS3 ds = Ok conn"
  shows "(st_StoreType ds = FSB \<and> conn = None) \<or>
      (st_StoreType ds = FSS3 \<and> (\<exists>fs root. newS3 (st_DsProfile ds) = Ok fs \<and>
         map_of (st_Parameters ds) ''root'' = Some (VString root) \<and>
         conn = Some (fds_session \<lparr>fds_fs = fs, fds_root = root\<rparr>)))"
proof (cases "st_StoreType ds = FSS3")
  case True
  with assms obtain fs where "newS3 (st_DsProfile ds) = Ok fs"
    by (auto simp: FDS_Connect_def res_bind_eq_Ok)
  with True assms show ?thesis
    by (auto simp: FDS_Connect_def split: option.splits val.splits)
next
  case False
  with assms show ?thesis
    by (auto simp: FDS_Connect_def split: if_splits)
qed

text \<open>A store with the session its type calls for.\<close>

definition connected_store :: "(string \<Rightarrow> 'w file_store res) \<Rightarrow> 'w session DataStore \<Rightarrow> bool" where
  "connected_store newS3 ds \<longleftrightarrow>
     (st_StoreType ds = FSB \<and> st_Session ds = None) \<or>
     (st_StoreType ds = FSS3 \<and> (\<exists>fs root. newS3 (st_DsProfile ds) = Ok fs \<and>
        map_of (st_Parameters ds) ''root'' = Some (VString root) \<and>
        st_Session ds = Some (fds_session \<lparr>fds_fs = fs, fds_root = root\<rparr>)))"

lemma connectStores_step:
  "connectStores (registerStoreTypes newS3 []) (ds # stores) = Ok stores' \<longleftrightarrow>
     (\<exists>conn rest. FDS_Connect newS3 ds = Ok conn \<and> (st_StoreType ds = FSB \<or> st_StoreType ds = FSS3) \<and>
        connectStores (registerStoreTypes newS3 []) stores = Ok rest \<and> stores' = ds \<lparr>st_Session := conn\<rparr> # rest)"
  by (auto simp: registered_types res_bind_eq_Ok split: if_splits)

lemma connectStores_connected:
  "connectStores (registerStoreTypes newS3 []) stores = Ok stores' \<Longrightarrow> list_all (connected_store newS3) stores'"
proof (induction stores arbitrary: stores')
  case Nil
  then show ?case by simp
next
  case (Cons ds stores)
  then obtain conn rest where "FDS_Connect newS3 ds = Ok conn"
    "connectStores (registerStoreTypes newS3 []) stores = Ok rest" "stores' = ds \<lparr>st_Session := conn\<rparr> # rest"
    unfolding connectStores_step by blast
  then show ?case
    using Cons.IH [of rest] FDS_Connect_Ok [of newS3 ds conn] by (auto simp: connected_store_def)
qed

text \<open>C22. Connecting the stores of a payload with the store types the SDK registers: on success every
  store is an S3 store with a text root or a mounted file system, an S3 store has a session that
  reads, writes and is a file store under its root, and a mounted file system has no session, so
  nothing can be read from it or written to it; names, types, profiles and parameters are kept.\<close>

theorem connectStores_sessions:
  assumes "connectStores (registerStoreTypes newS3 []) stores = Ok stores'"
  shows "list_all2 (\<lambda>ds ds'.
      (st_StoreType ds = FSB \<and> ds' = ds \<lparr>st_Session := None\<rparr>) \<or>
      (st_StoreType ds = FSS3 \<and> (\<exists>fs root. newS3 (st_DsProfile ds) = Ok fs \<and>
         map_of (st_Parameters ds) ''root'' = Some (VString root) \<and>
         ds' = ds \<lparr>st_Session := Some (fds_session \<lparr>fds_fs = fs, fds_root = root\<rparr>)\<rparr>))) stores stores'"
  using assms
proof (induction stores arbitrary: stores')
  case Nil
  then show ?case by simp
next
  case (Cons ds stores)
  then obtain conn rest where step: "st_StoreType ds = FSB \<or> st_StoreType ds = FSS3"
    "FDS_Connect newS3 ds = Ok conn" "connectStores (registerStoreTypes newS3 []) stores = Ok rest"
    "stores' = ds \<lparr>st_Session := conn\<rparr> # rest"
    unfolding connectStores_step by blast
  then show ?case
    using Cons.IH [OF step(3)] FDS_Connect_Ok [OF step(2)] by auto
qed

text \<open>The first store that cannot be connected stops the initialisation with its error: an
  unregistered type, a profile that gives no S3 store, or a root parameter that is missing or
  not a text.\<close>

theorem connectStores_first_failure:
  assumes "connectStores registry pre = Ok pre'" and "registry_New registry (st_StoreType ds) = Err e \<or>
    (\<exists>connect. registry_New registry (st_StoreType ds) = Ok (Some connect) \<and> connect ds = Err e)"
  shows "connectStores registry (pre @ ds # stores) = Err e"
  using assms
proof (induction pre arbitrary: pre')
  case Nil
  then show ?case by auto
next
  case (Cons p pre)
  then show ?case
    by (auto simp: res_bind_eq_Ok)
qed

subsection \<open>Instances\<close>

text \<open>A file store over a remote map of paths to contents, which keeps the laws.\<close>

definition mem_store :: "(string \<times> string) list file_store" where
  "mem_store = \<lparr>
     GetObjectInfo = (\<lambda>p w. Some (case map_of (remote w) p of Some d \<Rightarrow> Ok () | None \<Rightarrow> Err (External ''NotFound''), w)),
     GetObject = (\<lambda>p w. Some (case map_of (remote w) p of
         Some d \<Rightarrow> Ok \<lparr>rd_bytes = d, rd_error = None\<rparr> | None \<Rightarrow> Err (External ''NotFound''), w)),
     PutObject = (\<lambda>r p w. case rd_error r of
         None \<Rightarrow> Some (Ok (), w \<lparr>remote := AList.update p (rd_bytes r) (remote w)\<rparr>)
       | Some e \<Rightarrow> Some (Err e, w)),
     Walk = (\<lambda>p visit w. run_each visit (map (\<lambda>(q, d). \<lparr>wk_path = q, wk_name = q, wk_isdir = False\<rparr>)
       (filter (\<lambda>(q, d). strip_prefix p q \<noteq> None) (remote w))) w)\<rparr>"

lemma mem_store_laws: "store_laws mem_store"
  by (auto simp: store_laws_def mem_store_def gomap_simps split: option.splits)

lemma mem_store_frame: "store_frame mem_store"
  by (auto simp: store_frame_def mem_store_def gomap_simps split: option.splits)

lemma mem_store_walks: "walks_listing mem_store (\<lambda>p w. map (\<lambda>(q, d). \<lparr>wk_path = q, wk_name = q, wk_isdir = False\<rparr>)
       (filter (\<lambda>(q, d). strip_prefix p q \<noteq> None) (remote w)))"
  by (simp add: walks_listing_def mem_store_def)

definition mem_S3 :: "string \<Rightarrow> (string \<times> string) list file_store res" where
  "mem_S3 profile = (if profile = [] then Err (External ''no credentials'') else Ok mem_store)"

definition s3_ds :: "'s DataStore" where
  "s3_ds = \<lparr>st_Name = ''lake'', st_ID = None, st_StoreType = ''S3'', st_DsProfile = ''P'',
     st_Parameters = [(''root'', VString ''/r'')], st_Session = None\<rparr>"

lemma connect_s3_ds:
  "connectStores (registerStoreTypes mem_S3 []) [s3_ds] =
     Ok [s3_ds \<lparr>st_Session := Some (fds_session \<lparr>fds_fs = mem_store, fds_root = ''/r''\<rparr>)\<rparr>]"
  by (simp add: registered_types s3_ds_def FDS_Connect_def mem_S3_def FSS3_def)

theorem connectStores_sessions_witness:
  "\<exists>fs root. mem_S3 (st_DsProfile (s3_ds :: (string \<times> string) list session DataStore)) = Ok fs \<and>
     map_of (st_Parameters (s3_ds :: (string \<times> string) list session DataStore)) ''root'' = Some (VString root)"
  using connectStores_sessions [OF connect_s3_ds] by (auto simp: s3_ds_def FSB_def)

theorem connectStores_first_failure_witness:
  "connectStores (registerStoreTypes mem_S3 []) ([s3_ds] @ (s3_ds \<lparr>st_StoreType := ''WS''\<rparr>) # [s3_ds]) =
     Err (Errorf ''Unregistered store type: %s'' [''WS''])"
  by (rule connectStores_first_failure [OF connect_s3_ds]) (simp add: registered_types FSB_def FSS3_def)

end
