(* ===== verification/IO_Operations.thy ===== *)
theory IO_Operations
  imports Store_Sessions
begin

section \<open>Reading, writing and copying\<close>

text \<open>
  The operations of \<^verbatim>\<open>payload.go\<close> that move data: \<open>GetReader\<close>, \<open>Get\<close>, \<open>Put\<close>, \<open>Copy\<close>,
  \<open>CopyFileToLocal\<close>, \<open>CopyFileToRemote\<close>, \<open>GetStoreAs\<close> and \<open>GetAbsolutePath\<close>. The lemmas
  give what each does to the world on every path; the properties are the round trip through a
  connected store, the bytes a copied file has, and what the operations ignore.
\<close>

subsection \<open>The operations\<close>

type_synonym 'w manager = "'w session IOManager"

record DataSourceOpInput =
  oi_DataSource :: "DataSource option"
  oi_DataSourceName :: string
  oi_PathKey :: string
  oi_DataPathKey :: string
  oi_TemplateVars :: "string gomap"

text \<open>\<^verbatim>\<open>m[k]\<close>: the zero value for a missing key.\<close>

definition zero_get :: "string gomap option \<Rightarrow> string \<Rightarrow> string" where
  "zero_get m k = (case map_of (nil_map m) k of Some v \<Rightarrow> v | None \<Rightarrow> [])"

definition session_as :: "('w session \<Rightarrow> 'a option) \<Rightarrow> 'w session DataStore \<Rightarrow> 'a option" where
  "session_as as_I store = Option.bind (st_Session store) as_I"

definition GetReader :: "'w session heap \<Rightarrow> 'w manager \<Rightarrow> DataSourceOpInput \<Rightarrow> ('w, reader) io" where
  "GetReader h im input =
     io_bind (io_lift (case oi_DataSource input of
         None \<Rightarrow> GetInputDataSource h im (oi_DataSourceName input)
       | Some ds \<Rightarrow> Some (Ok ds))) (\<lambda>dataSource.
     io_bind (io_lift (GetStore h im (ds_StoreName dataSource))) (\<lambda>dataStore.
     (case session_as as_StoreReader dataStore of
        Some get \<Rightarrow>
          let path = zero_get (ds_Paths dataSource) (oi_PathKey input);
              path = (if oi_TemplateVars input \<noteq> [] then templateVarSubstitution path (oi_TemplateVars input) else path);
              datapath = (if oi_DataPathKey input \<noteq> [] then zero_get (ds_DataPaths dataSource) (oi_DataPathKey input) else [])
          in get path datapath
      | None \<Rightarrow> io_err (Errorf ''data store %s session does not implement a StoreReader'' [st_Name dataStore]))))"

text \<open>\<^verbatim>\<open>buf.ReadFrom(reader)\<close>: its error is dropped.\<close>

definition Get :: "'w session heap \<Rightarrow> 'w manager \<Rightarrow> DataSourceOpInput \<Rightarrow> ('w, string) io" where
  "Get h im input = io_bind (GetReader h im input) (\<lambda>reader. io_return (rd_bytes reader))"

definition zero_DataSource :: DataSource where
  "zero_DataSource = \<lparr>ds_Name = [], ds_ID = None, ds_Paths = None, ds_DataPaths = None, ds_StoreName = []\<rparr>"

definition Put :: "'w session heap \<Rightarrow> 'w manager \<Rightarrow> reader \<Rightarrow> DataSourceOpInput \<Rightarrow> ('w, int) io" where
  "Put h im SrcReader input =
     io_bind (io_lift (case oi_DataSource input of
         None \<Rightarrow> GetOutputDataSource h im (oi_DataSourceName input)
       | Some _ \<Rightarrow> Some (Ok zero_DataSource))) (\<lambda>ds.
     io_bind (io_lift (GetStore h im (ds_StoreName ds))) (\<lambda>store.
     (case session_as as_StoreWriter store of
        Some writer \<Rightarrow>
          (case map_of (nil_map (ds_Paths ds)) (oi_PathKey input) of
             Some path \<Rightarrow>
               let path = (if oi_TemplateVars input \<noteq> [] then templateVarSubstitution path (oi_TemplateVars input) else path)
               in if oi_DataPathKey input \<noteq> [] then
                    (case map_of (nil_map (ds_DataPaths ds)) (oi_DataPathKey input) of
                       Some datapath \<Rightarrow> writer SrcReader path datapath
                     | None \<Rightarrow> io_err (Errorf ''expected data source data path %s not found'' [oi_DataPathKey input]))
                  else writer SrcReader path []
           | None \<Rightarrow> io_err (Errorf ''data source path %s not found'' [oi_PathKey input]))
      | None \<Rightarrow> io_err (Errorf ''data store %s session does not implement a storewriter'' [ds_StoreName ds]))))"

definition data_path :: "DataSource \<Rightarrow> DataSourceOpInput \<Rightarrow> string" where
  "data_path ds input = (if oi_DataPathKey input \<noteq> [] then zero_get (ds_DataPaths ds) (oi_DataPathKey input) else [])"

definition Copy :: "'w session heap \<Rightarrow> 'w manager \<Rightarrow> DataSourceOpInput \<Rightarrow> DataSourceOpInput \<Rightarrow> ('w, unit) io" where
  "Copy h im src dest =
     io_bind (io_lift (GetOutputDataSource h im (oi_DataSourceName src))) (\<lambda>srcds.
     io_bind (io_lift (GetStore h im (ds_StoreName srcds))) (\<lambda>srcstore.
     io_bind (io_lift (GetOutputDataSource h im (oi_DataSourceName dest))) (\<lambda>destds.
     io_bind (io_lift (GetStore h im (ds_StoreName destds))) (\<lambda>deststore.
     (case session_as as_StoreReader srcstore of
        Some get \<Rightarrow>
          (case session_as as_StoreWriter deststore of
             Some writer \<Rightarrow>
               io_bind (get (zero_get (ds_Paths srcds) (oi_PathKey src)) (data_path srcds src)) (\<lambda>reader.
               io_bind (writer reader (zero_get (ds_Paths destds) (oi_PathKey dest)) (data_path destds dest)) (\<lambda>_.
                 io_return ()))
           | None \<Rightarrow> io_err (Errorf ''destination data store %s session does not implement a storewriter'' [st_Name srcstore]))
      | None \<Rightarrow> io_err (Errorf ''source data store %s session does not implement a storereader'' [st_Name srcstore]))))))"

definition copyToLocal :: "'w file_store \<Rightarrow> string \<Rightarrow> string \<Rightarrow> bool \<Rightarrow> ('w, unit) io" where
  "copyToLocal fs remoteAbsolutePath localPath isdir =
     io_bind (GetObject fs remoteAbsolutePath) (\<lambda>reader.
     let localPath = (if isdir then path_dir localPath else localPath) in
     io_bind (io_catch (io_os (os_MkdirAll localPath))) (\<lambda>made.
     (case made of
        Inl e \<Rightarrow> io_err (Wrapf ''failed to create local directory %s: %s'' [localPath] e)
      | Inr _ \<Rightarrow>
          let localfile = localPath @ ''/'' @ path_base remoteAbsolutePath in
          io_bind (io_os (os_Create localfile)) (\<lambda>_. io_os (io_Copy localfile reader)))))"

record CopyToLocalInput =
  cl_DsName :: string
  cl_PathKey :: string
  cl_LocalPath :: string

definition store_root :: "'s DataStore \<Rightarrow> string" where
  "store_root store = (case map_of (st_Parameters store) ''root'' of
     Some (VString s) \<Rightarrow> trim_left s (CHR ''/'')
   | _ \<Rightarrow> [])"

definition CopyFileToLocal :: "'w session heap \<Rightarrow> 'w manager \<Rightarrow> CopyToLocalInput \<Rightarrow> ('w, unit) io" where
  "CopyFileToLocal h im input =
     io_bind (io_lift (GetDataSource h im \<lparr>DsIoType = DataSourceInput, DsName = cl_DsName input\<rparr>)) (\<lambda>ds.
     io_bind (io_lift (GetStore h im (ds_StoreName ds))) (\<lambda>store.
     (case map_of (nil_map (ds_Paths ds)) (cl_PathKey input) of
        None \<Rightarrow> io_err (Errorf ''pathkey '%s' not found'' [cl_PathKey input])
      | Some relativePath \<Rightarrow>
          (case session_as as_FileDataStore store of
             None \<Rightarrow> io_err (Errorf ''data store %s is not a filestore'' [cl_DsName input])
           | Some ifds \<Rightarrow>
               let fullpath = fd_GetAbsolutePath ifds relativePath; fstore = fd_GetFilestore ifds in
               io_bind (io_catch (GetObjectInfo fstore fullpath)) (\<lambda>info.
               (case info of
                  Inr _ \<Rightarrow> copyToLocal fstore fullpath (cl_LocalPath input) False
                | Inl _ \<Rightarrow>
                    Walk fstore fullpath (\<lambda>file.
                      let f = wk_name file; rootPrefix = store_root store @ ''/'' @ relativePath;
                          localPath = replace_first rootPrefix (cl_LocalPath input) f
                      in copyToLocal fstore f localPath True)))))))"

record CopyFileToRemoteInput =
  cr_RemoteStoreName :: string
  cr_RemotePath :: string
  cr_LocalPath :: string
  cr_RemoteDsName :: string
  cr_DsPathKey :: string
  cr_DsDataPathKey :: string
  cr_TemplateVars :: "string gomap"

definition writeFileToRemote :: "'w file_store \<Rightarrow> string \<Rightarrow> string \<Rightarrow> ('w, unit) io" where
  "writeFileToRemote fs localPath remoteAbsolutePath =
     io_bind (io_os (\<lambda>d. (os_ReadFile localPath d, d))) (\<lambda>bytes.
       PutObject fs \<lparr>rd_bytes = bytes, rd_error = None\<rparr> remoteAbsolutePath)"

text \<open>The loop over the template variables, in the order it visits them.\<close>

definition replace_vars :: "string gomap \<Rightarrow> string \<Rightarrow> string" where
  "replace_vars vars path = fold (\<lambda>(k, valStr) path. replace_all (''{VAR::'' @ k @ ''}'') valStr path) vars path"

text \<open>\<^verbatim>\<open>os.Stat\<close>: whether the path is a directory.\<close>

definition os_Stat :: "string \<Rightarrow> file_system \<Rightarrow> bool res" where
  "os_Stat p fs =
     (if is_dir fs (parse_path p) then Ok True
      else if map_of (fs_files fs) (parse_path p) \<noteq> None then Ok False
      else Err (External ''no such file or directory''))"

text \<open>The visit of a walk over a local directory.\<close>

definition upload_file :: "'w file_store \<Rightarrow> string \<Rightarrow> string \<Rightarrow> walk_file \<Rightarrow> ('w, unit) io" where
  "upload_file fs LocalPath fullRemotePath file =
     (if \<not> wk_isdir file then
        let localRelativePath = trim_prefix (trim_prefix (wk_path file) LocalPath) ''/''
        in writeFileToRemote fs (wk_path file) (fullRemotePath @ ''/'' @ localRelativePath)
      else io_return ())"

text \<open>
  \<open>localFs\<close> is the block file store \<^verbatim>\<open>filesapi.NewFileStore\<close> makes of the local disk. The
  result of its walk is dropped.
\<close>

definition CopyFileToRemote ::
    "'w file_store res \<Rightarrow> 'w session heap \<Rightarrow> 'w manager \<Rightarrow> CopyFileToRemoteInput \<Rightarrow> ('w, unit) io" where
  "CopyFileToRemote localFs h im input =
     io_bind
       (if cr_RemoteStoreName input = [] then
          io_bind (io_lift (GetOutputDataSource h im (cr_RemoteDsName input)))
            (\<lambda>ds. io_return (ds_StoreName ds, zero_get (ds_Paths ds) (cr_DsPathKey input)))
        else io_return (cr_RemoteStoreName input, cr_RemotePath input)) (\<lambda>(storeName, path0).
     let path = replace_vars (cr_TemplateVars input) path0 in
     io_bind (io_lift (GetStore h im storeName)) (\<lambda>store.
     io_bind (io_os (\<lambda>d. (os_Stat (cr_LocalPath input) d, d))) (\<lambda>isdir.
     (case session_as as_FileDataStore store of
        None \<Rightarrow> io_return ()
      | Some ifds \<Rightarrow>
          let fullRemotePath = fd_GetAbsolutePath ifds path; fs = fd_GetFilestore ifds in
          if isdir then
            io_bind (io_lift (Some localFs)) (\<lambda>localFs.
            io_bind (io_catch (Walk localFs (cr_LocalPath input) (upload_file fs (cr_LocalPath input) fullRemotePath)))
              (\<lambda>_. io_return ()))
          else writeFileToRemote fs (cr_LocalPath input) fullRemotePath))))"

text \<open>\<open>GetStoreAs\<close>: the type assertion is an argument; only the manager's own stores are searched.\<close>

fun GetStoreAs :: "('s \<Rightarrow> 't option) \<Rightarrow> 's DataStore list \<Rightarrow> string \<Rightarrow> 't res" where
  "GetStoreAs as_T [] name = Err (Errorf ''session %s does not exist'' [name])"
| "GetStoreAs as_T (s # stores) name =
     (if st_Name s = name then
        (case Option.bind (st_Session s) as_T of
           Some t \<Rightarrow> Ok t
         | None \<Rightarrow> Err (Errorf ''invalid store type: %s'' [st_StoreType s]))
      else GetStoreAs as_T stores name)"

definition GetAbsolutePath ::
    "cast_fns \<Rightarrow> 's heap \<Rightarrow> 's IOManager \<Rightarrow> string \<Rightarrow> string \<Rightarrow> string \<Rightarrow> string res option" where
  "GetAbsolutePath cs h im storename sourcename pathname =
     (case GetStore h im storename of
        None \<Rightarrow> None
      | Some (Err e) \<Rightarrow> Some (Err (Wrapf ''failed to get store: %s'' [] e))
      | Some Panic \<Rightarrow> Some Panic
      | Some Exit \<Rightarrow> Some Exit
      | Some (Ok store) \<Rightarrow>
          (case GetDataSource h im \<lparr>DsIoType = DataSourceAll, DsName = sourcename\<rparr> of
             None \<Rightarrow> None
           | Some (Err e) \<Rightarrow> Some (Err (Wrapf ''failed to get data source: %s'' [] e))
           | Some Panic \<Rightarrow> Some Panic
           | Some Exit \<Rightarrow> Some Exit
           | Some (Ok ds) \<Rightarrow>
               Some (res_bind (GetStringOrDefault cs (st_Parameters store) ''root'' ''/'') (\<lambda>root.
                 (case (root, map_of (nil_map (ds_Paths ds)) pathname) of
                    (VString root, Some path) \<Rightarrow> Ok (path_clean (root @ ''/'' @ path))
                  | _ \<Rightarrow> Err (Errorf ''invalid path name: %s'' [pathname]))))))"

subsection \<open>What the operations do to the world\<close>

lemma io_bind_lift: "io_bind (io_lift (Some (Ok x))) f w = f x w"
  by (simp add: io_defs)

lemma io_bind_lift_Err: "io_bind (io_lift (Some (Err e))) f w = Some (Err e, w)"
  by (simp add: io_defs)

lemma io_bind_lift_None: "io_bind (io_lift None) f w = None"
  by (simp add: io_defs)

lemmas io_simps = io_bind_lift io_bind_lift_Err io_bind_lift_None

lemma io_bind_Ok:
  "io_bind m f w = Some (Ok y, w2) \<longleftrightarrow> (\<exists>x w1. m w = Some (Ok x, w1) \<and> f x w1 = Some (Ok y, w2))"
  by (auto simp: io_bind_def split: option.splits res.splits)

lemma io_lift_Ok: "io_lift r w = Some (Ok x, w') \<longleftrightarrow> r = Some (Ok x) \<and> w' = w"
  by (auto simp: io_lift_def)

lemma io_return_Ok: "io_return x w = Some (Ok y, w') \<longleftrightarrow> y = x \<and> w' = w"
  by (auto simp: io_return_def)

lemma io_err_Ok [simp]: "io_err e w \<noteq> Some (Ok y, w')"
  by (simp add: io_err_def)

lemmas io_Ok_simps = io_bind_Ok io_lift_Ok io_return_Ok

text \<open>\<^verbatim>\<open>Put\<close> with a data source given in the input never writes: the given data source is not
  used, an empty one is, so the call ends with an error (or does not return) and leaves the world
  as it was.\<close>

theorem Put_given_DataSource:
  assumes "oi_DataSource input \<noteq> None"
  shows "Put h im r input w = None \<or> (\<exists>e. Put h im r input w = Some (Err e, w))"
proof -
  obtain ds where ds: "oi_DataSource input = Some ds"
    using assms by blast
  have zero: "ds_StoreName zero_DataSource = []" "nil_map (ds_Paths zero_DataSource) = []"
    by (simp_all add: zero_DataSource_def)
  consider "GetStore h im [] = None" | (found) store where "GetStore h im [] = Some (Ok store)"
    | (err) e where "GetStore h im [] = Some (Err e)"
    using store_scope.get_cases [of h im "[]"] by (elim disjE exE) simp_all
  then show ?thesis
    by cases (auto simp: Put_def ds zero io_simps io_err_def split: option.splits)
qed

text \<open>What a file store was given under a path is what a data source that names this path reads, whatever
  manager the two data sources and their stores are found in.\<close>

definition resolves_to ::
    "'w session heap \<Rightarrow> 'w manager \<Rightarrow> DataSource \<Rightarrow> 'w FileDataStore \<Rightarrow> bool" where
  "resolves_to h im ds fds \<longleftrightarrow> (\<exists>store. GetStore h im (ds_StoreName ds) = Some (Ok store) \<and> st_Session store = Some (fds_session fds))"

lemma put_get_across:
  assumes out: "GetOutputDataSource h im name = Some (Ok ds)" "resolves_to h im ds fds"
    and inp: "GetInputDataSource h im' name' = Some (Ok ds')" "resolves_to h im' ds' fds"
    and laws: "store_laws (fds_fs fds)" and r: "rd_error r = None"
    and path: "zero_get (ds_Paths ds') k' = zero_get (ds_Paths ds) k"
    and put: "Put h im r \<lparr>oi_DataSource = None, oi_DataSourceName = name, oi_PathKey = k, oi_DataPathKey = dk,
        oi_TemplateVars = vars\<rparr> w = Some (Ok n, w')"
  shows "Get h im' \<lparr>oi_DataSource = None, oi_DataSourceName = name', oi_PathKey = k', oi_DataPathKey = dk',
      oi_TemplateVars = vars\<rparr> w' = Some (Ok (rd_bytes r), w')"
proof -
  obtain store store' where store: "GetStore h im (ds_StoreName ds) = Some (Ok store)" "st_Session store = Some (fds_session fds)"
    "GetStore h im' (ds_StoreName ds') = Some (Ok store')" "st_Session store' = Some (fds_session fds)"
    using out(2) inp(2) unfolding resolves_to_def by blast
  obtain p where p: "map_of (nil_map (ds_Paths ds)) k = Some p"
    using put by (auto simp: Put_def out(1) store io_simps session_as_def fds_session_def io_err_def
        split: option.splits)
  let ?p = "if vars \<noteq> [] then templateVarSubstitution p vars else p"
  have "PutObject (fds_fs fds) r (fds_root fds @ ''/'' @ ?p) w = Some (Ok (), w')"
    using put p by (auto simp: Put_def out(1) store io_simps session_as_def fds_session_def FDS_Put_def io_Ok_simps Let_def
        split: if_splits option.splits)
  then have "GetObject (fds_fs fds) (fds_root fds @ ''/'' @ ?p) w' = Some (Ok \<lparr>rd_bytes = rd_bytes r, rd_error = None\<rparr>, w')"
    using laws r unfolding store_laws_def by blast
  moreover have "zero_get (ds_Paths ds') k' = p"
    unfolding path using p by (simp add: zero_get_def)
  ultimately have "GetReader h im' \<lparr>oi_DataSource = None, oi_DataSourceName = name', oi_PathKey = k', oi_DataPathKey = dk',
      oi_TemplateVars = vars\<rparr> w' = Some (Ok \<lparr>rd_bytes = rd_bytes r, rd_error = None\<rparr>, w')"
    by (cases "vars = []")
      (simp_all add: GetReader_def inp(1) store io_simps session_as_def fds_session_def FDS_Get_def Let_def)
  then show ?thesis
    by (simp add: Get_def io_bind_def io_return_def)
qed

text \<open>What is put through a connected file store is what \<^verbatim>\<open>Get\<close> returns: when a data source is
  both an output and an input and the store keeps what it is given, putting data under a path key
  and reading the same key, with the same template variables, yields the data.\<close>

theorem Put_then_Get:
  assumes "GetOutputDataSource h im name = Some (Ok ds)" and "GetInputDataSource h im name = Some (Ok ds)"
    and "resolves_to h im ds fds" and "store_laws (fds_fs fds)" and "rd_error r = None"
    and "Put h im r \<lparr>oi_DataSource = None, oi_DataSourceName = name, oi_PathKey = k, oi_DataPathKey = [],
        oi_TemplateVars = vars\<rparr> w = Some (Ok n, w')"
  shows "Get h im \<lparr>oi_DataSource = None, oi_DataSourceName = name, oi_PathKey = k, oi_DataPathKey = [],
      oi_TemplateVars = vars\<rparr> w' = Some (Ok (rd_bytes r), w')"
  using assms(6) by (rule put_get_across [OF assms(1,3,2,3,4,5) refl])

text \<open>C20. A successful copy to the local disk leaves exactly the object's bytes under the base name of
  the remote path, in the given directory, and the object was read to its end.\<close>

theorem copyToLocal_bytes:
  assumes "copyToLocal fs rp lp isdir w = Some (Ok (), w')" and "GetObject fs rp w = Some (Ok r, w1)"
  shows "os_ReadFile ((if isdir then path_dir lp else lp) @ ''/'' @ path_base rp) (disk w') = Ok (rd_bytes r) \<and>
    rd_error r = None \<and> remote w' = remote w1"
proof -
  let ?dir = "if isdir then path_dir lp else lp"
  let ?file = "?dir @ ''/'' @ path_base rp"
  obtain r' w1' made w2 where got: "GetObject fs rp w = Some (Ok r', w1')"
    and made': "io_catch (io_os (os_MkdirAll ?dir)) w1' = Some (Ok made, w2)"
    and rest': "(case made of Inl e \<Rightarrow> io_err (Wrapf ''failed to create local directory %s: %s'' [?dir] e)
      | Inr u \<Rightarrow> io_bind (io_os (os_Create ?file)) (\<lambda>_. io_os (io_Copy ?file r'))) w2 = Some (Ok (), w')"
    using assms(1) unfolding copyToLocal_def io_bind_Ok Let_def by (elim exE conjE) (rule that)
  have eq: "r' = r" "w1' = w1"
    using got assms(2) by simp_all
  note made = made' [unfolded eq] and rest = rest' [unfolded eq]
  obtain u w3 where create: "io_os (os_Create ?file) w2 = Some (Ok u, w3)"
    and copy: "io_os (io_Copy ?file r) w3 = Some (Ok (), w')"
    using rest by (cases made) (auto simp: io_bind_Ok)
  have "fst (io_Copy ?file r (disk w3)) = Ok ()" and d: "disk w' = snd (io_Copy ?file r (disk w3))" and "remote w' = remote w3"
    using copy by (auto simp: io_os_def split: prod.splits)
  moreover have "remote w3 = remote w1"
    using made create by (auto simp: io_os_def io_catch_def split: prod.splits res.splits)
  ultimately show ?thesis
    using io_Copy_Ok [of ?file r "disk w3"] os_read_after_write [of ?file "rd_bytes r" "disk w3" ?file] by simp
qed


text \<open>Copying a file to a store that is not a file store reports success and does nothing.\<close>

theorem CopyFileToRemote_other_store:
  assumes "cr_RemoteStoreName input \<noteq> []" and "GetStore h im (cr_RemoteStoreName input) = Some (Ok store)"
    and "session_as as_FileDataStore store = None" and "os_Stat (cr_LocalPath input) (disk w) = Ok b"
  shows "CopyFileToRemote localFs h im input w = Some (Ok (), w)"
  using assms
  by (simp add: CopyFileToRemote_def io_simps Let_def io_bind_def io_return_def io_lift_def io_os_def)

text \<open>A typed session is looked up among the manager's own stores only, by the first store of that
  name: a store of a parent, which \<^verbatim>\<open>GetStore\<close> finds, does not exist here.\<close>

theorem GetStoreAs_own:
  "GetStoreAs as_T (im_Stores im) name =
     (case own_store im name of
        None \<Rightarrow> Err (Errorf ''session %s does not exist'' [name])
      | Some s \<Rightarrow> (case Option.bind (st_Session s) as_T of
           Some t \<Rightarrow> Ok t
         | None \<Rightarrow> Err (Errorf ''invalid store type: %s'' [st_StoreType s])))"
proof -
  have "GetStoreAs as_T stores name =
     (case find (\<lambda>s. st_Name s = name) stores of
        None \<Rightarrow> Err (Errorf ''session %s does not exist'' [name])
      | Some s \<Rightarrow> (case Option.bind (st_Session s) as_T of
           Some t \<Rightarrow> Ok t
         | None \<Rightarrow> Err (Errorf ''invalid store type: %s'' [st_StoreType s])))" for stores
    by (induction stores) auto
  then show ?thesis
    by (simp add: own_store_def)
qed

subsection \<open>Template variables in a remote path\<close>

text \<open>
  \<open>CopyFileToRemote\<close> replaces the variables textually, the other operations by
  \<open>templateVarSubstitution\<close>; on segments both fill the markers.
\<close>

lemma name_char_plain: "id_char c \<Longrightarrow> c \<noteq> CHR ''{'' \<and> c \<noteq> CHR ''}''"
  by (auto simp: id_char_def is_letter_def is_digit_def char_between_def)

lemma valid_name_chars: "valid_name k \<Longrightarrow> list_all id_char k"
  by (auto simp: valid_name_def id_start_def id_char_def split: list.splits)

definition var_marker :: "string \<Rightarrow> string" where
  "var_marker k = ''{VAR::'' @ k @ ''}''"

lemma var_marker_print: "var_marker k = print_marker ''VAR'' k NoIndex"
  by (simp add: var_marker_def print_marker_def)

lemma var_marker_match:
  assumes "valid_name k"
  shows "match_marker (var_marker k) = Some (marker_match ''VAR'' k NoIndex, [])"
    and "seg_match (var_marker k) = marker_match ''VAR'' k NoIndex"
  using match_print_marker [of "''VAR''" k NoIndex "[]"] assms
  by (simp_all add: var_marker_print valid_type_def seg_match_def)

lemma plain_var_marker:
  assumes "valid_name k"
  shows "plain_marker (var_marker k)"
proof -
  have "CHR ''{'' \<notin> set k" and "CHR ''}'' \<notin> set k"
    using valid_name_chars [OF assms] name_char_plain unfolding list_all_iff by blast+
  then show ?thesis
    by (simp add: plain_marker_def var_marker_match [OF assms]) (simp add: var_marker_def butlast_append)
qed

lemma m_marker_match [simp]: "m1 (marker_match ty k NoIndex) = ty" "m2 (marker_match ty k NoIndex) = k"
  by (simp_all add: marker_match_def to_submatch_def group_def)

definition put_vars :: "string gomap \<Rightarrow> seg \<Rightarrow> seg" where
  "put_vars vars s = fold (\<lambda>(k, v). put (var_marker k) v) vars s"

lemma put_vars_Cons: "put_vars ((k, v) # vars) s = put_vars vars (put (var_marker k) v s)"
  by (simp add: put_vars_def)

lemma var_marker_inject [simp]: "var_marker k = var_marker k' \<longleftrightarrow> k = k'"
  by (simp add: var_marker_def)

lemma put_vars_Lit [simp]: "put_vars vars (Lit t) = Lit t"
  by (induction vars) (auto simp: put_vars_def)

lemma put_vars_Mark:
  "distinct (keys vars) \<Longrightarrow> put_vars vars (Mark p) =
     (case map_of (map (\<lambda>(k, v). (var_marker k, v)) vars) p of Some v \<Rightarrow> Lit v | None \<Rightarrow> Mark p)"
proof (induction vars)
  case Nil
  then show ?case by (simp add: put_vars_def)
next
  case (Cons kv vars)
  obtain k v where kv: "kv = (k, v)" by (cases kv)
  have "put_vars (kv # vars) (Mark p) = put_vars vars (put (var_marker k) v (Mark p))"
    by (simp add: put_vars_def kv)
  then show ?case
    using Cons kv by simp
qed

lemma replace_vars_segs:
  assumes "list_all wf_seg segs" and "\<forall>(k, v) \<in> set vars. valid_name k \<and> CHR ''{'' \<notin> set v"
  shows "replace_vars vars (render segs) = render (map (put_vars vars) segs)"
  using assms
proof (induction vars arbitrary: segs)
  case Nil
  then show ?case by (simp add: replace_vars_def put_vars_def map_idI)
next
  case (Cons kv vars)
  obtain k v where kv: "kv = (k, v)" by (cases kv)
  have k: "plain_marker (var_marker k)" and v: "CHR ''{'' \<notin> set v"
    using Cons.prems(2) kv plain_var_marker by auto
  have "replace_all (var_marker k) v (render segs) = render (map (put (var_marker k) v) segs)"
    by (rule replace_all_segs [OF k Cons.prems(1)])
  then have "replace_vars (kv # vars) (render segs) = replace_vars vars (render (map (put (var_marker k) v) segs))"
    by (simp add: replace_vars_def kv var_marker_def)
  also have "\<dots> = render (map (put_vars vars) (map (put (var_marker k) v) segs))"
    using Cons.prems v by (intro Cons.IH) (auto simp: list_all_iff)
  also have "\<dots> = render (map (put_vars (kv # vars)) segs)"
    by (rule arg_cong [where f = render]) (simp add: put_vars_Cons kv)
  finally show ?case .
qed

text \<open>Both ways of filling template variables agree, and the order in which the map of variables is
  visited does not matter, on a path of literals and plain markers whose \<^verbatim>\<open>VAR\<close> markers carry no
  index, when the variables have valid names and values without an opening brace.\<close>

theorem replace_vars_agrees:
  assumes "list_all wf_seg segs" and "wf_map vars"
    and "\<forall>(k, v) \<in> set vars. valid_name k \<and> CHR ''{'' \<notin> set v"
    and "\<forall>p \<in> set (marks segs). m1 (seg_match p) = ''VAR'' \<longrightarrow> p = var_marker (m2 (seg_match p))"
  shows "replace_vars vars (render segs) = templateVarSubstitution (render segs) vars"
proof -
  have "put_vars vars s = fill_var vars s" if s: "s \<in> set segs" for s
  proof (cases s)
    case (Mark p)
    have p: "p \<in> set (marks segs)"
      using s Mark marks_in by blast
    have look: "map_of (map (\<lambda>(k, v). (var_marker k, v)) vars) p = var_value vars p"
    proof (cases "m1 (seg_match p) = ''VAR''")
      case True
      then have pk: "p = var_marker (m2 (seg_match p))"
        using assms(4) p by blast
      have "map_of (map (\<lambda>(k, v). (var_marker k, v)) vars) (var_marker k) = map_of vars k" for k
        by (induction vars) auto
      then show ?thesis
        using True pk by (metis var_value_def)
    next
      case False
      have "p \<noteq> var_marker k" if "(k, v) \<in> set vars" for k v
        using False assms(3) that var_marker_match(2) [of k] by fastforce
      then show ?thesis
        using False by (force simp: var_value_def map_of_eq_None_iff)
    qed
    show ?thesis
      using put_vars_Mark [of vars p] assms(2) look Mark by (simp add: wf_map_def)
  qed simp
  then have eq: "map (put_vars vars) segs = map (fill_var vars) segs"
    by simp
  moreover have "\<forall>v \<in> set (map snd vars). CHR ''{'' \<notin> set v"
    using assms(3) by auto
  ultimately show ?thesis
    using replace_vars_segs [OF assms(1,3)] template_loop_segs [of "[]" segs vars] find_all_segs [OF assms(1)] assms(1)
    by (simp add: templateVarSubstitution_def eq del: map_eq_conv)
qed

subsection \<open>Absolute paths\<close>

lemma fold_clean_below:
  "''..'' \<notin> set cs \<Longrightarrow> fold (clean_step r) cs stack = rev (filter (\<lambda>c. c \<noteq> [] \<and> c \<noteq> ''.'') cs) @ stack"
  by (induction cs arbitrary: stack) (auto simp: clean_step_def)

lemma split_on_slash_append: "split_on c (s @ c # t) = split_on c s @ split_on c t"
  by (induction s) (auto split: list.splits)

lemma parse_path_below:
  assumes "root \<noteq> []" and "''..'' \<notin> set (split_on (CHR ''/'') p)"
  shows "parse_path (root @ ''/'' @ p) =
    (fst (parse_path root), snd (parse_path root) @ filter (\<lambda>c. c \<noteq> [] \<and> c \<noteq> ''.'') (split_on (CHR ''/'') p))"
proof -
  have eq: "split_on (CHR ''/'') (root @ ''/'' @ p) = split_on (CHR ''/'') root @ split_on (CHR ''/'') p"
    using split_on_slash_append [of "CHR ''/''" root p] by simp
  have "(case root @ ''/'' @ p of [] \<Rightarrow> False | c # cs \<Rightarrow> c = CHR ''/'')
      = (case root of [] \<Rightarrow> False | c # cs \<Rightarrow> c = CHR ''/'')"
    using assms(1) by (cases root) simp_all
  then show ?thesis
    unfolding parse_path_def Let_def eq by (simp only: fold_append comp_apply fold_clean_below [OF assms(2)])
      (simp del: split_on.simps)
qed

text \<open>An absolute path lies under the store's root: when the path of the data source has no
  \<^verbatim>\<open>..\<close> element, the result is the root's elements followed by the path's, with the empty and
  dot elements gone, and it is clean.\<close>

theorem GetAbsolutePath_under_root:
  assumes "GetStore h im s = Some (Ok store)"
    and "GetDataSource h im \<lparr>DsIoType = DataSourceAll, DsName = d\<rparr> = Some (Ok ds)"
    and "GetStringOrDefault cs (st_Parameters store) ''root'' ''/'' = Ok (VString root)" and "root \<noteq> []"
    and "map_of (nil_map (ds_Paths ds)) k = Some p" and "''..'' \<notin> set (split_on (CHR ''/'') p)"
  shows "\<exists>q. GetAbsolutePath cs h im s d k = Some (Ok q) \<and> path_clean q = q \<and>
    parse_path q = (fst (parse_path root),
      snd (parse_path root) @ filter (\<lambda>c. c \<noteq> [] \<and> c \<noteq> ''.'') (split_on (CHR ''/'') p))"
  using assms parse_path_below [OF assms(4,6)] by (simp add: GetAbsolutePath_def)

subsection \<open>Instances\<close>

definition lake_fds :: "(string \<times> string) list FileDataStore" where
  "lake_fds = \<lparr>fds_fs = mem_store, fds_root = ''/r''\<rparr>"

definition demo_source :: DataSource where
  "demo_source = \<lparr>ds_Name = ''grid'', ds_ID = None, ds_Paths = Some [(''p'', ''a/{VAR::n}'')], ds_DataPaths = None,
     ds_StoreName = ''lake''\<rparr>"

definition lake_store :: "(string \<times> string) list session DataStore" where
  "lake_store = s3_ds \<lparr>st_Session := Some (fds_session lake_fds)\<rparr>"

definition lake_im :: "(string \<times> string) list manager" where
  "lake_im = \<lparr>im_Attributes = [], im_Stores = [lake_store], im_Inputs = [demo_source], im_Outputs = [demo_source],
     im_parent = None\<rparr>"

definition demo_input :: DataSourceOpInput where
  "demo_input = \<lparr>oi_DataSource = None, oi_DataSourceName = ''grid'', oi_PathKey = ''p'', oi_DataPathKey = [],
     oi_TemplateVars = [(''n'', ''7'')]\<rparr>"

definition demo_world :: "(string \<times> string) list world" where
  "demo_world = \<lparr>disk = \<lparr>fs_files = [], fs_dirs = [(True, [''in''])]\<rparr>, remote = []\<rparr>"

lemma lake_lookups:
  "GetStore h lake_im ''lake'' = Some (Ok lake_store)"
  "GetDataSource h lake_im \<lparr>DsIoType = t, DsName = ''grid''\<rparr> = Some (Ok demo_source)"
  by (subst GetStore.simps GetDataSource.simps;
      cases t; simp add: lake_im_def lake_store_def s3_ds_def sources_of_def demo_source_def)+

theorem Put_given_DataSource_witness:
  "\<exists>e. Put (\<lambda>_. lake_im) lake_im \<lparr>rd_bytes = ''x'', rd_error = None\<rparr> (demo_input \<lparr>oi_DataSource := Some demo_source\<rparr>)
     demo_world = Some (Err e, demo_world)"
proof -
  have "GetStore (\<lambda>_. lake_im) lake_im [] \<noteq> None"
    by (subst GetStore.simps) (simp add: lake_im_def lake_store_def s3_ds_def)
  then have "Put (\<lambda>_. lake_im) lake_im \<lparr>rd_bytes = ''x'', rd_error = None\<rparr> (demo_input \<lparr>oi_DataSource := Some demo_source\<rparr>)
      demo_world \<noteq> None"
    using store_scope.get_cases [of "\<lambda>_. lake_im" lake_im "[]"]
    by (auto simp: Put_def io_simps zero_DataSource_def io_err_def split: option.splits)
  then show ?thesis
    using Put_given_DataSource [of "demo_input \<lparr>oi_DataSource := Some demo_source\<rparr>"
        "\<lambda>_. lake_im" lake_im "\<lparr>rd_bytes = ''x'', rd_error = None\<rparr>" demo_world] by auto
qed

lemma demo_template: "templateVarSubstitution ''a/{VAR::n}'' [(''n'', ''7'')] = ''a/7''"
  by code_simp

lemma demo_put:
  "Put (\<lambda>_. lake_im) lake_im \<lparr>rd_bytes = ''x'', rd_error = None\<rparr> demo_input demo_world
     = Some (Ok (-1), demo_world \<lparr>remote := [(''/r/a/7'', ''x'')]\<rparr>)"
  by code_simp

theorem Put_then_Get_witness:
  "Get (\<lambda>_. lake_im) lake_im demo_input (demo_world \<lparr>remote := [(''/r/a/7'', ''x'')]\<rparr>)
     = Some (Ok ''x'', demo_world \<lparr>remote := [(''/r/a/7'', ''x'')]\<rparr>)"
  using Put_then_Get [OF _ _ _ _ _ demo_put [unfolded demo_input_def], of demo_source lake_fds]
  by (simp add: GetOutputDataSource_def GetInputDataSource_def resolves_to_def lake_lookups demo_input_def)
    (simp add: demo_source_def lake_lookups lake_store_def lake_fds_def mem_store_laws)

lemma demo_copy:
  "copyToLocal mem_store ''/r/a'' ''/out'' False (demo_world \<lparr>remote := [(''/r/a'', ''x'')]\<rparr>) =
     Some (Ok (), \<lparr>disk = \<lparr>fs_files = [((True, [''out'', ''a'']), ''x'')], fs_dirs = [(True, [''in'']), (True, [''out''])]\<rparr>,
       remote = [(''/r/a'', ''x'')]\<rparr>)"
  by code_simp

theorem copyToLocal_bytes_witness:
  "os_ReadFile (''/out'' @ ''/'' @ path_base ''/r/a'')
     \<lparr>fs_files = [((True, [''out'', ''a'']), ''x'')], fs_dirs = [(True, [''in'']), (True, [''out''])]\<rparr> = Ok ''x''"
  using copyToLocal_bytes [OF demo_copy, of "\<lparr>rd_bytes = ''x'', rd_error = None\<rparr>" "demo_world \<lparr>remote := [(''/r/a'', ''x'')]\<rparr>"]
  by (simp add: mem_store_def)

definition broken_fs :: "(string \<times> string) list file_store" where
  "broken_fs = mem_store \<lparr>Walk := (\<lambda>p visit. io_err (External ''permission denied''))\<rparr>"

definition upload_input :: CopyFileToRemoteInput where
  "upload_input = \<lparr>cr_RemoteStoreName = ''lake'', cr_RemotePath = ''b'', cr_LocalPath = ''/in'', cr_RemoteDsName = [],
     cr_DsPathKey = [], cr_DsDataPathKey = [], cr_TemplateVars = []\<rparr>"


definition plain_im :: "(string \<times> string) list manager" where
  "plain_im = lake_im \<lparr>im_Stores := [lake_store \<lparr>st_Session := None\<rparr>]\<rparr>"

theorem CopyFileToRemote_other_store_witness:
  "CopyFileToRemote (Ok broken_fs) (\<lambda>_. plain_im) plain_im upload_input demo_world = Some (Ok (), demo_world)"
proof (rule CopyFileToRemote_other_store)
  show "GetStore (\<lambda>_. plain_im) plain_im (cr_RemoteStoreName upload_input) = Some (Ok (lake_store \<lparr>st_Session := None\<rparr>))"
    by (subst GetStore.simps) (simp add: plain_im_def upload_input_def lake_store_def s3_ds_def)
  show "os_Stat (cr_LocalPath upload_input) (disk demo_world) = Ok True"
    by code_simp
qed (simp_all add: upload_input_def session_as_def)

theorem replace_vars_agrees_witness:
  "replace_vars [(''n'', ''7''), (''m'', ''8'')] ''a/{VAR::n}/{ENV::m}{VAR::m}''
     = templateVarSubstitution ''a/{VAR::n}/{ENV::m}{VAR::m}'' [(''n'', ''7''), (''m'', ''8'')]"
proof -
  let ?segs = "[Lit ''a/'', Mark ''{VAR::n}'', Lit ''/'', Mark ''{ENV::m}'', Mark ''{VAR::m}'']"
  let ?vars = "[(''n'', ''7''), (''m'', ''8'')]"
  have "list_all wf_seg ?segs" "wf_map ?vars" "\<forall>(k, v) \<in> set ?vars. valid_name k \<and> CHR ''{'' \<notin> set v"
    "\<forall>p \<in> set (marks ?segs). m1 (seg_match p) = ''VAR'' \<longrightarrow> p = var_marker (m2 (seg_match p))"
    by code_simp+
  from replace_vars_agrees [OF this] show ?thesis
    by simp
qed

theorem GetAbsolutePath_under_root_witness:
  "\<exists>q. GetAbsolutePath demo_cast (\<lambda>_. lake_im) lake_im ''lake'' ''grid'' ''p'' = Some (Ok q) \<and>
     parse_path q = (True, [''r'', ''a'', ''{VAR::n}''])"
proof -
  have "parse_path ''/r'' = (True, [''r''])" "split_on (CHR ''/'') ''a/{VAR::n}'' = [''a'', ''{VAR::n}'']"
    by code_simp+
  moreover have "GetStringOrDefault demo_cast (st_Parameters lake_store) ''root'' ''/'' = Ok (VString ''/r'')"
    by (simp add: GetStringOrDefault_def GetOrDefault_def GetAttribute_def lake_store_def s3_ds_def demo_cast_def)
  ultimately show ?thesis
    using GetAbsolutePath_under_root [of "\<lambda>_. lake_im" lake_im "''lake''" lake_store "''grid''" demo_source demo_cast
        "''/r''" "''p''" "''a/{VAR::n}''"] lake_lookups
    by (auto simp: demo_source_def)
qed

end
