(* ===== verification/Payload_Substitution.thy ===== *)
theory Payload_Substitution
  imports Data_Model
begin

section \<open>Substituting the variables of a payload\<close>

text \<open>
  \<open>pathsSubstitute\<close>, \<open>handleSliceSub\<close>, \<open>substituteMapVariables\<close> and
  \<open>substituteVariables\<close> of \<^verbatim>\<open>pluginmanager.go\<close>. These loops change the map they range
  over, so they run on schedules (theory \<^verbatim>\<open>Go_Range\<close>); a schedule entry also carries the
  orders of the loops inside the visit. The theorems say which schedules agree, and what a
  substituted payload keeps of the original.
\<close>

subsection \<open>Data sources\<close>

definition path_input :: "string \<Rightarrow> string \<Rightarrow> attrs \<Rightarrow> paramSubInput" where
  "path_input k p attr = \<lparr>TemplateKey = k, Template = p, Attributes = attr, AllowAttributeSubstitution = True\<rparr>"

text \<open>The loop over \<^verbatim>\<open>ds.Paths\<close>: an entry is deleted and its lines are stored.\<close>

definition paths_body ::
    "go_env \<Rightarrow> attrs \<Rightarrow> range_order \<Rightarrow> string \<Rightarrow> string \<Rightarrow> (string, string) mapop list res option" where
  "paths_body env attr ord k p =
     Some (res_bind (parameterSubstitute env ord (path_input k p attr)) (\<lambda>paths. Ok (replace_ops k paths)))"

text \<open>
  The loop over \<^verbatim>\<open>ds.DataPaths\<close>, which it does not change: the lines are stored into
  \<^verbatim>\<open>ds.Paths\<close>.
\<close>

fun data_paths_loop ::
    "go_env \<Rightarrow> attrs \<Rightarrow> string gomap \<Rightarrow> (string \<times> range_order) list \<Rightarrow> string gomap option \<Rightarrow>
     string gomap option run" where
  "data_paths_loop env attr datapaths [] paths = Some (Ok paths)"
| "data_paths_loop env attr datapaths ((k, ord) # sch) paths =
     (case map_of datapaths k of
        None \<Rightarrow> None
      | Some p \<Rightarrow>
          run_bind (Some (parameterSubstitute env ord (path_input k p attr))) (\<lambda>new.
          run_bind (Some (copy_into (delete_from k paths) new)) (\<lambda>paths'.
            data_paths_loop env attr datapaths sch paths')))"

record ds_choices =
  name_order :: range_order
  paths_sched :: "(string \<times> range_order) list"
  data_sched :: "(string \<times> range_order) list"

definition paths_loop ::
    "go_env \<Rightarrow> attrs \<Rightarrow> (string \<times> range_order) list \<Rightarrow> string gomap option \<Rightarrow> string gomap option run" where
  "paths_loop env attr sch paths = (case paths of
     None \<Rightarrow> if sch = [] then Some (Ok None) else None
   | Some m \<Rightarrow> run_bind (range_loop (paths_body env attr) sch (range_start m)) (\<lambda>m'. Some (Ok (Some m'))))"

definition pathsSubstitute :: "go_env \<Rightarrow> ds_choices \<Rightarrow> DataSource \<Rightarrow> attrs \<Rightarrow> DataSource run" where
  "pathsSubstitute env ch ds attr =
     run_bind (Some (parameterSubstitute env (name_order ch) (path_input ''name'' (ds_Name ds) attr))) (\<lambda>nameResult.
     (case map_of nameResult ''name'' of
        None \<Rightarrow> Some (Err (Errorf ''invalid data source name substitution for %s'' [ds_Name ds]))
      | Some nameout \<Rightarrow>
          run_bind (paths_loop env attr (paths_sched ch) (ds_Paths ds)) (\<lambda>paths.
          if mset (map fst (data_sched ch)) \<noteq> mset (keys (nil_map (ds_DataPaths ds))) then None
          else run_bind (data_paths_loop env attr (nil_map (ds_DataPaths ds)) (data_sched ch) paths) (\<lambda>paths'.
            Some (Ok (ds \<lparr>ds_Name := nameout, ds_Paths := paths'\<rparr>))))))"

subsection \<open>Attributes\<close>

text \<open>
  The elements of a slice: a string becomes its lines, in the order a \<^verbatim>\<open>range\<close> over the
  result visits them; a string that cannot be substituted is dropped.
\<close>

definition attr_input :: "attrs \<Rightarrow> bool \<Rightarrow> string \<Rightarrow> string \<Rightarrow> paramSubInput" where
  "attr_input pmAttrs attrSub k s =
     \<lparr>TemplateKey = k, Template = s, Attributes = pmAttrs, AllowAttributeSubstitution = attrSub\<rparr>"

fun handleSliceSub :: "go_env \<Rightarrow> attrs \<Rightarrow> bool \<Rightarrow> (nat \<Rightarrow> range_order) \<Rightarrow> nat \<Rightarrow> val list \<Rightarrow> val list res" where
  "handleSliceSub env pmAttrs attrSub ch i [] = Ok []"
| "handleSliceSub env pmAttrs attrSub ch i (VString s # vs) =
     (case parameterSubstitute env (ch i) (attr_input pmAttrs attrSub [] s) of
        Ok newvals \<Rightarrow> res_bind (handleSliceSub env pmAttrs attrSub ch (Suc i) vs)
          (\<lambda>rest. Ok (map (\<lambda>(k, v). VString v) (ch i (length (FindAllStringSubmatch s)) newvals) @ rest))
      | Err e \<Rightarrow> handleSliceSub env pmAttrs attrSub ch (Suc i) vs
      | Panic \<Rightarrow> Panic
      | Exit \<Rightarrow> Exit)"
| "handleSliceSub env pmAttrs attrSub ch i (v # vs) =
     res_bind (handleSliceSub env pmAttrs attrSub ch (Suc i) vs) (\<lambda>rest. Ok (v # rest))"

text \<open>A schedule for a map of attributes: a visit's choices and the schedule of a nested map.\<close>

datatype sched = Sched "(string \<times> (nat \<Rightarrow> range_order) \<times> sched) list"

lemma sched_nested_smaller [termination_simp]:
  "(k, ch, s) \<in> set sch \<Longrightarrow> size s < Suc (size_list (size_prod (\<lambda>_. 0) (size_prod (\<lambda>_. 0) size)) sch)"
  by (induction sch) auto

definition string_body ::
    "go_env \<Rightarrow> attrs \<Rightarrow> bool \<Rightarrow> range_order \<Rightarrow> string \<Rightarrow> string \<Rightarrow> (string, val) mapop list run" where
  "string_body env pmAttrs attrSub ord param val =
     (case parameterSubstitute env ord (attr_input pmAttrs attrSub param val) of
        Ok newvals \<Rightarrow> Some (Ok (replace_ops param (map (\<lambda>(k, v). (k, VString v)) newvals)))
      | Err e \<Rightarrow> Some (Ok [])
      | Panic \<Rightarrow> Some Panic
      | Exit \<Rightarrow> Some Exit)"

definition slice_body ::
    "go_env \<Rightarrow> attrs \<Rightarrow> bool \<Rightarrow> (nat \<Rightarrow> range_order) \<Rightarrow> string \<Rightarrow> val list \<Rightarrow> (string, val) mapop list run" where
  "slice_body env pmAttrs attrSub ch param vs =
     run_bind (Some (handleSliceSub env pmAttrs attrSub ch 0 vs)) (\<lambda>newslice. Some (Ok [MStore param (VSlice newslice)]))"

function substituteMapVariables :: "go_env \<Rightarrow> attrs \<Rightarrow> bool \<Rightarrow> sched \<Rightarrow> attrs \<Rightarrow> attrs run" where
  "substituteMapVariables env pmAttrs attrSub (Sched sch) params =
     range_loop (\<lambda>(ch, nested) param valAny.
       (case valAny of
          VString s \<Rightarrow> string_body env pmAttrs attrSub (ch 0) param s
        | VMap m \<Rightarrow> run_bind (substituteMapVariables env pmAttrs attrSub nested m)
            (\<lambda>m'. Some (Ok [MStore param (VMap m')]))
        | VStrSlice ss \<Rightarrow> slice_body env pmAttrs attrSub ch param (map VString ss)
        | VSlice vs \<Rightarrow> slice_body env pmAttrs attrSub ch param vs
        | _ \<Rightarrow> Some (Ok []))) sch (range_start params)"
  by pat_completeness auto
termination
  by (relation "measure (\<lambda>(env, pmAttrs, attrSub, s, params). size s)") (auto simp: sched_nested_smaller)

text \<open>The body of that loop, by itself.\<close>

definition attr_body ::
    "go_env \<Rightarrow> attrs \<Rightarrow> bool \<Rightarrow> (nat \<Rightarrow> range_order) \<times> sched \<Rightarrow> string \<Rightarrow> val \<Rightarrow> (string, val) mapop list run" where
  "attr_body env pmAttrs attrSub i param valAny =
     (case valAny of
        VString s \<Rightarrow> string_body env pmAttrs attrSub (fst i 0) param s
      | VMap m \<Rightarrow> run_bind (substituteMapVariables env pmAttrs attrSub (snd i) m)
          (\<lambda>m'. Some (Ok [MStore param (VMap m')]))
      | VStrSlice ss \<Rightarrow> slice_body env pmAttrs attrSub (fst i) param (map VString ss)
      | VSlice vs \<Rightarrow> slice_body env pmAttrs attrSub (fst i) param vs
      | _ \<Rightarrow> Some (Ok []))"

lemma substituteMapVariables_body:
  "substituteMapVariables env a allow (Sched sch) params = range_loop (attr_body env a allow) sch (range_start params)"
proof -
  have "(\<lambda>(ch, nested) param valAny.
       (case valAny of
          VString s \<Rightarrow> string_body env a allow (ch 0) param s
        | VMap m \<Rightarrow> run_bind (substituteMapVariables env a allow nested m)
            (\<lambda>m'. Some (Ok [MStore param (VMap m')]))
        | VStrSlice ss \<Rightarrow> slice_body env a allow ch param (map VString ss)
        | VSlice vs \<Rightarrow> slice_body env a allow ch param vs
        | _ \<Rightarrow> Some (Ok []))) = attr_body env a allow"
    by (auto simp: attr_body_def fun_eq_iff split: val.splits)
  then show ?thesis by simp
qed

text \<open>Induction on the schedule: the nested schedules of a map are smaller.\<close>

lemma sched_nested_induct:
  assumes "\<And>sch. (\<And>k i. (k, i) \<in> set sch \<Longrightarrow> P (snd i)) \<Longrightarrow> P (Sched sch)"
  shows "P s"
proof (induction s rule: measure_induct_rule [of size])
  case (less s)
  obtain sch where s: "s = Sched sch" by (cases s)
  show ?case
    unfolding s
  proof (rule assms)
    fix k and i :: "(nat \<Rightarrow> range_order) \<times> sched"
    assume "(k, i) \<in> set sch"
    then have "size (snd i) < size s"
      using sched_nested_smaller [of k "fst i" "snd i" sch] s by simp
    then show "P (snd i)"
      by (rule less)
  qed
qed

declare substituteMapVariables.simps [simp del]

subsection \<open>The whole payload\<close>

record action_choices =
  ac_attr_sched :: sched
  ac_inputs :: "nat \<Rightarrow> ds_choices"
  ac_outputs :: "nat \<Rightarrow> ds_choices"

record payload_choices =
  pc_attr_sched :: sched
  pc_stores :: "nat \<Rightarrow> sched"
  pc_inputs :: "nat \<Rightarrow> ds_choices"
  pc_outputs :: "nat \<Rightarrow> ds_choices"
  pc_actions :: "nat \<Rightarrow> action_choices"

definition substitute_sources ::
    "go_env \<Rightarrow> (nat \<Rightarrow> ds_choices) \<Rightarrow> attrs \<Rightarrow> DataSource list \<Rightarrow> DataSource list run" where
  "substitute_sources env ch attr dss = run_list (\<lambda>i ds. pathsSubstitute env (ch i) ds attr) 0 dss"

definition substitute_action ::
    "go_env \<Rightarrow> action_choices \<Rightarrow> attrs \<Rightarrow> 's Action \<Rightarrow> 's Action run" where
  "substitute_action env ch pmAttrs action =
     (let im = ac_IOManager action in
      run_bind (substituteMapVariables env pmAttrs True (ac_attr_sched ch) (im_Attributes im)) (\<lambda>attrs.
      let combinedParams = maps_copy pmAttrs attrs in
      run_bind (substitute_sources env (ac_inputs ch) combinedParams (im_Inputs im)) (\<lambda>inputs.
      run_bind (substitute_sources env (ac_outputs ch) combinedParams (im_Outputs im)) (\<lambda>outputs.
      Some (Ok (action \<lparr>ac_IOManager :=
        im \<lparr>im_Attributes := attrs, im_Inputs := inputs, im_Outputs := outputs\<rparr>\<rparr>))))))"

definition substitute_store :: "go_env \<Rightarrow> sched \<Rightarrow> attrs \<Rightarrow> 's DataStore \<Rightarrow> 's DataStore run" where
  "substitute_store env sch pmAttrs store =
     run_bind (substituteMapVariables env pmAttrs True sch (st_Parameters store))
       (\<lambda>params. Some (Ok (store \<lparr>st_Parameters := params\<rparr>)))"

definition substituteVariables :: "go_env \<Rightarrow> payload_choices \<Rightarrow> 's Payload \<Rightarrow> 's Payload run" where
  "substituteVariables env ch pm =
     (let im = pl_IOManager pm in
      run_bind (substituteMapVariables env (im_Attributes im) False (pc_attr_sched ch) (im_Attributes im)) (\<lambda>attrs.
      run_bind (run_list (\<lambda>i. substitute_store env (pc_stores ch i) attrs) 0 (im_Stores im)) (\<lambda>stores.
      run_bind (substitute_sources env (pc_inputs ch) attrs (im_Inputs im)) (\<lambda>inputs.
      run_bind (substitute_sources env (pc_outputs ch) attrs (im_Outputs im)) (\<lambda>outputs.
      run_bind (run_list (\<lambda>i. substitute_action env (pc_actions ch i) attrs) 0 (pl_Actions pm)) (\<lambda>actions.
      Some (Ok (pm \<lparr>pl_IOManager := im \<lparr>im_Attributes := attrs, im_Stores := stores,
        im_Inputs := inputs, im_Outputs := outputs\<rparr>, pl_Actions := actions\<rparr>))))))))"

subsection \<open>What substitution keeps\<close>

lemma substitute_loop_no_attr:
  "AllowAttributeSubstitution input = False \<Longrightarrow>
     substitute_loop env ord n (input \<lparr>Attributes := a\<rparr>) ms out = substitute_loop env ord n input ms out"
proof (induction ms arbitrary: n out)
  case Nil
  then show ?case by simp
next
  case (Cons m ms)
  have "marker_action env a False m = marker_action env (Attributes input) False m"
    by (simp only: marker_action_def simp_thms if_False)
  then have "substitute_match env (ord n) (input \<lparr>Attributes := a\<rparr>) m out = substitute_match env (ord n) input m out"
    using Cons.prems by (simp add: substitute_match_action)
  moreover have "substitute_loop env ord (Suc n) (input \<lparr>Attributes := a\<rparr>) ms = substitute_loop env ord (Suc n) input ms"
    using Cons by (intro ext) blast
  ultimately show ?case
    by simp
qed

lemma attr_input_no_attr:
  "parameterSubstitute env ord (attr_input a False k s) = parameterSubstitute env ord (attr_input b False k s)"
  using substitute_loop_no_attr [of "attr_input b False k s" env ord 0 a]
  by (simp add: parameterSubstitute_def attr_input_def)

lemma handleSliceSub_no_attr: "handleSliceSub env a False ch i vs = handleSliceSub env b False ch i vs"
proof (induction vs arbitrary: i)
  case Nil
  then show ?case by simp
next
  case (Cons v vs)
  then show ?case
    using attr_input_no_attr [of env _ a "[]" _ b] by (cases v) (auto split: res.splits)
qed

text \<open>C13. Where attributes may not be substituted (the payload's own attributes), the result does not
  depend on the attributes at all: a payload attribute can never be built from another one.\<close>

theorem substituteMapVariables_no_attr:
  "substituteMapVariables env a False s params = substituteMapVariables env b False s params"
proof (induction s arbitrary: params rule: sched_nested_induct)
  case (1 sch)
  show ?case
    unfolding substituteMapVariables_body
  proof (rule range_loop_cong)
    fix i k v
    assume "(k, i) \<in> set sch"
    then show "attr_body env a False i k v = attr_body env b False i k v"
      using 1 attr_input_no_attr [of env _ a _ _ b] handleSliceSub_no_attr [of env a _ _ _ b]
      by (auto simp: attr_body_def string_body_def slice_body_def split: val.splits)
  qed simp_all
qed

lemma parameterSubstitute_not_Exit: "parameterSubstitute env ord input \<noteq> Exit"
  by (simp add: parameterSubstitute_def substitute_loop_Exit)

lemma handleSliceSub_outcome: "(\<exists>vs'. handleSliceSub env a b ch i vs = Ok vs') \<or> handleSliceSub env a b ch i vs = Panic"
proof (induction vs arbitrary: i)
  case (Cons v vs)
  show ?case
    using Cons [of "Suc i"] parameterSubstitute_not_Exit by (cases v) (fastforce split: res.splits)+
qed simp

lemma range_loop_outcome:
  assumes "\<And>k i v. (k, i) \<in> set sch \<Longrightarrow> body i k v = None \<or> body i k v = Some Panic \<or> (\<exists>ops. body i k v = Some (Ok ops))"
  shows "range_loop body sch st = None \<or> range_loop body sch st = Some Panic \<or>
    (\<exists>m. range_loop body sch st = Some (Ok m))"
  using assms
proof (induction body sch st rule: range_loop.induct)
  case (1 body st)
  then show ?case by simp
next
  case (2 body k i sch st)
  show ?case
  proof (cases "map_of (rmap st) k")
    case (Some v)
    have "body i k v = None \<or> body i k v = Some Panic \<or> (\<exists>ops. body i k v = Some (Ok ops))"
      using 2 by simp
    then consider "body i k v = None" | "body i k v = Some Panic" | (ok) ops where "body i k v = Some (Ok ops)"
      by (elim disjE exE) simp_all
    then show ?thesis
    proof cases
      case ok
      then show ?thesis
        using 2 Some by simp
    qed (simp_all add: Some)
  qed simp
qed

text \<open>Substituting a map of attributes never returns an error and never ends the process: an
  attribute that cannot be substituted keeps its template. It can only panic.\<close>

theorem substituteMapVariables_outcome:
  "substituteMapVariables env a allow s params = None \<or>
   substituteMapVariables env a allow s params = Some Panic \<or>
   (\<exists>m. substituteMapVariables env a allow s params = Some (Ok m))"
proof (induction s arbitrary: params rule: sched_nested_induct)
  case (1 sch)
  show ?case
    unfolding substituteMapVariables_body
  proof (rule range_loop_outcome)
    fix k v and i :: "(nat \<Rightarrow> range_order) \<times> sched"
    assume i: "(k, i) \<in> set sch"
    have nested: "substituteMapVariables env a allow (snd i) m = None \<or>
        substituteMapVariables env a allow (snd i) m = Some Panic \<or>
        (\<exists>m'. substituteMapVariables env a allow (snd i) m = Some (Ok m'))" for m
      using 1 [OF i] .
    have slice: "slice_body env a allow ch k vs = Some Panic \<or> (\<exists>ops. slice_body env a allow ch k vs = Some (Ok ops))"
      for ch vs
      using handleSliceSub_outcome [of env a allow ch 0 vs] by (auto simp: slice_body_def)
    have string: "string_body env a allow ord k x = Some Panic \<or> (\<exists>ops. string_body env a allow ord k x = Some (Ok ops))"
      for ord x
      using parameterSubstitute_not_Exit [of env ord] by (auto simp: string_body_def split: res.splits)
    show "attr_body env a allow i k v = None \<or> attr_body env a allow i k v = Some Panic \<or>
        (\<exists>ops. attr_body env a allow i k v = Some (Ok ops))"
    proof (cases v)
      case (VMap m)
      then show ?thesis
        using nested [of m] by (auto simp: attr_body_def)
    qed (use slice string in \<open>simp_all add: attr_body_def\<close>)
  qed
qed

subsection \<open>Attributes settle whatever the schedule\<close>

text \<open>Expanding leaves only the markers that stay, so expanding again changes nothing.\<close>

lemma marks_put: "p' \<in> set (marks (map (put p t) segs)) \<longleftrightarrow> p' \<in> set (marks segs) \<and> p' \<noteq> p"
  by (induction segs rule: marks.induct) auto

lemma expansion_keep: "\<forall>p \<in> set ps. meaning p = Keep \<Longrightarrow> expansion meaning ps ks = [ks]"
  by (induction ps) (cases ks; auto)+

lemma expansion_marks:
  assumes "(k', segs') \<in> set (expansion meaning ps (k, segs))" and "\<forall>p \<in> set ps. benign (meaning p)"
    and "list_all wf_seg segs"
  shows "list_all wf_seg segs' \<and> (\<forall>p \<in> set (marks segs'). p \<in> set (marks segs) \<and> (p \<in> set ps \<longrightarrow> meaning p = Keep))"
  using assms
proof (induction ps arbitrary: k segs)
  case Nil
  then show ?case by simp
next
  case (Cons p ps)
  have put: "list_all wf_seg (map (put p t) segs)" if "CHR ''{'' \<notin> set t" for t
    using Cons.prems(3) that by (auto simp: list_all_iff)
  show ?case
  proof (cases "meaning p")
    case Keep
    then show ?thesis
      using Cons.IH [of k segs] Cons.prems by auto
  next
    case (Replace t)
    then show ?thesis
      using Cons.IH [of k "map (put p t) segs"] Cons.prems put [of t] by (auto simp: marks_put)
  next
    case (Inflate es)
    then obtain e where e: "e \<in> set es" "(k', segs') \<in> set (expansion meaning ps (k @ ''-'' @ e, map (put p e) segs))"
      using Cons.prems(1) by auto
    have b: "CHR ''{'' \<notin> set e"
      using Cons.prems(2) Inflate e(1) by (auto simp: list_all_iff)
    have "list_all wf_seg segs' \<and> (\<forall>p' \<in> set (marks segs').
        p' \<in> set (marks (map (put p e) segs)) \<and> (p' \<in> set ps \<longrightarrow> meaning p' = Keep))"
      by (rule Cons.IH [OF e(2) _ put [OF b]]) (use Cons.prems(2) in simp)
    then show ?thesis
      unfolding marks_put by fastforce
  qed (use Cons.prems(2) in auto)
qed

text \<open>What an attribute turns into.\<close>

definition element_outcome :: "go_env \<Rightarrow> attrs \<Rightarrow> bool \<Rightarrow> val \<Rightarrow> val \<Rightarrow> bool" where
  "element_outcome env a allow v v' \<longleftrightarrow> (case v of
     VString s \<Rightarrow> (\<exists>t. v' = VString t \<and> single_text env a allow s t)
   | _ \<Rightarrow> v' = v)"

fun is_atom :: "val \<Rightarrow> bool" where
  "is_atom (VBool b) \<longleftrightarrow> True"
| "is_atom (VInt i) \<longleftrightarrow> True"
| "is_atom (VFloat w) \<longleftrightarrow> True"
| "is_atom VNil \<longleftrightarrow> True"
| "is_atom v \<longleftrightarrow> False"

definition string_entry :: "string \<times> string \<Rightarrow> string \<times> val" where
  "string_entry p = (fst p, VString (snd p))"

inductive attr_outcome :: "go_env \<Rightarrow> attrs \<Rightarrow> bool \<Rightarrow> string \<Rightarrow> val \<Rightarrow> (string \<times> val) set \<Rightarrow> bool"
  for env :: go_env and a :: attrs and allow :: bool where
  template: "list_all wf_seg segs \<Longrightarrow>
      \<forall>p \<in> set (marks segs). benign (marker_action env a allow (seg_match p)) \<Longrightarrow>
      attr_outcome env a allow k (VString (render segs)) (string_entry ` render_line `
        set (expansion (\<lambda>p. marker_action env a allow (seg_match p)) (marks segs) (k, segs)))"
| failing: "(\<And>ord. perm_order ord \<Longrightarrow> \<exists>e. parameterSubstitute env ord (attr_input a allow k s) = Err e) \<Longrightarrow>
      attr_outcome env a allow k (VString s) {(k, VString s)}"
| slice: "list_all2 (element_outcome env a allow) vs vs' \<Longrightarrow>
      attr_outcome env a allow k (VSlice vs) {(k, VSlice vs')}"
| strslice: "list_all2 (single_text env a allow) ss ts \<Longrightarrow>
      attr_outcome env a allow k (VStrSlice ss) {(k, VSlice (map VString ts))}"
| atom: "is_atom v \<Longrightarrow> attr_outcome env a allow k v {(k, v)}"

lemma perm_singleton: "perm_order ord \<Longrightarrow> ord n [p] = [p]"
  using mset_single_iff_right [of p "ord n [p]"] by (auto simp: perm_order_def)

lemma handleSliceSub_elements:
  assumes "\<And>n. perm_order (ch n)" and "list_all2 (element_outcome env a allow) vs vs'"
  shows "handleSliceSub env a allow ch i vs = Ok vs'"
  using assms(2)
proof (induction vs vs' arbitrary: i rule: list_all2_induct)
  case Nil
  then show ?case by simp
next
  case (Cons v vs v' vs')
  show ?case
  proof (cases v)
    case (VString s)
    with Cons.hyps obtain t where "v' = VString t" "single_text env a allow s t"
      by (auto simp: element_outcome_def)
    then show ?thesis
      using VString Cons.IH parameterSubstitute_text [OF assms(1)] perm_singleton [OF assms(1)]
      by (simp add: attr_input_def)
  qed (use Cons in \<open>simp_all add: element_outcome_def\<close>)
qed

lemma parameterSubstitute_string:
  assumes "perm_order ord" and "list_all wf_seg segs"
    and "\<forall>p \<in> set (marks segs). benign (marker_action env a allow (seg_match p))"
  obtains out where "parameterSubstitute env ord (attr_input a allow k (render segs)) = Ok out" "wf_map out"
    "set out = render_line ` set (expansion (\<lambda>p. marker_action env a allow (seg_match p)) (marks segs) (k, segs))"
  using parameterSubstitute_template [OF assms, of k] unfolding attr_input_def by metis

lemma replace_ops_strings:
  "wf_map out \<Longrightarrow> writes (replace_ops k (map (\<lambda>(k, v). (k, VString v)) out)) k v (string_entry ` set out)"
proof -
  assume "wf_map out"
  then have "wf_map (map string_entry out)"
    by (simp add: wf_map_def string_entry_def comp_def)
  moreover have "(\<lambda>(k, v). (k, VString v)) = string_entry"
    by (auto simp: string_entry_def fun_eq_iff)
  ultimately show ?thesis
    using writes.replaces [of "map string_entry out" k v] by simp
qed

lemma attr_body_outcome:
  assumes "attr_outcome env a allow k v E" and "\<And>n. perm_order (fst i n)"
  shows "\<exists>ops. attr_body env a allow i k v = Some (Ok ops) \<and> writes ops k v E"
  using assms(1)
proof cases
  case (template segs)
  from parameterSubstitute_string [OF assms(2) template(3,4)] obtain out where
    "parameterSubstitute env (fst i 0) (attr_input a allow k (render segs)) = Ok out" "wf_map out"
    "set out = render_line ` set (expansion (\<lambda>p. marker_action env a allow (seg_match p)) (marks segs) (k, segs))"
    by blast
  then show ?thesis
    using template replace_ops_strings [of out k v] by (simp add: attr_body_def string_body_def)
next
  case (failing s)
  then obtain e where "parameterSubstitute env (fst i 0) (attr_input a allow k s) = Err e"
    using assms(2) by blast
  with failing show ?thesis
    by (simp add: attr_body_def string_body_def writes.leaves)
next
  case (slice vs vs')
  then show ?thesis
    using handleSliceSub_elements [OF assms(2)] by (simp add: attr_body_def slice_body_def writes.stores)
next
  case (strslice ss ts)
  then have "list_all2 (element_outcome env a allow) (map VString ss) (map VString ts)"
    by (auto simp: list_all2_conv_all_nth element_outcome_def)
  with strslice show ?thesis
    using handleSliceSub_elements [OF assms(2)] by (simp add: attr_body_def slice_body_def writes.stores)
next
  case atom
  then show ?thesis
    by (cases v) (auto simp: attr_body_def intro: writes.leaves)
qed

lemma attr_outcome_again:
  assumes "attr_outcome env a allow k v E" and "(k', v') \<in> E"
  shows "attr_outcome env a allow k' v' {(k', v')}"
  using assms(1)
proof cases
  case (template segs)
  let ?a = "\<lambda>p. marker_action env a allow (seg_match p)"
  from template(2) assms(2) obtain segs' where
    s: "(k', segs') \<in> set (expansion ?a (marks segs) (k, segs))" "v' = VString (render segs')"
    by (auto simp: string_entry_def render_line_def)
  from expansion_marks [OF s(1) template(4,3)] have
    wf: "list_all wf_seg segs'" and keep: "\<forall>p \<in> set (marks segs'). ?a p = Keep"
    by auto
  then have "expansion ?a (marks segs') (k', segs') = [(k', segs')]"
    by (intro expansion_keep) blast
  moreover have "\<forall>p \<in> set (marks segs'). benign (?a p)"
    using keep by simp
  ultimately show ?thesis
    using attr_outcome.template [OF wf, of env a allow k'] s(2) by (simp add: string_entry_def render_line_def)
next
  case (failing s)
  then show ?thesis
    using assms by auto
next
  case (slice vs vs')
  have "element_outcome env a allow y y" if "element_outcome env a allow x y" for x y
    using that single_text_stable by (auto simp: element_outcome_def split: val.splits)
  then have "list_all2 (element_outcome env a allow) vs' vs'"
    using slice(3) by (auto simp: list_all2_conv_all_nth)
  then show ?thesis
    using slice assms(2) attr_outcome.slice by fastforce
next
  case (strslice ss ts)
  then have "list_all2 (element_outcome env a allow) (map VString ts) (map VString ts)"
    using single_text_stable by (auto simp: list_all2_conv_all_nth element_outcome_def)
  then show ?thesis
    using strslice assms(2) attr_outcome.slice by fastforce
next
  case atom
  then show ?thesis
    using assms(2) attr_outcome.atom by fastforce
qed

text \<open>C2. Attributes settle: when no attribute is a nested map, no inflated element disturbs another
  entry and the entries the attributes turn into have different keys, every schedule Go allows
  ends with exactly these entries, although the loop deletes and creates entries of the map it
  ranges over and may visit the created ones.\<close>

theorem substituteMapVariables_settles:
  assumes "wf_map params" and "separate params Out"
    and "\<forall>(k, v) \<in> set params. attr_outcome env a allow k v (Out k)"
    and "\<forall>(k, ch, nested) \<in> set sch. \<forall>n. perm_order (ch n)"
    and "substituteMapVariables env a allow (Sched sch) params = Some r"
  shows "\<exists>out. r = Ok out \<and> wf_map out \<and> set out = (\<Union>k \<in> fst ` set params. Out k)"
proof -
  have "settling (attr_body env a allow) params Out i" if "(k, i) \<in> set sch" for k i
  proof -
    have perm: "perm_order (fst i n)" for n
      using assms(4) that by (cases i) auto
    have "\<exists>ops. attr_body env a allow i k v = Some (Ok ops) \<and> writes ops k v (Out k)"
      if "(k, v) \<in> set params" for k v
      using attr_body_outcome [OF _ perm] assms(3) that by fast
    moreover have "\<exists>ops. attr_body env a allow i k v = Some (Ok ops) \<and> writes ops k v {(k, v)}"
      if "k0 \<in> fst ` set params" "(k, v) \<in> Out k0" for k0 k v
    proof -
      from that(1) obtain v0 where "(k0, v0) \<in> set params" by force
      then have "attr_outcome env a allow k0 v0 (Out k0)"
        using assms(3) by blast
      then show ?thesis
        using attr_body_outcome [OF attr_outcome_again perm] that(2) by blast
    qed
    ultimately show ?thesis
      unfolding settling_def by blast
  qed
  then have "\<forall>(k, i) \<in> set sch. settling (attr_body env a allow) params Out i"
    by blast
  then show ?thesis
    by (rule range_loop_settles [OF assms(1,2) _ assms(5) [unfolded substituteMapVariables_body]])
qed

subsection \<open>Data sources\<close>

lemma parameterSubstitute_plain:
  "CHR ''{'' \<notin> set (Template input) \<Longrightarrow>
     parameterSubstitute env ord input = Ok [(TemplateKey input, Template input)]"
  by (simp add: parameterSubstitute_def find_all_none)

lemma path_input_fields [simp]:
  "TemplateKey (path_input k p attr) = k" "Template (path_input k p attr) = p"
  "Attributes (path_input k p attr) = attr" "AllowAttributeSubstitution (path_input k p attr) = True"
  by (simp_all add: path_input_def)

definition plain_paths :: "string gomap \<Rightarrow> bool" where
  "plain_paths m \<longleftrightarrow> list_all (\<lambda>p. CHR ''{'' \<notin> set (snd p)) m"

lemma plain_path: "plain_paths dp \<Longrightarrow> map_of dp k = Some p \<Longrightarrow>
    parameterSubstitute env ord (path_input k p attr) = Ok [(k, p)]"
  using map_of_SomeD [of dp k p] by (auto simp: plain_paths_def list_all_iff parameterSubstitute_plain)

lemma data_paths_loop_keeps:
  assumes "plain_paths dp"
  shows "data_paths_loop env attr dp sch paths = Some (Ok paths') \<Longrightarrow>
    map_of (nil_map paths') k = (if k \<in> fst ` set sch then map_of dp k else map_of (nil_map paths) k)"
proof (induction sch arbitrary: paths)
  case Nil
  then show ?case by simp
next
  case (Cons x sch)
  obtain k0 ord where x: "x = (k0, ord)" by (cases x)
  from Cons.prems x obtain p where p: "map_of dp k0 = Some p"
    by (auto split: option.splits)
  from Cons.prems x p obtain m where m: "paths = Some m"
    "data_paths_loop env attr dp sch (Some (maps_copy (AList.delete k0 m) [(k0, p)])) = Some (Ok paths')"
    using plain_path [OF assms p, of env ord attr]
    by (cases paths) (auto simp: copy_into_def delete_from_def)
  show ?case
    using Cons.IH [OF m(2)] m(1) x p
    by (auto simp: maps_copy_def gomap_simps)
qed

lemma data_paths_loop_nil_panics:
  assumes "plain_paths dp" and "data_paths_loop env attr dp sch None = Some r" and "sch \<noteq> []"
  shows "r = Panic"
proof -
  obtain k0 ord sch' where x: "sch = (k0, ord) # sch'"
    using assms(3) by (cases sch) auto
  with assms(2) obtain p where p: "map_of dp k0 = Some p"
    by (auto split: option.splits)
  with assms(2) x plain_path [OF assms(1) p, of env ord attr] show ?thesis
    by (simp add: copy_into_def delete_from_def)
qed

text \<open>A successful substitution of a data source leaves its data paths as they are and puts their
  entries among the paths: a data path without markers is found under its key in the paths
  afterwards, whatever the paths held there. The identifier and the store name are kept.\<close>

theorem pathsSubstitute_data_paths:
  assumes "pathsSubstitute env ch ds attr = Some (Ok ds')"
    and "plain_paths (nil_map (ds_DataPaths ds))"
    and "map_of (nil_map (ds_DataPaths ds)) k = Some p"
  shows "ds_DataPaths ds' = ds_DataPaths ds \<and> map_of (nil_map (ds_Paths ds')) k = Some p \<and>
    ds_ID ds' = ds_ID ds \<and> ds_StoreName ds' = ds_StoreName ds"
proof -
  let ?dp = "nil_map (ds_DataPaths ds)"
  obtain paths paths' nameout where
    sch: "mset (map fst (data_sched ch)) = mset (keys ?dp)"
    and loop: "data_paths_loop env attr ?dp (data_sched ch) paths = Some (Ok paths')"
    and ds': "ds' = ds \<lparr>ds_Name := nameout, ds_Paths := paths'\<rparr>"
    using assms(1) by (auto simp: pathsSubstitute_def run_bind_Ok split: option.splits if_splits)
  have "k \<in> fst ` set (data_sched ch)"
    using sch assms(3) mset_eq_setD [OF sch] by (force dest: map_of_SomeD)
  then show ?thesis
    using data_paths_loop_keeps [OF assms(2) loop, of k] assms(3) ds' by simp
qed

text \<open>A data source with data paths and no paths at all cannot be substituted: storing into the
  nil map of paths panics.\<close>

theorem pathsSubstitute_nil_paths:
  assumes "CHR ''{'' \<notin> set (ds_Name ds)" and "ds_Paths ds = None"
    and "ds_DataPaths ds = Some dp" and "dp \<noteq> []" and "plain_paths dp"
    and "pathsSubstitute env ch ds attr = Some r"
  shows "r = Panic"
proof -
  let ?run = "data_paths_loop env attr dp (data_sched ch) None"
  from assms have sch: "mset (map fst (data_sched ch)) = mset (keys dp)"
    and r: "run_bind ?run (\<lambda>paths'. Some (Ok (ds \<lparr>ds_Name := ds_Name ds, ds_Paths := paths'\<rparr>))) = Some r"
    by (auto simp: pathsSubstitute_def parameterSubstitute_plain paths_loop_def split: if_splits)
  from sch assms(4) have "data_sched ch \<noteq> []"
    by auto
  then have "?run = None \<or> ?run = Some Panic"
    using data_paths_loop_nil_panics [OF assms(5), of env attr "data_sched ch"] by (cases ?run) auto
  with r show ?thesis
    by auto
qed

lemma expansion_longer:
  "(k', s') \<in> set (expansion meaning ps (k, segs)) \<Longrightarrow>
     length k \<le> length k' \<and> ((\<exists>p \<in> set ps. \<exists>es. meaning p = Inflate es) \<longrightarrow> length k < length k')"
proof (induction ps arbitrary: k segs)
  case Nil
  then show ?case by simp
next
  case (Cons p ps)
  show ?case
  proof (cases "meaning p")
    case (Inflate es)
    then obtain e where "(k', s') \<in> set (expansion meaning ps (k @ ''-'' @ e, map (put p e) segs))"
      using Cons.prems by auto
    then show ?thesis
      using Cons.IH by fastforce
  qed (use Cons in auto)
qed

text \<open>A data source's name must be one text: a name with a marker that inflates is refused, whatever
  the elements are, even a single one.\<close>

theorem pathsSubstitute_name_inflates:
  assumes "ds_Name ds = render segs" and "list_all wf_seg segs" and "perm_order (name_order ch)"
    and "\<forall>p \<in> set (marks segs). benign (marker_action env attr True (seg_match p))"
    and "\<exists>p \<in> set (marks segs). \<exists>es. marker_action env attr True (seg_match p) = Inflate es"
  shows "pathsSubstitute env ch ds attr =
    Some (Err (Errorf ''invalid data source name substitution for %s'' [ds_Name ds]))"
proof -
  obtain out where out: "parameterSubstitute env (name_order ch) (path_input ''name'' (ds_Name ds) attr) = Ok out"
    "wf_map out" "set out = render_line ` set (expansion (\<lambda>p. marker_action env attr True (seg_match p))
      (marks segs) (''name'', segs))"
    using parameterSubstitute_template [OF assms(3,2,4), of "''name''"] assms(1)
    unfolding path_input_def by metis
  have "''name'' \<notin> fst ` set out"
    unfolding out(3) using expansion_longer assms(5) by (fastforce simp: render_line_def)
  then have "map_of out ''name'' = None"
    by (simp add: map_of_eq_None_iff)
  then show ?thesis
    using out(1) by (simp add: pathsSubstitute_def)
qed

text \<open>The body of the loop over the paths replaces a template by its expansion, and what it writes is left alone
  when it comes up again.\<close>

lemma paths_body_template:
  assumes "perm_order ord" and "list_all wf_seg ss" and "\<forall>q \<in> set (marks ss). benign (marker_action env attr True (seg_match q))"
  shows "\<exists>ops. paths_body env attr ord k (render ss) = Some (Ok ops) \<and>
    writes ops k (render ss) (render_line ` set (expansion (\<lambda>q. marker_action env attr True (seg_match q)) (marks ss) (k, ss)))"
proof -
  obtain out where "parameterSubstitute env ord (path_input k (render ss) attr) = Ok out" "wf_map out"
    "set out = render_line ` set (expansion (\<lambda>q. marker_action env attr True (seg_match q)) (marks ss) (k, ss))"
    using parameterSubstitute_template [OF assms, of k] unfolding path_input_def by metis
  then show ?thesis
    using writes.replaces [of out k "render ss"] by (simp add: paths_body_def)
qed

lemma paths_body_settling:
  assumes m: "\<forall>(k, p) \<in> set m. p = render (segs k) \<and> list_all wf_seg (segs k) \<and>
       (\<forall>q \<in> set (marks (segs k)). benign (marker_action env attr True (seg_match q)))"
    and ord: "perm_order ord"
  shows "settling (paths_body env attr) m (\<lambda>k. render_line ` set (expansion (\<lambda>q. marker_action env attr True (seg_match q))
       (marks (segs k)) (k, segs k))) ord" (is "settling _ _ ?Out _")
  unfolding settling_def
proof (intro conjI ballI)
  fix x assume "x \<in> set m"
  then show "case x of (k, v) \<Rightarrow> \<exists>ops. paths_body env attr ord k v = Some (Ok ops) \<and> writes ops k v (?Out k)"
    using m paths_body_template [OF ord] by (cases x) auto
next
  let ?a = "\<lambda>q. marker_action env attr True (seg_match q)"
  fix k0 x assume "k0 \<in> fst ` set m" and x: "x \<in> ?Out k0"
  then obtain k s where ks: "(k, s) \<in> set (expansion ?a (marks (segs k0)) (k0, segs k0))" "x = (k, render s)"
    by (auto simp: render_line_def)
  have "list_all wf_seg (segs k0)" "\<forall>q \<in> set (marks (segs k0)). benign (?a q)"
    using m \<open>k0 \<in> fst ` set m\<close> by auto
  from expansion_marks [OF ks(1) this(2,1)] have
    wf: "list_all wf_seg s" and keep: "\<forall>p \<in> set (marks s). ?a p = Keep"
    by auto
  have "expansion ?a (marks s) (k, s) = [(k, s)]"
    using keep by (intro expansion_keep) blast
  then show "case x of (k, v) \<Rightarrow> \<exists>ops. paths_body env attr ord k v = Some (Ok ops) \<and> writes ops k v {(k, v)}"
    using paths_body_template [OF ord wf, of env attr k] keep ks(2) by (simp add: render_line_def)
qed


subsection \<open>The whole payload\<close>

lemma pathsSubstitute_frame:
  assumes "pathsSubstitute env ch ds attr = Some (Ok ds')"
  shows "ds_ID ds' = ds_ID ds \<and> ds_DataPaths ds' = ds_DataPaths ds \<and> ds_StoreName ds' = ds_StoreName ds"
  using assms by (auto simp: pathsSubstitute_def run_bind_Ok split: option.splits if_splits)

lemma run_list_frame:
  assumes "run_list f i xs = Some (Ok ys)" and "\<And>n x y. f n x = Some (Ok y) \<Longrightarrow> g y = g x"
  shows "map g ys = map g xs"
  using assms unfolding run_list_Ok by (intro nth_equalityI) auto

definition source_frame :: "DataSource \<Rightarrow> string option \<times> string gomap option \<times> string" where
  "source_frame ds = (ds_ID ds, ds_DataPaths ds, ds_StoreName ds)"

definition store_frame :: "'s DataStore \<Rightarrow> string \<times> string option \<times> string \<times> string \<times> 's option" where
  "store_frame st = (st_Name st, st_ID st, st_StoreType st, st_DsProfile st, st_Session st)"

definition action_frame where
  "action_frame ac = (ac_Name ac, ac_Type ac, ac_Description ac, im_Stores (ac_IOManager ac),
     im_parent (ac_IOManager ac), map source_frame (im_Inputs (ac_IOManager ac)),
     map source_frame (im_Outputs (ac_IOManager ac)))"

lemma substitute_sources_frame:
  assumes "substitute_sources env ch attr dss = Some (Ok dss')"
  shows "map source_frame dss' = map source_frame dss"
  using assms unfolding substitute_sources_def source_frame_def
  by (rule run_list_frame) (auto dest: pathsSubstitute_frame)

lemma substitute_action_frame:
  "substitute_action env ch attrs ac = Some (Ok ac') \<Longrightarrow> action_frame ac' = action_frame ac"
  by (auto simp: substitute_action_def Let_def run_bind_Ok action_frame_def dest!: substitute_sources_frame)

lemma substitute_store_frame:
  "substitute_store env sch attrs st = Some (Ok st') \<Longrightarrow> store_frame st' = store_frame st"
  by (auto simp: substitute_store_def run_bind_Ok store_frame_def)


subsection \<open>Instances\<close>

definition in_order :: range_order where
  "in_order = (\<lambda>n m. m)"

lemma perm_in_order: "perm_order in_order"
  by (simp add: perm_order_def in_order_def)

definition visits :: "string list \<Rightarrow> sched" where
  "visits ks = Sched (map (\<lambda>k. (k, (\<lambda>_. in_order), Sched [])) ks)"

definition demo_segs :: "seg list" where
  "demo_segs = [Lit ''/'', Mark ''{ENV::S[]}'']"

abbreviation demo_expansion :: "attrs \<Rightarrow> bool \<Rightarrow> (string \<times> seg list) list" where
  "demo_expansion a allow \<equiv> expansion (\<lambda>p. marker_action demo_env a allow (seg_match p)) (marks demo_segs) (''p'', demo_segs)"

lemma demo_segs_facts:
  "list_all wf_seg demo_segs" "render demo_segs = ''/{ENV::S[]}''"
  "\<forall>p \<in> set (marks demo_segs). benign (marker_action demo_env [] allow (seg_match p))"
  "demo_expansion [] allow = [(''p-a'', [Lit ''/'', Lit ''a'']), (''p-b'', [Lit ''/'', Lit ''b''])]"
  "\<exists>p \<in> set (marks demo_segs). \<exists>es. marker_action demo_env [] allow (seg_match p) = Inflate es"
proof -
  have m: "marks demo_segs = [''{ENV::S[]}'']"
    by (simp add: demo_segs_def)
  have a: "marker_action demo_env [] allow (seg_match ''{ENV::S[]}'') = Inflate [''a'', ''b'']"
  proof -
    have "seg_match ''{ENV::S[]}'' = marker_match ''ENV'' ''S'' AllIndex"
      by code_simp
    then show ?thesis
      by (simp add: marker_action_def decode_marker_match slice_action_def demo_env_def)
  qed
  show "list_all wf_seg demo_segs" "render demo_segs = ''/{ENV::S[]}''"
    by code_simp+
  show "\<forall>p \<in> set (marks demo_segs). benign (marker_action demo_env [] allow (seg_match p))"
    and "\<exists>p \<in> set (marks demo_segs). \<exists>es. marker_action demo_env [] allow (seg_match p) = Inflate es"
    by (simp_all add: m a)
  show "demo_expansion [] allow = [(''p-a'', [Lit ''/'', Lit ''a'']), (''p-b'', [Lit ''/'', Lit ''b''])]"
    by (simp add: m a) (simp add: demo_segs_def)
qed

definition demo_params :: attrs where
  "demo_params = [(''p'', VString ''/{ENV::S[]}''), (''q'', VInt 3)]"

text \<open>A run that visits an entry the loop created.\<close>

lemma demo_run:
  "substituteMapVariables demo_env [] False (visits [''p'', ''p-a'', ''q'']) demo_params
     = Some (Ok [(''q'', VInt 3), (''p-b'', VString ''/b''), (''p-a'', VString ''/a'')])"
  unfolding demo_env_def by code_simp

theorem substituteMapVariables_settles_witness:
  "\<exists>out. Ok [(''q'', VInt 3), (''p-b'', VString ''/b''), (''p-a'', VString ''/a'')] = Ok out \<and> wf_map out \<and>
     set out = {(''p-a'', VString ''/a''), (''p-b'', VString ''/b''), (''q'', VInt 3)}"
proof -
  let ?Out = "\<lambda>k. if k = ''p'' then {(''p-a'', VString ''/a''), (''p-b'', VString ''/b'')} else {(k, VInt 3)}"
  have "attr_outcome demo_env [] False ''p'' (VString (render demo_segs))
      (string_entry ` render_line ` set (demo_expansion [] False))"
    by (rule attr_outcome.template) (rule demo_segs_facts)+
  then have "attr_outcome demo_env [] False ''p'' (VString ''/{ENV::S[]}'') (?Out ''p'')"
    by (simp add: demo_segs_facts string_entry_def render_line_def)
  moreover have "attr_outcome demo_env [] False ''q'' (VInt 3) (?Out ''q'')"
    by (simp add: attr_outcome.atom)
  ultimately have o: "\<forall>(k, v) \<in> set demo_params. attr_outcome demo_env [] False k v (?Out k)"
    by (simp add: demo_params_def)
  have s: "separate demo_params ?Out" and w: "wf_map demo_params"
    by (simp_all add: demo_params_def separate_def wf_map_def)
  show ?thesis
    using substituteMapVariables_settles [OF w s o _ demo_run [unfolded visits_def]]
    by (simp add: perm_in_order demo_params_def insert_commute)
qed

definition demo_ds :: DataSource where
  "demo_ds = \<lparr>ds_Name = ''n'', ds_ID = None, ds_Paths = Some [(''p'', ''/{ENV::S[]}'')], ds_DataPaths = None,
     ds_StoreName = ''s''\<rparr>"

definition demo_choices :: ds_choices where
  "demo_choices = \<lparr>name_order = in_order, paths_sched = [(''p'', in_order), (''p-b'', in_order)], data_sched = []\<rparr>"

lemma demo_ds_run:
  "pathsSubstitute demo_env demo_choices demo_ds [] =
     Some (Ok (demo_ds \<lparr>ds_Paths := Some [(''p-a'', ''/a''), (''p-b'', ''/b'')]\<rparr>))"
  unfolding demo_env_def by code_simp


definition dp_ds :: DataSource where
  "dp_ds = \<lparr>ds_Name = ''n'', ds_ID = None, ds_Paths = Some [], ds_DataPaths = Some [(''d'', ''x'')], ds_StoreName = ''s''\<rparr>"

definition dp_choices :: ds_choices where
  "dp_choices = \<lparr>name_order = in_order, paths_sched = [], data_sched = [(''d'', in_order)]\<rparr>"

theorem pathsSubstitute_data_paths_witness:
  "ds_DataPaths (dp_ds \<lparr>ds_Paths := Some [(''d'', ''x'')]\<rparr>) = ds_DataPaths dp_ds \<and>
     map_of (nil_map (ds_Paths (dp_ds \<lparr>ds_Paths := Some [(''d'', ''x'')]\<rparr>))) ''d'' = Some ''x'' \<and>
     ds_ID (dp_ds \<lparr>ds_Paths := Some [(''d'', ''x'')]\<rparr>) = ds_ID dp_ds \<and>
     ds_StoreName (dp_ds \<lparr>ds_Paths := Some [(''d'', ''x'')]\<rparr>) = ds_StoreName dp_ds"
proof -
  have "pathsSubstitute demo_env dp_choices dp_ds [] = Some (Ok (dp_ds \<lparr>ds_Paths := Some [(''d'', ''x'')]\<rparr>))"
    unfolding demo_env_def by code_simp
  moreover have "plain_paths (nil_map (ds_DataPaths dp_ds))" "map_of (nil_map (ds_DataPaths dp_ds)) ''d'' = Some ''x''"
    by code_simp+
  ultimately show ?thesis
    by (rule pathsSubstitute_data_paths)
qed

theorem pathsSubstitute_nil_paths_witness:
  "pathsSubstitute demo_env dp_choices (dp_ds \<lparr>ds_Paths := None\<rparr>) [] = Some Panic"
proof -
  have run: "pathsSubstitute demo_env dp_choices (dp_ds \<lparr>ds_Paths := None\<rparr>) [] = Some Panic"
    unfolding demo_env_def by code_simp
  have "(Panic :: DataSource res) = Panic"
    using pathsSubstitute_nil_paths [of "dp_ds \<lparr>ds_Paths := None\<rparr>" "[(''d'', ''x'')]" demo_env dp_choices "[]", OF _ _ _ _ _ run]
    by (simp add: dp_ds_def plain_paths_def)
  then show ?thesis
    using run by simp
qed

theorem pathsSubstitute_name_inflates_witness:
  "pathsSubstitute demo_env dp_choices (dp_ds \<lparr>ds_Name := ''/{ENV::S[]}''\<rparr>) [] =
     Some (Err (Errorf ''invalid data source name substitution for %s'' [''/{ENV::S[]}'']))"
  using pathsSubstitute_name_inflates [of "dp_ds \<lparr>ds_Name := ''/{ENV::S[]}''\<rparr>" demo_segs dp_choices demo_env "[]"]
    demo_segs_facts
  by (simp add: dp_choices_def perm_in_order)

definition demo_payload :: "unit Payload" where
  "demo_payload = \<lparr>pl_IOManager = \<lparr>im_Attributes = demo_params, im_Stores = [], im_Inputs = [demo_ds],
     im_Outputs = [], im_parent = None\<rparr>, pl_Actions = []\<rparr>"

definition demo_payload_choices :: payload_choices where
  "demo_payload_choices = \<lparr>pc_attr_sched = visits [''q'', ''p''], pc_stores = (\<lambda>_. visits []),
     pc_inputs = (\<lambda>_. demo_choices), pc_outputs = (\<lambda>_. demo_choices),
     pc_actions = (\<lambda>_. \<lparr>ac_attr_sched = visits [], ac_inputs = (\<lambda>_. demo_choices), ac_outputs = (\<lambda>_. demo_choices)\<rparr>)\<rparr>"

lemma demo_payload_run:
  "\<exists>pm'. substituteVariables demo_env demo_payload_choices demo_payload = Some (Ok pm')"
proof -
  have "(case substituteVariables demo_env demo_payload_choices demo_payload of Some r \<Rightarrow> is_ok r | None \<Rightarrow> False)"
    unfolding demo_env_def by code_simp
  then show ?thesis
    by (auto simp: is_ok_iff split: option.splits)
qed


end
