(* ===== verification/Plugin_Manager.thy ===== *)
theory Plugin_Manager
  imports IO_Operations Payload_Substitution
begin

section \<open>The plugin manager\<close>

text \<open>
  \<open>InitPluginManager\<close> (reading the payload, substituting it, connecting the stores and linking
  the actions to the manager) and \<open>RunActions\<close> of \<^verbatim>\<open>pluginmanager.go\<close>, with the registry of
  action runners. The manager's \<open>IOManager\<close> lives at address 0 of the heap, which is where the
  parent pointers of the actions lead. Logging is left out.
\<close>

subsection \<open>Initialisation\<close>

record ('w, 'c) PluginManager =
  pm_EventIdentifier :: string
  pm_ccStore :: 'c
  pm_IOManager :: "'w manager"
  pm_Actions :: "'w session Action list"

definition pm_heap :: "('w, 'c) PluginManager \<Rightarrow> 'w session heap" where
  "pm_heap pm = (\<lambda>_. pm_IOManager pm)"

definition wrap_err :: "string \<Rightarrow> 'a res \<Rightarrow> 'a res" where
  "wrap_err fmt r = (case r of Err e \<Rightarrow> Err (Wrapf fmt [] e) | _ \<Rightarrow> r)"

text \<open>The loop over the actions.\<close>

definition link_action :: "'w registry \<Rightarrow> 'w session Action \<Rightarrow> 'w session Action res" where
  "link_action registry action =
     (let im = SetParent 0 (ac_IOManager action) in
      res_bind (connectStores registry (im_Stores im)) (\<lambda>stores.
        Ok (action \<lparr>ac_IOManager := im \<lparr>im_Stores := stores\<rparr>\<rparr>)))"

text \<open>
  The store of the compute (\<open>newCcStore\<close>, \<open>getPayload\<close>) is an argument; \<open>getenv\<close> is that of the
  environment.
\<close>

definition InitPluginManager ::
    "go_env \<Rightarrow> payload_choices \<Rightarrow> 'w registry \<Rightarrow> (string \<Rightarrow> 'w file_store res) \<Rightarrow> 'c res \<Rightarrow>
     ('c \<Rightarrow> 'w session Payload res) \<Rightarrow> ('w, 'c) PluginManager run" where
  "InitPluginManager env ch registry0 newS3 newCcStore getPayload =
     (let registry = registerStoreTypes newS3 registry0 in
      run_bind (Some (wrap_err ''failed to create store: %w'' newCcStore)) (\<lambda>store.
      run_bind (Some (wrap_err ''failed to get payload: %w'' (getPayload store))) (\<lambda>payload.
      run_bind (substituteVariables env ch payload) (\<lambda>pm.
      run_bind (Some (connectStores registry (im_Stores (pl_IOManager pm)))) (\<lambda>stores.
      run_bind (Some (res_map (link_action registry) (pl_Actions pm))) (\<lambda>actions.
      Some (Ok \<lparr>pm_EventIdentifier = getenv env ''CC_EVENT_IDENTIFIER'', pm_ccStore = store,
        pm_IOManager = (pl_IOManager pm) \<lparr>im_Stores := stores\<rparr>, pm_Actions = actions\<rparr>)))))))"

text \<open>The number of retries is a variable of the package that nothing reads; it is set first.\<close>

record PluginManagerConfig =
  pc_MaxRetry :: int

definition maxretry :: int where
  "maxretry = 100"

definition InitPluginManagerWithConfig ::
    "go_env \<Rightarrow> payload_choices \<Rightarrow> 'w registry \<Rightarrow> (string \<Rightarrow> 'w file_store res) \<Rightarrow> 'c res \<Rightarrow>
     ('c \<Rightarrow> 'w session Payload res) \<Rightarrow> PluginManagerConfig \<Rightarrow> int \<times> ('w, 'c) PluginManager run" where
  "InitPluginManagerWithConfig env ch registry newS3 newCcStore getPayload config =
     (pc_MaxRetry config, InitPluginManager env ch registry newS3 newCcStore getPayload)"

subsection \<open>Running the actions\<close>

text \<open>
  The struct \<open>RunActions\<close> makes for a run: the fields it sets by reflection, and the zero value
  of the flag. A registered runner is a pointer to such a struct; what \<open>RunActions\<close> uses of it
  is its type, that is its \<^verbatim>\<open>Run\<close> method, which may fail and may change its struct.
\<close>

record ('w, 'c) runner_struct =
  rs_ActionName :: string
  rs_ContinueOnError :: bool
  rs_PluginManager :: "('w, 'c) PluginManager"
  rs_Action :: "'w session Action"

definition arb_GetName :: "('w, 'c) runner_struct \<Rightarrow> string" where
  "arb_GetName arb = rs_ActionName arb"

definition arb_SetName :: "string \<Rightarrow> ('w, 'c) runner_struct \<Rightarrow> ('w, 'c) runner_struct" where
  "arb_SetName name arb = arb \<lparr>rs_ActionName := name\<rparr>"

record ('w, 'c) runner =
  rn_Run :: "('w, 'c) runner_struct \<Rightarrow> ('w, go_error option \<times> ('w, 'c) runner_struct) io"
  rn_ContinueOnError :: bool

type_synonym ('w, 'c) runner_registry = "('w, 'c) runner gomap"

definition RegisterAction ::
    "string \<Rightarrow> ('w, 'c) runner \<Rightarrow> ('w, 'c) runner_registry \<Rightarrow> ('w, 'c) runner_registry" where
  "RegisterAction actionName r arr = AList.update actionName r arr"

definition run_runner ::
    "('w, 'c) PluginManager \<Rightarrow> 'w session Action \<Rightarrow> string \<times> ('w, 'c) runner \<Rightarrow> ('w, unit) io" where
  "run_runner pm action entry = (case entry of (runnerName, r) \<Rightarrow>
     if ac_Name action = runnerName then
       io_bind (rn_Run r \<lparr>rs_ActionName = runnerName, rs_ContinueOnError = False, rs_PluginManager = pm, rs_Action = action\<rparr>)
         (\<lambda>(err, structType). case err of
            Some e \<Rightarrow>
              if \<not> rs_ContinueOnError structType then io_err (Wrapf ''error running %s: %s'' [runnerName] e)
              else io_return ()
          | None \<Rightarrow> io_return ())
     else io_return ())"

text \<open>Every action ranges over the registry; \<open>ord\<close> is the order of the n-th such loop.\<close>

fun run_actions ::
    "(nat \<Rightarrow> ('w, 'c) runner_registry \<Rightarrow> ('w, 'c) runner_registry) \<Rightarrow> ('w, 'c) runner_registry \<Rightarrow>
     ('w, 'c) PluginManager \<Rightarrow> nat \<Rightarrow> 'w session Action list \<Rightarrow> ('w, unit) io" where
  "run_actions ord registry pm n [] = io_return ()"
| "run_actions ord registry pm n (action # actions) =
     io_bind (run_each (run_runner pm action) (ord n registry))
       (\<lambda>_. run_actions ord registry pm (Suc n) actions)"

definition RunActions ::
    "(nat \<Rightarrow> ('w, 'c) runner_registry \<Rightarrow> ('w, 'c) runner_registry) \<Rightarrow> ('w, 'c) runner_registry \<Rightarrow>
     ('w, 'c) PluginManager \<Rightarrow> ('w, unit) io" where
  "RunActions ord registry pm = run_actions ord registry pm 0 (pm_Actions pm)"

definition runner_find :: "('w, 'c) runner_registry \<Rightarrow> string \<Rightarrow> ('w, 'c) runner option" where
  "runner_find arr = map_of arr"

interpretation action_registry: keyed_registry RegisterAction runner_find
  by unfold_locales (simp add: RegisterAction_def runner_find_def gomap_simps)

subsection \<open>Properties of the initialisation\<close>

lemma InitPluginManager_parts:
  assumes "InitPluginManager env ch registry newS3 newCcStore getPayload = Some (Ok pm)"
  obtains payload pm0 stores where "substituteVariables env ch payload = Some (Ok pm0)"
    "newCcStore = Ok (pm_ccStore pm)" "getPayload (pm_ccStore pm) = Ok payload"
    "connectStores (registerStoreTypes newS3 registry) (im_Stores (pl_IOManager pm0)) = Ok stores"
    "res_map (link_action (registerStoreTypes newS3 registry)) (pl_Actions pm0) = Ok (pm_Actions pm)"
    "pm_IOManager pm = (pl_IOManager pm0) \<lparr>im_Stores := stores\<rparr>"
proof -
  obtain store payload pm0 stores actions where
    1: "wrap_err ''failed to create store: %w'' newCcStore = Ok store"
    and 2: "wrap_err ''failed to get payload: %w'' (getPayload store) = Ok payload"
    and 3: "substituteVariables env ch payload = Some (Ok pm0)"
    and 4: "connectStores (registerStoreTypes newS3 registry) (im_Stores (pl_IOManager pm0)) = Ok stores"
    and 5: "res_map (link_action (registerStoreTypes newS3 registry)) (pl_Actions pm0) = Ok actions"
    and 6: "pm = \<lparr>pm_EventIdentifier = getenv env ''CC_EVENT_IDENTIFIER'', pm_ccStore = store,
        pm_IOManager = (pl_IOManager pm0) \<lparr>im_Stores := stores\<rparr>, pm_Actions = actions\<rparr>"
    using assms by (auto simp: InitPluginManager_def Let_def run_bind_Ok)
  have "newCcStore = Ok store" "getPayload store = Ok payload"
    using 1 2 by (auto simp: wrap_err_def split: res.splits)
  then show ?thesis
    using 3 4 5 6 by (intro that) simp_all
qed

lemma link_action_parent: "link_action registry a = Ok a' \<Longrightarrow> im_parent (ac_IOManager a') = Some 0"
  by (auto simp: link_action_def SetParent_def Let_def res_bind_eq_Ok)

lemma res_map_all: "res_map f xs = Ok ys \<Longrightarrow> (\<And>x y. f x = Ok y \<Longrightarrow> P y) \<Longrightarrow> y \<in> set ys \<Longrightarrow> P y"
  by (induction xs arbitrary: ys) (auto simp: res_bind_eq_Ok)

text \<open>C16. In an initialised plugin manager a store looked up from an action is the action's own store of
  that name, else the manager's, else an error: the lookup always returns.\<close>

theorem action_GetStore:
  assumes "InitPluginManager env ch registry newS3 newCcStore getPayload = Some (Ok pm)"
    and "\<And>store payload. newCcStore = Ok store \<Longrightarrow> getPayload store = Ok payload \<Longrightarrow> im_parent (pl_IOManager payload) = None"
    and "action \<in> set (pm_Actions pm)"
  shows "GetStore (pm_heap pm) (ac_IOManager action) name =
    Some (case own_store (ac_IOManager action) name of
        Some s \<Rightarrow> Ok s
      | None \<Rightarrow> (case own_store (pm_IOManager pm) name of
          Some s \<Rightarrow> Ok s
        | None \<Rightarrow> Err (Errorf ''invalid store name: %s'' [name])))"
proof -
  obtain payload pm0 stores where init: "substituteVariables env ch payload = Some (Ok pm0)"
    "newCcStore = Ok (pm_ccStore pm)" "getPayload (pm_ccStore pm) = Ok payload"
    "res_map (link_action (registerStoreTypes newS3 registry)) (pl_Actions pm0) = Ok (pm_Actions pm)"
    "pm_IOManager pm = (pl_IOManager pm0) \<lparr>im_Stores := stores\<rparr>"
    using InitPluginManager_parts [OF assms(1)] by metis
  have up: "im_parent (ac_IOManager action) = Some 0"
    using res_map_all [OF init(4) link_action_parent assms(3)] .
  obtain attrs inputs outputs stores' actions where
    "pm0 = payload \<lparr>pl_IOManager := (pl_IOManager payload) \<lparr>im_Attributes := attrs, im_Stores := stores',
        im_Inputs := inputs, im_Outputs := outputs\<rparr>, pl_Actions := actions\<rparr>"
    using init(1) by (auto simp: substituteVariables_def Let_def run_bind_Ok)
  then have top: "im_parent (pm_IOManager pm) = None"
    using assms(2) [OF init(2,3)] init(5) by simp
  show ?thesis
    using store_scope.get_own store_scope.get_up [OF _ up] store_scope.get_top [OF _ top]
    by (auto simp: pm_heap_def split: option.splits)
qed

text \<open>Every store of an initialised manager and of its actions is connected: it is an S3 store with
  the session its profile and root give, or a mounted file system without a session.\<close>

theorem InitPluginManager_connected:
  assumes "InitPluginManager env ch [] newS3 newCcStore getPayload = Some (Ok pm)"
  shows "list_all (connected_store newS3) (im_Stores (pm_IOManager pm)) \<and>
    list_all (\<lambda>a. list_all (connected_store newS3) (im_Stores (ac_IOManager a))) (pm_Actions pm)"
proof (rule InitPluginManager_parts [OF assms])
  fix payload pm0 stores
  assume init: "connectStores (registerStoreTypes newS3 []) (im_Stores (pl_IOManager pm0)) = Ok stores"
    "res_map (link_action (registerStoreTypes newS3 [])) (pl_Actions pm0) = Ok (pm_Actions pm)"
    "pm_IOManager pm = (pl_IOManager pm0) \<lparr>im_Stores := stores\<rparr>"
  have "list_all (connected_store newS3) (im_Stores (ac_IOManager y))" if "link_action (registerStoreTypes newS3 []) x = Ok y" for x y
    using that by (auto simp: link_action_def SetParent_def Let_def res_bind_eq_Ok dest: connectStores_connected)
  then have "list_all (connected_store newS3) (im_Stores (ac_IOManager a))" if "a \<in> set (pm_Actions pm)" for a
    using res_map_all [OF init(2) _ that, of "\<lambda>a. list_all (connected_store newS3) (im_Stores (ac_IOManager a))"] by blast
  then show ?thesis
    using connectStores_connected [OF init(1)] init(3) by (simp add: list_all_iff)
qed

subsection \<open>Properties of running the actions\<close>

text \<open>What an action runs: the runner registered under its name, if any.\<close>

definition run_named ::
    "('w, 'c) runner_registry \<Rightarrow> ('w, 'c) PluginManager \<Rightarrow> 'w session Action \<Rightarrow> ('w, unit) io" where
  "run_named registry pm action = (case map_of registry (ac_Name action) of
     Some r \<Rightarrow> run_runner pm action (ac_Name action, r)
   | None \<Rightarrow> io_return ())"

lemma io_bind_return [simp]: "io_bind (io_return ()) f = f ()"
  by (simp add: io_bind_def io_return_def fun_eq_iff)

lemma io_bind_unit [simp]: "io_bind m (\<lambda>_. io_return ()) = (m :: ('w, unit) io)"
  by (auto simp: io_bind_def io_return_def fun_eq_iff split: option.splits res.splits)

lemma io_bind_right [simp]: "io_bind m io_return = m"
  by (auto simp: io_bind_def io_return_def fun_eq_iff split: option.splits res.splits)

lemma io_bind_assoc: "io_bind (io_bind m f) g = io_bind m (\<lambda>x. io_bind (f x) g)"
  by (auto simp: io_bind_def fun_eq_iff split: option.splits res.splits)

lemma run_each_other:
  "ac_Name action \<notin> set (keys es) \<Longrightarrow> run_each (run_runner pm action) es = io_return ()"
  by (induction es) (auto simp: run_runner_def)

lemma run_each_named:
  "distinct (keys es) \<Longrightarrow> run_each (run_runner pm action) es = run_named es pm action"
proof (induction es)
  case Nil
  then show ?case by (simp add: run_named_def)
next
  case (Cons e es)
  obtain name r where e: "e = (name, r)" by (cases e)
  show ?case
  proof (cases "ac_Name action = name")
    case True
    then have "ac_Name action \<notin> set (keys es)"
      using Cons.prems e by simp
    then have "run_each (run_runner pm action) es = io_return ()"
      by (rule run_each_other)
    then show ?thesis
      using True e by (simp add: run_named_def)
  next
    case False
    then have "run_runner pm action e = io_return ()"
      by (simp add: run_runner_def e)
    then show ?thesis
      using False e Cons by (simp add: run_named_def)
  qed
qed

lemma run_actions_named:
  assumes "wf_map registry" and "\<forall>n. mset (ord n registry) = mset registry"
  shows "run_actions ord registry pm n actions = run_each (run_named registry pm) actions"
proof (induction actions arbitrary: n)
  case Nil
  then show ?case by simp
next
  case (Cons action actions)
  have "mset (ord n registry) = mset registry"
    using assms(2) by blast
  then have o: "wf_map (ord n registry)" "map_of (ord n registry) = map_of registry"
    using mset_same_map [OF assms(1)] by blast+
  have "run_each (run_runner pm action) (ord n registry) = run_named registry pm action"
    using run_each_named [of "ord n registry" pm action] o by (simp add: wf_map_def run_named_def)
  then show ?case
    using Cons by simp
qed

text \<open>C24. Running the actions runs, for each action in order, the runner registered under its name,
  whatever order the registry is visited in; an action without a runner is skipped without a
  word.\<close>

theorem RunActions_lookup:
  assumes "wf_map registry" and "\<forall>n. mset (ord n registry) = mset registry"
  shows "RunActions ord registry pm = run_each (run_named registry pm) (pm_Actions pm)"
  unfolding RunActions_def by (rule run_actions_named [where ord = ord and registry = registry, OF assms])

lemma run_each_append: "run_each f (xs @ ys) = io_bind (run_each f xs) (\<lambda>_. run_each f ys)"
proof (induction xs)
  case (Cons x xs)
  then show ?case
    by (simp add: io_bind_assoc)
qed simp

text \<open>C25. The flag a runner is registered with does not count: when a run that leaves its own flag alone
  fails, the actions after it do not run and the error is returned, also for a runner registered
  to continue on errors.\<close>

theorem RunActions_stops:
  assumes "wf_map registry" and "\<forall>n. mset (ord n registry) = mset registry"
    and "pm_Actions pm = before @ action # after"
    and "run_each (run_named registry pm) before w = Some (Ok (), w1)"
    and "map_of registry (ac_Name action) = Some r" and "rn_ContinueOnError r"
    and "rn_Run r \<lparr>rs_ActionName = ac_Name action, rs_ContinueOnError = False, rs_PluginManager = pm, rs_Action = action\<rparr> w1
      = Some (Ok (Some e, struct), w2)" and "\<not> rs_ContinueOnError struct"
  shows "RunActions ord registry pm w = Some (Err (Wrapf ''error running %s: %s'' [ac_Name action] e), w2)"
proof -
  have "run_named registry pm action w1 = Some (Err (Wrapf ''error running %s: %s'' [ac_Name action] e), w2)"
    using assms(5,7,8) by (simp add: run_named_def run_runner_def io_bind_def io_err_def)
  then have "run_each (run_named registry pm) (before @ action # after) w =
      Some (Err (Wrapf ''error running %s: %s'' [ac_Name action] e), w2)"
    using assms(4) by (simp add: run_each_append io_bind_def)
  then show ?thesis
    unfolding RunActions_def run_actions_named [where ord = ord and registry = registry, OF assms(1,2)] assms(3) .
qed

subsection \<open>Instances\<close>

definition pm_payload :: "(string \<times> string) list session Payload" where
  "pm_payload = \<lparr>pl_IOManager = \<lparr>im_Attributes = [], im_Stores = [s3_ds], im_Inputs = [], im_Outputs = [],
       im_parent = None\<rparr>,
     pl_Actions = [\<lparr>ac_IOManager = \<lparr>im_Attributes = [], im_Stores = [], im_Inputs = [], im_Outputs = [], im_parent = None\<rparr>,
       ac_Type = [], ac_Description = [], ac_Name = ''act''\<rparr>]\<rparr>"

definition pm_choices :: payload_choices where
  "pm_choices = \<lparr>pc_attr_sched = visits [], pc_stores = (\<lambda>_. visits [''root'']), pc_inputs = (\<lambda>_. demo_choices),
     pc_outputs = (\<lambda>_. demo_choices), pc_actions = (\<lambda>_. \<lparr>ac_attr_sched = visits [], ac_inputs = (\<lambda>_. demo_choices),
     ac_outputs = (\<lambda>_. demo_choices)\<rparr>)\<rparr>"

definition init_demo :: "((string \<times> string) list, unit) PluginManager run" where
  "init_demo = InitPluginManager demo_env pm_choices [] mem_S3 (Ok ()) (\<lambda>_. Ok pm_payload)"

lemma init_demo_Ok: "\<exists>pm. init_demo = Some (Ok pm) \<and> pm_Actions pm \<noteq> [] \<and> im_Stores (pm_IOManager pm) \<noteq> []"
proof -
  have "(case init_demo of Some (Ok pm) \<Rightarrow> pm_Actions pm \<noteq> [] \<and> im_Stores (pm_IOManager pm) \<noteq> [] | _ \<Rightarrow> False)"
    unfolding demo_env_def by code_simp
  then show ?thesis
    by (auto split: option.splits res.splits)
qed

theorem action_GetStore_witness:
  "\<exists>pm action. init_demo = Some (Ok pm) \<and> action \<in> set (pm_Actions pm) \<and>
     GetStore (pm_heap pm) (ac_IOManager action) ''x'' \<noteq> None"
proof -
  obtain pm where pm: "init_demo = Some (Ok pm)" "pm_Actions pm \<noteq> []"
    using init_demo_Ok by blast
  then obtain action where a: "action \<in> set (pm_Actions pm)"
    by (cases "pm_Actions pm") auto
  have "im_parent (pl_IOManager pm_payload) = None"
    by (simp add: pm_payload_def)
  then show ?thesis
    using action_GetStore [OF pm(1) [unfolded init_demo_def] _ a] pm(1) a by force
qed

theorem InitPluginManager_connected_witness:
  "\<exists>pm. init_demo = Some (Ok pm) \<and> im_Stores (pm_IOManager pm) \<noteq> [] \<and>
     list_all (connected_store mem_S3) (im_Stores (pm_IOManager pm))"
  using init_demo_Ok InitPluginManager_connected [of demo_env pm_choices mem_S3 "Ok ()" "\<lambda>_. Ok pm_payload"]
  unfolding init_demo_def by blast

definition failing_runner :: "(unit, unit) runner" where
  "failing_runner = \<lparr>rn_Run = (\<lambda>s. io_return (Some (External ''boom''), s)), rn_ContinueOnError = True\<rparr>"

definition empty_im :: "unit manager" where
  "empty_im = \<lparr>im_Attributes = [], im_Stores = [], im_Inputs = [], im_Outputs = [], im_parent = None\<rparr>"

definition run_demo_action :: "string \<Rightarrow> unit session Action" where
  "run_demo_action n = \<lparr>ac_IOManager = empty_im, ac_Type = [], ac_Description = [], ac_Name = n\<rparr>"

definition run_demo :: "(unit, unit) PluginManager" where
  "run_demo = \<lparr>pm_EventIdentifier = [], pm_ccStore = (), pm_IOManager = empty_im,
     pm_Actions = [run_demo_action ''none'', run_demo_action ''a'', run_demo_action ''a'']\<rparr>"

theorem RunActions_lookup_witness:
  "RunActions (\<lambda>n. rev) [(''a'', failing_runner), (''b'', failing_runner)] run_demo =
     run_each (run_named [(''a'', failing_runner), (''b'', failing_runner)] run_demo) (pm_Actions run_demo)"
  by (rule RunActions_lookup) (simp_all add: wf_map_def)

theorem RunActions_stops_witness:
  "RunActions (\<lambda>n. rev) [(''a'', failing_runner), (''b'', failing_runner)] run_demo \<lparr>disk = \<lparr>fs_files = [], fs_dirs = []\<rparr>, remote = ()\<rparr> =
     Some (Err (Wrapf ''error running %s: %s'' [''a''] (External ''boom'')), \<lparr>disk = \<lparr>fs_files = [], fs_dirs = []\<rparr>, remote = ()\<rparr>)"
  using RunActions_stops [of "[(''a'', failing_runner), (''b'', failing_runner)]" "\<lambda>n. rev" run_demo
      "[run_demo_action ''none'']" "run_demo_action ''a''" "[run_demo_action ''a'']" "\<lparr>disk = \<lparr>fs_files = [], fs_dirs = []\<rparr>, remote = ()\<rparr>"
      "\<lparr>disk = \<lparr>fs_files = [], fs_dirs = []\<rparr>, remote = ()\<rparr>" failing_runner "External ''boom''"]
  by (simp add: wf_map_def run_demo_def run_demo_action_def failing_runner_def run_named_def io_return_def io_bind_def)

end
