(* ===== verification/Action_Operations.thy ===== *)
theory Action_Operations
  imports Plugin_Manager
begin

section \<open>The operations of actions and of the plugin manager\<close>

text \<open>
  The methods of \<^verbatim>\<open>Action\<close> (\<^verbatim>\<open>payload.go\<close>) and \<^verbatim>\<open>PluginManager\<close> (\<^verbatim>\<open>pluginmanager.go\<close>) that forward
  to their IO manager: the interface a plugin calls. They look everything up by name, so that
  an action without stores and data sources of its own works as the manager it is linked to.
\<close>

subsection \<open>Actions\<close>

definition Action_GetStore :: "'w session heap \<Rightarrow> 'w session Action \<Rightarrow> string \<Rightarrow> 'w session DataStore res option" where
  "Action_GetStore h a name = GetStore h (ac_IOManager a) name"

definition Action_GetDataSource :: "'w session heap \<Rightarrow> 'w session Action \<Rightarrow> GetDsInput \<Rightarrow> DataSource res option" where
  "Action_GetDataSource h a input = GetDataSource h (ac_IOManager a) input"

definition Action_GetInputDataSource :: "'w session heap \<Rightarrow> 'w session Action \<Rightarrow> string \<Rightarrow> DataSource res option" where
  "Action_GetInputDataSource h a name = GetInputDataSource h (ac_IOManager a) name"

definition Action_GetOutputDataSource :: "'w session heap \<Rightarrow> 'w session Action \<Rightarrow> string \<Rightarrow> DataSource res option" where
  "Action_GetOutputDataSource h a name = GetOutputDataSource h (ac_IOManager a) name"

definition Action_GetReader :: "'w session heap \<Rightarrow> 'w session Action \<Rightarrow> DataSourceOpInput \<Rightarrow> ('w, reader) io" where
  "Action_GetReader h a input = GetReader h (ac_IOManager a) input"

definition Action_Get :: "'w session heap \<Rightarrow> 'w session Action \<Rightarrow> DataSourceOpInput \<Rightarrow> ('w, string) io" where
  "Action_Get h a input = Get h (ac_IOManager a) input"

definition Action_Put :: "'w session heap \<Rightarrow> 'w session Action \<Rightarrow> reader \<Rightarrow> DataSourceOpInput \<Rightarrow> ('w, int) io" where
  "Action_Put h a SrcReader input = Put h (ac_IOManager a) SrcReader input"

definition Action_Copy ::
    "'w session heap \<Rightarrow> 'w session Action \<Rightarrow> DataSourceOpInput \<Rightarrow> DataSourceOpInput \<Rightarrow> ('w, unit) io" where
  "Action_Copy h a src dest = Copy h (ac_IOManager a) src dest"

definition Action_CopyFileToLocal :: "'w session heap \<Rightarrow> 'w session Action \<Rightarrow> CopyToLocalInput \<Rightarrow> ('w, unit) io" where
  "Action_CopyFileToLocal h a input = CopyFileToLocal h (ac_IOManager a) input"

definition Action_CopyFileToRemote ::
    "'w file_store res \<Rightarrow> 'w session heap \<Rightarrow> 'w session Action \<Rightarrow> CopyFileToRemoteInput \<Rightarrow> ('w, unit) io" where
  "Action_CopyFileToRemote localFs h a input = CopyFileToRemote localFs h (ac_IOManager a) input"

subsection \<open>The plugin manager\<close>

definition PM_GetStore :: "('w, 'c) PluginManager \<Rightarrow> string \<Rightarrow> 'w session DataStore res option" where
  "PM_GetStore pm name = GetStore (pm_heap pm) (pm_IOManager pm) name"

definition PM_GetDataSource :: "('w, 'c) PluginManager \<Rightarrow> GetDsInput \<Rightarrow> DataSource res option" where
  "PM_GetDataSource pm input = GetDataSource (pm_heap pm) (pm_IOManager pm) input"

definition PM_GetInputDataSource :: "('w, 'c) PluginManager \<Rightarrow> string \<Rightarrow> DataSource res option" where
  "PM_GetInputDataSource pm name = GetInputDataSource (pm_heap pm) (pm_IOManager pm) name"

definition PM_GetOutputDataSource :: "('w, 'c) PluginManager \<Rightarrow> string \<Rightarrow> DataSource res option" where
  "PM_GetOutputDataSource pm name = GetOutputDataSource (pm_heap pm) (pm_IOManager pm) name"

definition PM_GetReader :: "('w, 'c) PluginManager \<Rightarrow> DataSourceOpInput \<Rightarrow> ('w, reader) io" where
  "PM_GetReader pm input = GetReader (pm_heap pm) (pm_IOManager pm) input"

definition PM_Get :: "('w, 'c) PluginManager \<Rightarrow> DataSourceOpInput \<Rightarrow> ('w, string) io" where
  "PM_Get pm input = Get (pm_heap pm) (pm_IOManager pm) input"

definition PM_Put :: "('w, 'c) PluginManager \<Rightarrow> reader \<Rightarrow> DataSourceOpInput \<Rightarrow> ('w, int) io" where
  "PM_Put pm SrcReader input = Put (pm_heap pm) (pm_IOManager pm) SrcReader input"

definition PM_Copy :: "('w, 'c) PluginManager \<Rightarrow> DataSourceOpInput \<Rightarrow> DataSourceOpInput \<Rightarrow> ('w, unit) io" where
  "PM_Copy pm src dest = Copy (pm_heap pm) (pm_IOManager pm) src dest"

definition PM_CopyFileToLocal :: "('w, 'c) PluginManager \<Rightarrow> CopyToLocalInput \<Rightarrow> ('w, unit) io" where
  "PM_CopyFileToLocal pm input = CopyFileToLocal (pm_heap pm) (pm_IOManager pm) input"

definition PM_CopyFileToRemote ::
    "'w file_store res \<Rightarrow> ('w, 'c) PluginManager \<Rightarrow> CopyFileToRemoteInput \<Rightarrow> ('w, unit) io" where
  "PM_CopyFileToRemote localFs pm input = CopyFileToRemote localFs (pm_heap pm) (pm_IOManager pm) input"

subsection \<open>Lookups decide every operation\<close>

text \<open>Two managers see the same when they resolve every name alike.\<close>

definition same_view :: "'s heap \<Rightarrow> 's IOManager \<Rightarrow> 's IOManager \<Rightarrow> bool" where
  "same_view h im im' \<longleftrightarrow> GetStore h im = GetStore h im' \<and> GetDataSource h im = GetDataSource h im'"

named_theorems io_operations

lemmas [io_operations] =
  GetInputDataSource_def GetOutputDataSource_def GetReader_def Get_def Put_def Copy_def CopyFileToLocal_def
  CopyFileToRemote_def

lemma same_view_operations:
  assumes "same_view h im im'"
  shows "GetInputDataSource h im = GetInputDataSource h im'" "GetOutputDataSource h im = GetOutputDataSource h im'"
    "GetReader h im = GetReader h im'" "Get h im = Get h im'" "Put h im = Put h im'" "Copy h im = Copy h im'"
    "CopyFileToLocal h im = CopyFileToLocal h im'" "CopyFileToRemote l h im = CopyFileToRemote l h im'"
  using assms by (simp_all add: same_view_def io_operations [abs_def] cong: option.case_cong if_cong)

lemma bare_same_view:
  assumes "im_Stores im = []" "im_Inputs im = []" "im_Outputs im = []" "im_parent im = Some a"
  shows "same_view h im (h a)"
proof -
  have "own_store im name = None" "own_source im input = None" for name input
    using assms by (simp_all add: own_store_def own_source_def sources_of_def split: DataSourceIoType.split)
  then show ?thesis
    by (auto simp: same_view_def store_scope.get_up [OF _ assms(4)] source_scope.get_up [OF _ assms(4)])
qed

lemma InitPluginManager_linked:
  assumes "InitPluginManager env ch registry newS3 newCcStore getPayload = Some (Ok pm)"
    and "action \<in> set (pm_Actions pm)"
  shows "im_parent (ac_IOManager action) = Some 0"
  using assms by (elim InitPluginManager_parts) (rule res_map_all [OF _ link_action_parent])

text \<open>C23. In an initialised plugin manager an action that declares no stores and no data sources of its own
  is the manager to its plugin: every operation the action offers, from the lookups to the
  copies, has the outcome and the effects of the manager's operation on the same input.\<close>

theorem bare_action_operations:
  assumes "InitPluginManager env ch registry newS3 newCcStore getPayload = Some (Ok pm)"
    and "action \<in> set (pm_Actions pm)"
    and "im_Stores (ac_IOManager action) = []" "im_Inputs (ac_IOManager action) = []" "im_Outputs (ac_IOManager action) = []"
  shows "Action_GetStore (pm_heap pm) action = PM_GetStore pm \<and>
    Action_GetDataSource (pm_heap pm) action = PM_GetDataSource pm \<and>
    Action_GetInputDataSource (pm_heap pm) action = PM_GetInputDataSource pm \<and>
    Action_GetOutputDataSource (pm_heap pm) action = PM_GetOutputDataSource pm \<and>
    Action_GetReader (pm_heap pm) action = PM_GetReader pm \<and>
    Action_Get (pm_heap pm) action = PM_Get pm \<and>
    Action_Put (pm_heap pm) action = PM_Put pm \<and>
    Action_Copy (pm_heap pm) action = PM_Copy pm \<and>
    Action_CopyFileToLocal (pm_heap pm) action = PM_CopyFileToLocal pm \<and>
    Action_CopyFileToRemote localFs (pm_heap pm) action = PM_CopyFileToRemote localFs pm"
proof -
  have view: "same_view (pm_heap pm) (ac_IOManager action) (pm_IOManager pm)"
    using bare_same_view [OF assms(3-5) InitPluginManager_linked [OF assms(1,2)]]
    by (simp add: pm_heap_def)
  show ?thesis
    using view [unfolded same_view_def]
    by (simp add: fun_eq_iff same_view_operations [OF view] Action_GetStore_def PM_GetStore_def
        Action_GetDataSource_def PM_GetDataSource_def Action_GetInputDataSource_def PM_GetInputDataSource_def
        Action_GetOutputDataSource_def PM_GetOutputDataSource_def Action_GetReader_def PM_GetReader_def
        Action_Get_def PM_Get_def Action_Put_def PM_Put_def Action_Copy_def PM_Copy_def
        Action_CopyFileToLocal_def PM_CopyFileToLocal_def Action_CopyFileToRemote_def PM_CopyFileToRemote_def)
qed

lemma init_demo_bare:
  "\<exists>pm action. init_demo = Some (Ok pm) \<and> action \<in> set (pm_Actions pm) \<and> im_Stores (ac_IOManager action) = [] \<and>
     im_Inputs (ac_IOManager action) = [] \<and> im_Outputs (ac_IOManager action) = []"
proof -
  have "(case init_demo of Some (Ok pm) \<Rightarrow> pm_Actions pm \<noteq> [] \<and> im_Stores (ac_IOManager (hd (pm_Actions pm))) = [] \<and>
      im_Inputs (ac_IOManager (hd (pm_Actions pm))) = [] \<and> im_Outputs (ac_IOManager (hd (pm_Actions pm))) = [] | _ \<Rightarrow> False)"
    unfolding demo_env_def by code_simp
  then show ?thesis
    by (auto split: option.splits res.splits intro!: hd_in_set)
qed

theorem bare_action_operations_witness:
  "\<exists>pm action. init_demo = Some (Ok pm) \<and> action \<in> set (pm_Actions pm) \<and>
     Action_Get (pm_heap pm) action demo_input = PM_Get pm demo_input"
proof -
  obtain pm action where demo: "init_demo = Some (Ok pm)" "action \<in> set (pm_Actions pm)"
    "im_Stores (ac_IOManager action) = []" "im_Inputs (ac_IOManager action) = []" "im_Outputs (ac_IOManager action) = []"
    using init_demo_bare by blast
  show ?thesis
    using bare_action_operations [OF demo(1) [unfolded init_demo_def] demo(2-5)] demo(1,2) by force
qed

subsection \<open>Handing data from one action to another\<close>

text \<open>A store that is found from an action is connected, whichever scope it is found in.\<close>

lemma up_iter_one: "up_iter up (\<lambda>_. root) m n = Some m' \<Longrightarrow> m' = m \<or> m' = root"
  by (induction n arbitrary: m) (auto split: option.splits)

lemma action_store_connected:
  assumes "InitPluginManager env ch [] newS3 newCcStore getPayload = Some (Ok pm)" and "a \<in> set (pm_Actions pm)"
    and "Action_GetStore (pm_heap pm) a name = Some (Ok s)"
  shows "connected_store newS3 s"
proof -
  obtain n im where im: "up_iter im_parent (pm_heap pm) (ac_IOManager a) n = Some im" "own_store im name = Some s"
    using assms(3) by (auto simp: Action_GetStore_def store_scope.get_Ok_iff)
  have "s \<in> set (im_Stores im)"
    using im(2) by (auto simp: own_store_def find_Some_iff)
  moreover have "im = ac_IOManager a \<or> im = pm_IOManager pm"
    using im(1) unfolding pm_heap_def by (rule up_iter_one)
  ultimately show ?thesis
    using InitPluginManager_connected [OF assms(1)] assms(2) by (auto simp: list_all_iff)
qed

text \<open>Two stores that are the same place: their type, their profile and their root.\<close>

definition same_place :: "'s DataStore \<Rightarrow> 's DataStore \<Rightarrow> bool" where
  "same_place s s' \<longleftrightarrow> st_StoreType s = st_StoreType s' \<and> st_DsProfile s = st_DsProfile s' \<and>
     map_of (st_Parameters s) ''root'' = map_of (st_Parameters s') ''root''"

lemma same_place_session:
  "connected_store newS3 s \<Longrightarrow> connected_store newS3 s' \<Longrightarrow> same_place s s' \<Longrightarrow> st_Session s' = st_Session s"
  by (auto simp: connected_store_def same_place_def FSB_def FSS3_def)

lemma Put_writes:
  assumes "Put h im r input w = Some (Ok n, w')" and "oi_DataSource input = None"
    and "GetOutputDataSource h im (oi_DataSourceName input) = Some (Ok ds)" and "GetStore h im (ds_StoreName ds) = Some (Ok s)"
  shows "st_Session s \<noteq> None"
  using assms by (cases "st_Session s") (simp_all add: Put_def io_simps session_as_def)

text \<open>C19. In an initialised plugin manager whose S3 file stores keep what they are given, what one action puts is
  what any action gets: each finds its own data source and its own store, by name and in its own
  scope, and nothing more is asked than that the stores are the same place and the data sources
  name the same path.\<close>

theorem action_handover:
  assumes init: "InitPluginManager env ch [] newS3 newCcStore getPayload = Some (Ok pm)"
    and laws: "\<And>profile fs. newS3 profile = Ok fs \<Longrightarrow> store_laws fs"
    and acts: "a \<in> set (pm_Actions pm)" "b \<in> set (pm_Actions pm)"
    and out: "Action_GetOutputDataSource (pm_heap pm) a name = Some (Ok ds)" "Action_GetStore (pm_heap pm) a (ds_StoreName ds) = Some (Ok s)"
    and inp: "Action_GetInputDataSource (pm_heap pm) b name' = Some (Ok ds')" "Action_GetStore (pm_heap pm) b (ds_StoreName ds') = Some (Ok s')"
    and same: "same_place s s'" "zero_get (ds_Paths ds') k' = zero_get (ds_Paths ds) k"
    and r: "rd_error r = None"
    and put: "Action_Put (pm_heap pm) a r \<lparr>oi_DataSource = None, oi_DataSourceName = name, oi_PathKey = k, oi_DataPathKey = dk,
        oi_TemplateVars = vars\<rparr> w = Some (Ok n, w')"
  shows "Action_Get (pm_heap pm) b \<lparr>oi_DataSource = None, oi_DataSourceName = name', oi_PathKey = k', oi_DataPathKey = dk',
      oi_TemplateVars = vars\<rparr> w' = Some (Ok (rd_bytes r), w')"
proof -
  note conn = action_store_connected [OF init acts(1) out(2)] action_store_connected [OF init acts(2) inp(2)]
  note defs = Action_GetOutputDataSource_def Action_GetInputDataSource_def Action_GetStore_def Action_Put_def Action_Get_def
  have "st_Session s \<noteq> None"
    using Put_writes [OF put [unfolded defs]] out by (simp add: defs)
  then obtain fs root where s: "newS3 (st_DsProfile s) = Ok fs" "st_Session s = Some (fds_session \<lparr>fds_fs = fs, fds_root = root\<rparr>)"
    using conn(1) by (auto simp: connected_store_def)
  then have "resolves_to (pm_heap pm) (ac_IOManager a) ds \<lparr>fds_fs = fs, fds_root = root\<rparr>"
    "resolves_to (pm_heap pm) (ac_IOManager b) ds' \<lparr>fds_fs = fs, fds_root = root\<rparr>"
    using out(2) inp(2) same_place_session [OF conn same(1)] by (simp_all add: resolves_to_def defs)
  then show ?thesis
    using put_get_across [OF out(1) [unfolded defs] _ inp(1) [unfolded defs] _ _ r same(2) put [unfolded defs]] laws [OF s(1)]
    by (simp add: defs)
qed

text \<open>One action writes to the manager's store, another reads from a store of its own that is the same place.\<close>

definition bucket :: "string \<Rightarrow> (string \<times> string) list session DataStore" where
  "bucket name = s3_ds \<lparr>st_Name := name\<rparr>"

definition file_source :: "string \<Rightarrow> string \<Rightarrow> DataSource" where
  "file_source name store = \<lparr>ds_Name = name, ds_ID = None, ds_Paths = Some [(''k'', ''a/{VAR::n}'')], ds_DataPaths = None, ds_StoreName = store\<rparr>"

definition handover_payload :: "(string \<times> string) list session Payload" where
  "handover_payload =
    (let im = \<lparr>im_Attributes = [], im_Stores = [bucket ''lake''], im_Inputs = [], im_Outputs = [file_source ''out'' ''lake''], im_parent = None\<rparr>;
         act = (\<lambda>n stores inputs. \<lparr>ac_IOManager = \<lparr>im_Attributes = [], im_Stores = stores, im_Inputs = inputs, im_Outputs = [],
           im_parent = None\<rparr>, ac_Type = [], ac_Description = [], ac_Name = n\<rparr>)
     in \<lparr>pl_IOManager = im, pl_Actions = [act ''make'' [] [], act ''use'' [bucket ''mine''] [file_source ''in'' ''mine'']]\<rparr>)"

definition handover_demo :: "((string \<times> string) list, unit) PluginManager run" where
  "handover_demo =
    (let src = (\<lambda>_. \<lparr>name_order = in_order, paths_sched = [(''k'', in_order)], data_sched = []\<rparr>)
     in InitPluginManager demo_env \<lparr>pc_attr_sched = visits [], pc_stores = (\<lambda>_. visits [''root'']), pc_inputs = src, pc_outputs = src,
       pc_actions = (\<lambda>_. \<lparr>ac_attr_sched = visits [], ac_inputs = src, ac_outputs = src\<rparr>)\<rparr> [] mem_S3 (Ok ()) (\<lambda>_. Ok handover_payload))"

definition file_input :: "string \<Rightarrow> DataSourceOpInput" where
  "file_input name = \<lparr>oi_DataSource = None, oi_DataSourceName = name, oi_PathKey = ''k'', oi_DataPathKey = [], oi_TemplateVars = [(''n'', ''7'')]\<rparr>"

text \<open>The value of a run that ends well has a property.\<close>

definition run_has :: "'a run \<Rightarrow> ('a \<Rightarrow> bool) \<Rightarrow> bool" where
  "run_has r P \<longleftrightarrow> (case r of Some (Ok x) \<Rightarrow> P x | _ \<Rightarrow> False)"

lemma run_has_iff: "run_has r P \<longleftrightarrow> (\<exists>x. r = Some (Ok x) \<and> P x)"
  by (auto simp: run_has_def split: option.splits res.splits)

lemma handover_demo_runs:
  "run_has handover_demo (\<lambda>pm. let a = pm_Actions pm ! 0; b = pm_Actions pm ! 1 in length (pm_Actions pm) = 2 \<and>
     Action_GetOutputDataSource (pm_heap pm) a ''out'' = Some (Ok (file_source ''out'' ''lake'')) \<and>
     Action_GetInputDataSource (pm_heap pm) b ''in'' = Some (Ok (file_source ''in'' ''mine'')) \<and>
     run_has (Action_GetStore (pm_heap pm) a ''lake'') (\<lambda>s. run_has (Action_GetStore (pm_heap pm) b ''mine'') (same_place s)) \<and>
     map_option (\<lambda>(r, w'). (r, remote w')) (Action_Put (pm_heap pm) a \<lparr>rd_bytes = ''x'', rd_error = None\<rparr> (file_input ''out'') demo_world) =
       Some (Ok (-1), [(''/r/a/7'', ''x'')]))"
  unfolding demo_env_def by code_simp

theorem action_handover_witness:
  "\<exists>pm w'. handover_demo = Some (Ok pm) \<and>
     Action_Put (pm_heap pm) (pm_Actions pm ! 0) \<lparr>rd_bytes = ''x'', rd_error = None\<rparr> (file_input ''out'') demo_world = Some (Ok (-1), w') \<and>
     remote w' = [(''/r/a/7'', ''x'')] \<and> Action_Get (pm_heap pm) (pm_Actions pm ! 1) (file_input ''in'') w' = Some (Ok ''x'', w')"
proof -
  obtain pm s s' w' where demo: "handover_demo = Some (Ok pm)" "pm_Actions pm ! 0 \<in> set (pm_Actions pm)" "pm_Actions pm ! 1 \<in> set (pm_Actions pm)"
    "Action_GetOutputDataSource (pm_heap pm) (pm_Actions pm ! 0) ''out'' = Some (Ok (file_source ''out'' ''lake''))"
    "Action_GetInputDataSource (pm_heap pm) (pm_Actions pm ! 1) ''in'' = Some (Ok (file_source ''in'' ''mine''))"
    "Action_GetStore (pm_heap pm) (pm_Actions pm ! 0) ''lake'' = Some (Ok s)"
    "Action_GetStore (pm_heap pm) (pm_Actions pm ! 1) ''mine'' = Some (Ok s')" "same_place s s'"
    "Action_Put (pm_heap pm) (pm_Actions pm ! 0) \<lparr>rd_bytes = ''x'', rd_error = None\<rparr> (file_input ''out'') demo_world = Some (Ok (-1), w')"
    "remote w' = [(''/r/a/7'', ''x'')]"
    using handover_demo_runs by (fastforce simp: run_has_iff Let_def simp del: One_nat_def intro: nth_mem)
  have src: "ds_StoreName (file_source n st) = st" "zero_get (ds_Paths (file_source n st)) k = zero_get (ds_Paths (file_source n' st')) k"
    for n st n' st' k
    by (simp_all add: file_source_def)
  have "store_laws fs" if "mem_S3 profile = Ok fs" for profile fs
    using that mem_store_laws by (simp add: mem_S3_def split: if_splits)
  from action_handover [OF demo(1) [unfolded handover_demo_def Let_def] this demo(2,3,4) _ demo(5) _ demo(8) src(2) _ demo(9) [unfolded file_input_def]]
  have "Action_Get (pm_heap pm) (pm_Actions pm ! 1) (file_input ''in'') w' = Some (Ok ''x'', w')"
    using demo(6,7) by (simp add: src(1) file_input_def)
  with demo(1,9,10) show ?thesis
    by blast
qed

end
