(* ===== verification/Cc_Store.thy ===== *)
theory Cc_Store
  imports Store_Sessions
begin

section \<open>The store of the compute\<close>

text \<open>
  \<^verbatim>\<open>ccstore.go\<close>, \<^verbatim>\<open>ccstore_fsb.go\<close> and \<^verbatim>\<open>ccstore_s3.go\<close>: the store a plugin reads its
  payload from, on the local file system and on an S3 file store. The JSON encoding of a payload
  is an argument (\<open>json_codec\<close>: \<^verbatim>\<open>json.Marshal\<close> or \<^verbatim>\<open>MarshalIndent\<close>, \<^verbatim>\<open>json.Unmarshal\<close> and the
  \<^verbatim>\<open>Decode\<close> of a decoder, with the round trip \<open>json_laws\<close> as documented behaviour).
  The contract the two stores share with their clients is the locale \<open>object_store\<close>.
\<close>

subsection \<open>Inputs\<close>

datatype ObjectState = Memory | LocalDisk | OtherState int

record PutObjectInput =
  po_FileName :: string
  po_FileExtension :: string
  po_ObjectState :: ObjectState
  po_Data :: string

record GetObjectInput =
  go_SourceRootPath :: string
  go_FileName :: string
  go_FileExtension :: string

record PullObjectInput =
  pu_SourceRootPath :: string
  pu_DestinationRootPath :: string
  pu_FileName :: string
  pu_FileExtension :: string

record CcStoreInput =
  ci_CcStoreProfile :: string
  ci_ManifestId :: string
  ci_PayloadId :: string

record 'p json_codec =
  json_marshal :: "bool \<Rightarrow> 'p \<Rightarrow> string res"
  json_unmarshal :: "string \<Rightarrow> 'p res"
  json_decode :: "reader \<Rightarrow> 'p res"

definition json_laws :: "'p json_codec \<Rightarrow> 'p \<Rightarrow> bool" where
  "json_laws js p \<longleftrightarrow> (\<forall>b d. json_marshal js b p = Ok d \<longrightarrow>
     json_unmarshal js d = Ok p \<and> json_decode js \<lparr>rd_bytes = d, rd_error = None\<rparr> = Ok p)"

text \<open>\<^verbatim>\<open>fmt.Errorf("...: %w", err)\<close>\<close>

definition io_wrap :: "string \<Rightarrow> ('w, 'a) io \<Rightarrow> ('w, 'a) io" where
  "io_wrap fmt m w = (case m w of
     Some (Err e, w') \<Rightarrow> Some (Err (Wrapf fmt [] e), w')
   | r \<Rightarrow> r)"

definition io_read :: "string \<Rightarrow> ('w, string) io" where
  "io_read p = io_os (\<lambda>d. (os_ReadFile p d, d))"

definition file_name :: "string \<Rightarrow> string \<Rightarrow> string" where
  "file_name name ext = name @ ''.'' @ ext"

subsection \<open>The file system store\<close>

record FSBCcStore =
  fsb_localRootPath :: string
  fsb_remoteRootPath :: string
  fsb_manifestId :: string
  fsb_payloadId :: string
  fsb_storeType :: string

definition localRootPath :: string where
  "localRootPath = ''/data''"

definition NewFSBCcStore :: "go_env \<Rightarrow> string list \<Rightarrow> ('w, FSBCcStore) io" where
  "NewFSBCcStore env manifestArgs =
     (let (manifestId, payloadId) =
        (case manifestArgs of m # p # _ \<Rightarrow> (m, p)
         | _ \<Rightarrow> (getenv env ''CC_MANIFEST_ID'', getenv env ''CC_PAYLOAD_ID''));
        rootPath = (if getenv env ''FSB_ROOT_PATH'' = [] then ''/data'' else getenv env ''FSB_ROOT_PATH'')
      in io_bind (io_wrap ''failed to create root directory: %w'' (io_os (os_MkdirAll rootPath))) (\<lambda>_.
        io_return \<lparr>fsb_localRootPath = localRootPath, fsb_remoteRootPath = rootPath, fsb_manifestId = manifestId,
          fsb_payloadId = payloadId, fsb_storeType = FSB\<rparr>))"

definition FSB_HandlesDataStoreType :: "FSBCcStore \<Rightarrow> string \<Rightarrow> bool" where
  "FSB_HandlesDataStoreType fs storeType \<longleftrightarrow> fsb_storeType fs = storeType"

definition FSB_RootPath :: "FSBCcStore \<Rightarrow> string" where
  "FSB_RootPath fs = fsb_localRootPath fs"

definition FSB_PutObject :: "FSBCcStore \<Rightarrow> PutObjectInput \<Rightarrow> ('w, unit) io" where
  "FSB_PutObject fs poi =
     (let destPath = path_join [fsb_remoteRootPath fs, fsb_manifestId fs, file_name (po_FileName poi) (po_FileExtension poi)] in
      io_bind (io_wrap ''failed to create directory: %w'' (io_os (os_MkdirAll (path_dir destPath)))) (\<lambda>_.
      io_bind (case po_ObjectState poi of
          LocalDisk \<Rightarrow> io_wrap ''failed to read source file: %w''
            (io_read (path_join [fsb_localRootPath fs, file_name (po_FileName poi) (po_FileExtension poi)]))
        | Memory \<Rightarrow> io_return (po_Data poi)
        | OtherState _ \<Rightarrow> io_err (Errorf ''unsupported object state for FSB store'' [])) (\<lambda>data.
      io_os (os_WriteFile destPath data))))"

definition FSB_GetObject :: "FSBCcStore \<Rightarrow> GetObjectInput \<Rightarrow> ('w, string) io" where
  "FSB_GetObject fs input = io_wrap ''failed to read file: %w''
     (io_read (path_join [go_SourceRootPath input, fsb_manifestId fs, file_name (go_FileName input) (go_FileExtension input)]))"

definition FSB_payload_path :: "FSBCcStore \<Rightarrow> string" where
  "FSB_payload_path fs = path_join [fsb_remoteRootPath fs, fsb_payloadId fs, ''payload'']"

definition FSB_GetPayload :: "'p json_codec \<Rightarrow> FSBCcStore \<Rightarrow> ('w, 'p) io" where
  "FSB_GetPayload js fs =
     io_bind (io_wrap ''failed to read payload file: %w'' (io_read (FSB_payload_path fs))) (\<lambda>data.
       io_wrap ''failed to unmarshal payload: %w'' (io_lift (Some (json_unmarshal js data))))"

definition FSB_SetPayload :: "'p json_codec \<Rightarrow> bool \<Rightarrow> FSBCcStore \<Rightarrow> 'p \<Rightarrow> ('w, unit) io" where
  "FSB_SetPayload js shouldFormat fs p =
     io_bind (io_wrap ''failed to create directory: %w'' (io_os (os_MkdirAll (path_dir (FSB_payload_path fs))))) (\<lambda>_.
     io_bind (io_wrap ''failed to marshal payload: %w'' (io_lift (Some (json_marshal js shouldFormat p)))) (\<lambda>data.
       io_os (os_WriteFile (FSB_payload_path fs) data)))"

text \<open>
  \<open>PullObject\<close> opens the source, creates the destination and copies: an open directory, or a
  source that is the destination, shows only when it is read.
\<close>

definition os_Open :: "string \<Rightarrow> file_system \<Rightarrow> unit res" where
  "os_Open p fs = (if is_dir fs (parse_path p) \<or> map_of (fs_files fs) (parse_path p) \<noteq> None then Ok ()
     else Err (External ''no such file or directory''))"

definition FSB_PullObject :: "FSBCcStore \<Rightarrow> PullObjectInput \<Rightarrow> ('w, unit) io" where
  "FSB_PullObject fs input =
     (let name = file_name (pu_FileName input) (pu_FileExtension input);
          sourcePath = path_join [pu_SourceRootPath input, fsb_manifestId fs, name];
          destPath = path_join [pu_DestinationRootPath input, name] in
      io_bind (io_wrap ''failed to create destination directory: %w'' (io_os (os_MkdirAll (path_dir destPath)))) (\<lambda>_.
      io_bind (io_wrap ''failed to open source file: %w'' (io_os (\<lambda>d. (os_Open sourcePath d, d)))) (\<lambda>_.
      io_bind (io_wrap ''failed to create destination file: %w'' (io_os (os_Create destPath))) (\<lambda>_.
      io_wrap ''failed to copy file: %w'' (io_bind (io_read sourcePath) (\<lambda>data.
        io_os (io_Copy destPath \<lparr>rd_bytes = data, rd_error = None\<rparr>)))))))"

subsection \<open>The S3 store\<close>

record s3_config =
  S3Id :: string
  S3Key :: string
  S3Region :: string
  S3Bucket :: string
  AltEndpoint :: string

definition BuildS3Config :: "go_env \<Rightarrow> string \<Rightarrow> s3_config" where
  "BuildS3Config env profile =
     (let var = (\<lambda>name. getenv env (if profile = [] then name else profile @ ''_'' @ name)) in
      \<lparr>S3Id = var ''AWS_ACCESS_KEY_ID'', S3Key = var ''AWS_SECRET_ACCESS_KEY'', S3Region = var ''AWS_DEFAULT_REGION'',
       S3Bucket = var ''AWS_S3_BUCKET'', AltEndpoint = var ''AWS_ENDPOINT''\<rparr>)"

record 'w S3CcStore =
  s3_fs :: "'w file_store"
  s3_localRootPath :: string
  s3_remoteRootPath :: string
  s3_manifestId :: string
  s3_payloadId :: string
  s3_storeType :: string

definition NewS3CcStore ::
    "go_env \<Rightarrow> (s3_config \<Rightarrow> 'w file_store res) \<Rightarrow> CcStoreInput option \<Rightarrow> 'w S3CcStore res" where
  "NewS3CcStore env newFileStore input =
     (let (manifestId, payloadId, ccProfile) =
        (case input of
           Some i \<Rightarrow> (ci_ManifestId i, ci_PayloadId i, if ci_CcStoreProfile i \<noteq> [] then ci_CcStoreProfile i else ''CC'')
         | None \<Rightarrow> (getenv env ''CC_MANIFEST_ID'', getenv env ''CC_PAYLOAD_ID'', ''CC''));
        rootPath = (if getenv env ''CC_ROOT'' = [] then ''/cc_store'' else getenv env ''CC_ROOT'')
      in res_bind (newFileStore (BuildS3Config env ccProfile)) (\<lambda>fs.
        Ok \<lparr>s3_fs = fs, s3_localRootPath = localRootPath, s3_remoteRootPath = rootPath, s3_manifestId = manifestId,
          s3_payloadId = payloadId, s3_storeType = FSS3\<rparr>))"

definition S3_HandlesDataStoreType :: "'w S3CcStore \<Rightarrow> string \<Rightarrow> bool" where
  "S3_HandlesDataStoreType ws storeType \<longleftrightarrow> s3_storeType ws = storeType"

definition S3_RootPath :: "'w S3CcStore \<Rightarrow> string" where
  "S3_RootPath ws = s3_localRootPath ws"

text \<open>\<^verbatim>\<open>fmt.Sprintf("%s/%s/%s.%s", ...)\<close>: the path is not cleaned.\<close>

definition s3_path :: "string \<Rightarrow> string \<Rightarrow> string \<Rightarrow> string" where
  "s3_path root mid name = root @ ''/'' @ mid @ ''/'' @ name"

definition S3_PutObject :: "'w S3CcStore \<Rightarrow> PutObjectInput \<Rightarrow> ('w, unit) io" where
  "S3_PutObject ws poi =
     (let name = file_name (po_FileName poi) (po_FileExtension poi) in
      io_bind (case po_ObjectState poi of
          LocalDisk \<Rightarrow> io_read (s3_localRootPath ws @ ''/'' @ name)
        | Memory \<Rightarrow> io_return (po_Data poi)
        | OtherState _ \<Rightarrow> io_err (Errorf ''not currently supporting remote to remote data transfers - use getobject to retrieve bytes and push as memory object via put object'' [])) (\<lambda>data.
      PutObject (s3_fs ws) \<lparr>rd_bytes = data, rd_error = None\<rparr> (s3_path (s3_remoteRootPath ws) (s3_manifestId ws) name)))"

text \<open>\<^verbatim>\<open>io.ReadAll\<close> returns the error that ends the reader.\<close>

definition read_all :: "reader \<Rightarrow> string res" where
  "read_all r = (case rd_error r of None \<Rightarrow> Ok (rd_bytes r) | Some e \<Rightarrow> Err e)"

definition S3_GetObject :: "'w S3CcStore \<Rightarrow> GetObjectInput \<Rightarrow> ('w, string) io" where
  "S3_GetObject ws input =
     io_bind (GetObject (s3_fs ws) (s3_path (go_SourceRootPath input) (s3_manifestId ws)
       (file_name (go_FileName input) (go_FileExtension input)))) (\<lambda>reader. io_lift (Some (read_all reader)))"

definition S3_payload_path :: "'w S3CcStore \<Rightarrow> string" where
  "S3_payload_path ws = s3_path (s3_remoteRootPath ws) (s3_payloadId ws) ''payload''"

definition S3_GetPayload :: "'p json_codec \<Rightarrow> 'w S3CcStore \<Rightarrow> ('w, 'p) io" where
  "S3_GetPayload js ws =
     io_bind (GetObject (s3_fs ws) (S3_payload_path ws)) (\<lambda>reader. io_lift (Some (json_decode js reader)))"

definition S3_SetPayload :: "'p json_codec \<Rightarrow> bool \<Rightarrow> 'w S3CcStore \<Rightarrow> 'p \<Rightarrow> ('w, unit) io" where
  "S3_SetPayload js shouldFormat ws p =
     io_bind (io_lift (Some (json_marshal js shouldFormat p))) (\<lambda>data.
       PutObject (s3_fs ws) \<lparr>rd_bytes = data, rd_error = None\<rparr> (S3_payload_path ws))"

text \<open>
  \<^verbatim>\<open>io.Copy\<close> to the \<^verbatim>\<open>bufio.Writer\<close> runs its \<^verbatim>\<open>ReadFrom\<close>, which passes the reader on to the file while
  nothing is buffered: the missing \<^verbatim>\<open>Flush\<close> loses nothing.
\<close>

definition S3_PullObject :: "'w S3CcStore \<Rightarrow> PullObjectInput \<Rightarrow> ('w, unit) io" where
  "S3_PullObject ws input =
     (let name = file_name (pu_FileName input) (pu_FileExtension input);
          localPath = pu_DestinationRootPath input @ ''/'' @ name in
      io_bind (io_os (os_Create localPath)) (\<lambda>_.
      io_bind (GetObject (s3_fs ws) (s3_path (pu_SourceRootPath input) (s3_manifestId ws) name)) (\<lambda>reader.
        io_os (io_Copy localPath reader))))"

subsection \<open>Choosing a store\<close>

definition NewCcStore ::
    "go_env \<Rightarrow> (s3_config \<Rightarrow> 'w file_store res) \<Rightarrow> CcStoreInput option \<Rightarrow> 'w S3CcStore res" where
  "NewCcStore env newFileStore input =
     (let storeType = getenv env ''CC_STORE_TYPE'' in
      if storeType = FSS3 \<or> storeType = [] then NewS3CcStore env newFileStore input
      else Err (Errorf ''unsupported store type: %s'' [storeType]))"

subsection \<open>Lemmas\<close>

lemma io_wrap_Ok [simp]: "io_wrap fmt m w = Some (Ok x, w') \<longleftrightarrow> m w = Some (Ok x, w')"
  by (auto simp: io_wrap_def split: option.splits prod.splits res.splits)

lemma io_bind_Ok_iff:
  "io_bind m f w = Some (Ok y, w2) \<longleftrightarrow> (\<exists>x w1. m w = Some (Ok x, w1) \<and> f x w1 = Some (Ok y, w2))"
  by (auto simp: io_bind_def split: option.splits res.splits)

lemma io_os_Ok: "io_os f w = Some (Ok x, w') \<longleftrightarrow> fst (f (disk w)) = Ok x \<and> w' = w \<lparr>disk := snd (f (disk w))\<rparr>"
  by (auto simp: io_os_def split: prod.splits)

lemma io_read_Ok: "io_read p w = Some (Ok d, w') \<longleftrightarrow> os_ReadFile p (disk w) = Ok d \<and> w' = w"
  by (auto simp: io_read_def io_os_Ok)

lemma io_lift_Ok_iff: "io_lift r w = Some (Ok x, w') \<longleftrightarrow> r = Some (Ok x) \<and> w' = w"
  by (auto simp: io_lift_def)

lemma io_return_Ok_iff: "io_return x w = Some (Ok y, w') \<longleftrightarrow> y = x \<and> w' = w"
  by (auto simp: io_return_def)

lemma io_err_not_Ok [simp]: "io_err e w \<noteq> Some (Ok y, w')"
  by (simp add: io_err_def)

lemmas io_Ok_iffs = io_bind_Ok_iff io_os_Ok io_read_Ok io_lift_Ok_iff io_return_Ok_iff

definition FSB_path :: "FSBCcStore \<Rightarrow> string \<times> string \<Rightarrow> string" where
  "FSB_path fs k = path_join [fsb_remoteRootPath fs, fsb_manifestId fs, file_name (fst k) (snd k)]"

text \<open>The result and the world of a call that succeeds.\<close>

definition ok_of :: "('a res \<times> 'w world) option \<Rightarrow> ('a \<times> 'w world) option" where
  "ok_of r = (case r of Some (Ok x, w) \<Rightarrow> Some (x, w) | _ \<Rightarrow> None)"

lemma ok_of_Some: "ok_of r = Some (x, w) \<longleftrightarrow> r = Some (Ok x, w)"
  by (auto simp: ok_of_def split: option.splits prod.splits res.splits)

definition FSB_put :: "FSBCcStore \<Rightarrow> string \<times> string \<Rightarrow> string \<Rightarrow> file_system \<Rightarrow> file_system option" where
  "FSB_put fs k d disk0 = map_option (disk \<circ> snd)
     (ok_of (FSB_PutObject fs \<lparr>po_FileName = fst k, po_FileExtension = snd k, po_ObjectState = Memory, po_Data = d\<rparr>
        \<lparr>disk = disk0, remote = ()\<rparr>))"

definition FSB_get :: "FSBCcStore \<Rightarrow> string \<times> string \<Rightarrow> file_system \<Rightarrow> string option" where
  "FSB_get fs k disk0 = map_option fst
     (ok_of (FSB_GetObject fs \<lparr>go_SourceRootPath = fsb_remoteRootPath fs, go_FileName = fst k, go_FileExtension = snd k\<rparr>
        \<lparr>disk = disk0, remote = ()\<rparr>))"

lemma FSB_PutObject_Memory:
  "FSB_PutObject fs \<lparr>po_FileName = n, po_FileExtension = e, po_ObjectState = Memory, po_Data = d\<rparr> w = Some (Ok (), w') \<longleftrightarrow>
     fst (os_MkdirAll (path_dir (FSB_path fs (n, e))) (disk w)) = Ok () \<and>
     fst (os_WriteFile (FSB_path fs (n, e)) d (snd (os_MkdirAll (path_dir (FSB_path fs (n, e))) (disk w)))) = Ok () \<and>
     w' = w \<lparr>disk := snd (os_WriteFile (FSB_path fs (n, e)) d (snd (os_MkdirAll (path_dir (FSB_path fs (n, e))) (disk w))))\<rparr>"
  by (auto simp: FSB_PutObject_def FSB_path_def Let_def io_Ok_iffs)

lemma FSB_put_Some:
  "FSB_put fs k d fs0 = Some fs1 \<longleftrightarrow>
     fst (os_MkdirAll (path_dir (FSB_path fs k)) fs0) = Ok () \<and>
     fst (os_WriteFile (FSB_path fs k) d (snd (os_MkdirAll (path_dir (FSB_path fs k)) fs0))) = Ok () \<and>
     fs1 = snd (os_WriteFile (FSB_path fs k) d (snd (os_MkdirAll (path_dir (FSB_path fs k)) fs0)))"
  using FSB_PutObject_Memory [of fs "fst k" "snd k" d "\<lparr>disk = fs0, remote = ()\<rparr>"]
  by (auto simp: FSB_put_def map_option_eq_Some ok_of_Some)

lemma FSB_get_Some: "FSB_get fs k fs0 = Some d \<longleftrightarrow> os_ReadFile (FSB_path fs k) fs0 = Ok d"
  by (auto simp: FSB_get_def map_option_eq_Some ok_of_Some FSB_GetObject_def FSB_path_def io_read_Ok)

subsection \<open>The contract of an object store\<close>

text \<open>A sequence of puts, and the data that was put last in the place of a name.\<close>

fun put_all :: "('k \<Rightarrow> string \<Rightarrow> 'st \<Rightarrow> 'st option) \<Rightarrow> ('k \<times> string) list \<Rightarrow> 'st \<Rightarrow> 'st option" where
  "put_all f [] s = Some s"
| "put_all f ((k, d) # es) s = Option.bind (f k d s) (put_all f es)"

definition last_put :: "('k \<Rightarrow> 'p) \<Rightarrow> ('k \<times> string) list \<Rightarrow> 'k \<Rightarrow> string option" where
  "last_put place es k = map_of (rev (map (\<lambda>(k', d). (place k', d)) es)) (place k)"

lemma last_put_Cons:
  "last_put place ((k', d) # es) k =
     (case last_put place es k of Some d' \<Rightarrow> Some d' | None \<Rightarrow> if place k' = place k then Some d else None)"
  by (simp add: last_put_def map_add_def split: option.splits)

lemma last_put_places:
  assumes "\<And>k' d. (k', d) \<in> set es \<Longrightarrow> place k' = place k \<longleftrightarrow> place' k' = place' k"
  shows "last_put place es k = last_put place' es k"
  using assms
proof (induction es)
  case (Cons e es)
  obtain k' d where e: "e = (k', d)" by (cases e)
  then have "last_put place es k = last_put place' es k" "place k' = place k \<longleftrightarrow> place' k' = place' k"
    using Cons.IH Cons.prems by auto
  then show ?case
    by (simp add: e last_put_Cons)
qed (simp add: last_put_def)

locale object_store =
  fixes put :: "'k \<Rightarrow> string \<Rightarrow> 'st \<Rightarrow> 'st option"
    and get :: "'k \<Rightarrow> 'st \<Rightarrow> string option"
    and place :: "'k \<Rightarrow> 'p"
  assumes put_get: "put k d s = Some s' \<Longrightarrow> place k = place k' \<Longrightarrow> get k' s' = Some d"
    and put_other: "put k d s = Some s' \<Longrightarrow> place k \<noteq> place k' \<Longrightarrow> get k' s = Some d' \<Longrightarrow> get k' s' = Some d'"
begin

lemma get_put_all_or:
  "put_all put es s = Some s' \<Longrightarrow> (case last_put place es k of Some d \<Rightarrow> Some d | None \<Rightarrow> get k s) = Some d \<Longrightarrow> get k s' = Some d"
proof (induction es arbitrary: s)
  case Nil
  then show ?case by (simp add: last_put_def)
next
  case (Cons e es)
  obtain k' d' where e: "e = (k', d')" by (cases e)
  then obtain s1 where s1: "put k' d' s = Some s1" "put_all put es s1 = Some s'"
    using Cons.prems(1) by (auto simp: bind_eq_Some_conv)
  show ?case
    using Cons.IH [OF s1(2)] Cons.prems(2) put_get [OF s1(1), of k] put_other [OF s1(1), of k]
    by (auto simp: e last_put_Cons split: option.splits if_splits)
qed

lemma get_put_all: "put_all put es s = Some s' \<Longrightarrow> last_put place es k = Some d \<Longrightarrow> get k s' = Some d"
  by (erule get_put_all_or) simp

end

interpretation fsb_objects: object_store "FSB_put fs" "FSB_get fs" "\<lambda>k. parse_path (FSB_path fs k)" for fs
proof
  fix k k' d d' s s'
  assume p: "FSB_put fs k d s = Some s'"
  then have w: "fst (os_WriteFile (FSB_path fs k) d (snd (os_MkdirAll (path_dir (FSB_path fs k)) s))) = Ok ()"
    "s' = snd (os_WriteFile (FSB_path fs k) d (snd (os_MkdirAll (path_dir (FSB_path fs k)) s)))"
    unfolding FSB_put_Some by simp_all
  show "parse_path (FSB_path fs k) = parse_path (FSB_path fs k') \<Longrightarrow> FSB_get fs k' s' = Some d"
    unfolding FSB_get_Some w(2) os_read_after_write [OF w(1)] by simp
  show "parse_path (FSB_path fs k) \<noteq> parse_path (FSB_path fs k') \<Longrightarrow> FSB_get fs k' s = Some d' \<Longrightarrow> FSB_get fs k' s' = Some d'"
    unfolding FSB_get_Some w(2) os_read_after_write [OF w(1)] by (simp add: os_MkdirAll_read)
qed

text \<open>Objects put into the file system store are got back: after any sequence of puts that succeeded,
  a get returns the data put last under the same path. Two names are the same object when their
  cleaned paths agree, also across the dot between name and extension.\<close>

theorem FSB_objects_latest:
  assumes "put_all (FSB_put fs) es s = Some s'" and "last_put (\<lambda>k. parse_path (FSB_path fs k)) es k = Some d"
  shows "FSB_get fs k s' = Some d"
  using assms by (rule fsb_objects.get_put_all)

text \<open>An S3 store meets the contract when its file store keeps what it is given and leaves other objects alone.\<close>

definition S3_put :: "'w S3CcStore \<Rightarrow> string \<times> string \<Rightarrow> string \<Rightarrow> 'w world \<Rightarrow> 'w world option" where
  "S3_put ws k d w = map_option snd
     (ok_of (S3_PutObject ws \<lparr>po_FileName = fst k, po_FileExtension = snd k, po_ObjectState = Memory, po_Data = d\<rparr> w))"

definition S3_get :: "'w S3CcStore \<Rightarrow> string \<times> string \<Rightarrow> 'w world \<Rightarrow> string option" where
  "S3_get ws k w = map_option fst
     (ok_of (S3_GetObject ws \<lparr>go_SourceRootPath = s3_remoteRootPath ws, go_FileName = fst k, go_FileExtension = snd k\<rparr> w))"

definition S3_path :: "'w S3CcStore \<Rightarrow> string \<times> string \<Rightarrow> string" where
  "S3_path ws k = s3_path (s3_remoteRootPath ws) (s3_manifestId ws) (file_name (fst k) (snd k))"

lemma S3_put_Some:
  "S3_put ws k d w = Some w' \<longleftrightarrow> PutObject (s3_fs ws) \<lparr>rd_bytes = d, rd_error = None\<rparr> (S3_path ws k) w = Some (Ok (), w')"
  by (auto simp: S3_put_def S3_path_def map_option_eq_Some ok_of_Some S3_PutObject_def Let_def io_Ok_iffs)

lemma S3_get_Some:
  "S3_get ws k w = Some d \<longleftrightarrow> (\<exists>w'. GetObject (s3_fs ws) (S3_path ws k) w = Some (Ok \<lparr>rd_bytes = d, rd_error = None\<rparr>, w'))"
proof -
  have "read_all r = Ok d \<longleftrightarrow> r = \<lparr>rd_bytes = d, rd_error = None\<rparr>" for r
    by (cases r) (auto simp: read_all_def split: option.splits)
  then show ?thesis
    by (auto simp: S3_get_def S3_path_def map_option_eq_Some ok_of_Some S3_GetObject_def io_Ok_iffs)
qed

lemma S3_objects:
  assumes "store_laws (s3_fs ws)" and "store_frame (s3_fs ws)"
  shows "object_store (S3_put ws) (S3_get ws) (S3_path ws)"
proof
  fix k k' d d' w w'
  assume p: "S3_put ws k d w = Some w'"
  show "S3_path ws k = S3_path ws k' \<Longrightarrow> S3_get ws k' w' = Some d"
    using p assms(1) unfolding S3_put_Some S3_get_Some store_laws_def by fastforce
  show "S3_path ws k \<noteq> S3_path ws k' \<Longrightarrow> S3_get ws k' w = Some d' \<Longrightarrow> S3_get ws k' w' = Some d'"
    using p assms(2) unfolding S3_put_Some S3_get_Some store_frame_def by metis
qed

subsection \<open>Properties\<close>

text \<open>C26. The two stores of the compute are interchangeable: after the same puts on both, a name is got with the
  data that was put last under it from either, as long as no other name that was put has the
  same cleaned path (the file system store cleans paths and the S3 store does not).\<close>

theorem stores_agree:
  assumes "store_laws (s3_fs ws)" and "store_frame (s3_fs ws)"
    and "put_all (FSB_put fs) es s = Some s'" and "put_all (S3_put ws) es w = Some w'"
    and "\<And>k' d. (k', d) \<in> set es \<Longrightarrow> parse_path (FSB_path fs k') = parse_path (FSB_path fs k) \<Longrightarrow>
      file_name (fst k') (snd k') = file_name (fst k) (snd k)"
    and "last_put (\<lambda>k. file_name (fst k) (snd k)) es k = Some d"
  shows "FSB_get fs k s' = Some d \<and> S3_get ws k w' = Some d"
proof
  have "FSB_path fs k' = FSB_path fs k \<and> S3_path ws k' = S3_path ws k"
    if "file_name (fst k') (snd k') = file_name (fst k) (snd k)" for k'
    using that by (simp add: FSB_path_def S3_path_def)
  moreover have "file_name (fst k') (snd k') = file_name (fst k) (snd k)" if "S3_path ws k' = S3_path ws k" for k'
    using that by (simp add: S3_path_def s3_path_def)
  ultimately have "last_put (\<lambda>k. parse_path (FSB_path fs k)) es k = Some d" "last_put (S3_path ws) es k = Some d"
    unfolding assms(6) [symmetric] using assms(5) by (intro last_put_places; metis)+
  then show "FSB_get fs k s' = Some d" "S3_get ws k w' = Some d"
    using FSB_objects_latest [OF assms(3)] object_store.get_put_all [OF S3_objects [OF assms(1,2)] assms(4)] by blast+
qed

text \<open>C27. A payload that was set is the payload that is got, on the file system store and on the S3 store,
  when the JSON encoding of the payload decodes to it and the file store keeps what it is given.\<close>

theorem payload_roundtrip:
  assumes "json_laws js p"
  shows "(FSB_SetPayload js b fs p w = Some (Ok (), w') \<longrightarrow> FSB_GetPayload js fs w' = Some (Ok p, w')) \<and>
    (store_laws (s3_fs ws) \<longrightarrow> S3_SetPayload js b ws p w = Some (Ok (), w') \<longrightarrow> S3_GetPayload js ws w' = Some (Ok p, w'))"
proof (intro conjI impI)
  assume "FSB_SetPayload js b fs p w = Some (Ok (), w')"
  then obtain d dsk where d: "json_marshal js b p = Ok d" "fst (os_WriteFile (FSB_payload_path fs) d dsk) = Ok ()"
    "disk w' = snd (os_WriteFile (FSB_payload_path fs) d dsk)"
    by (auto simp: FSB_SetPayload_def io_Ok_iffs)
  have "os_ReadFile (FSB_payload_path fs) (disk w') = Ok d"
    unfolding d(3) os_read_after_write [OF d(2)] by simp
  moreover have "json_unmarshal js d = Ok p"
    using assms d(1) unfolding json_laws_def by blast
  ultimately show "FSB_GetPayload js fs w' = Some (Ok p, w')"
    by (auto simp: FSB_GetPayload_def io_Ok_iffs)
next
  assume laws: "store_laws (s3_fs ws)" and "S3_SetPayload js b ws p w = Some (Ok (), w')"
  then obtain d where d: "json_marshal js b p = Ok d"
    "PutObject (s3_fs ws) \<lparr>rd_bytes = d, rd_error = None\<rparr> (S3_payload_path ws) w = Some (Ok (), w')"
    by (auto simp: S3_SetPayload_def io_Ok_iffs)
  then have "GetObject (s3_fs ws) (S3_payload_path ws) w' = Some (Ok \<lparr>rd_bytes = d, rd_error = None\<rparr>, w')"
    using laws unfolding store_laws_def by fastforce
  moreover have "json_decode js \<lparr>rd_bytes = d, rd_error = None\<rparr> = Ok p"
    using assms d(1) unfolding json_laws_def by blast
  ultimately show "S3_GetPayload js ws w' = Some (Ok p, w')"
    by (auto simp: S3_GetPayload_def io_Ok_iffs)
qed

text \<open>C28. Pulling an object from the file system store leaves the object's bytes at the destination, except
  when source and destination are the same file: then the file is emptied before it is read, its
  content is lost and the call reports success.\<close>

theorem FSB_PullObject_bytes:
  assumes "FSB_PullObject fs input w = Some (Ok (), w')"
  defines "src \<equiv> path_join [pu_SourceRootPath input, fsb_manifestId fs, file_name (pu_FileName input) (pu_FileExtension input)]"
    and "dst \<equiv> path_join [pu_DestinationRootPath input, file_name (pu_FileName input) (pu_FileExtension input)]"
  assumes "os_ReadFile src (disk w) = Ok d"
  shows "os_ReadFile dst (disk w') = Ok (if parse_path src = parse_path dst then [] else d)"
proof -
  let ?d1 = "snd (os_MkdirAll (path_dir dst) (disk w))"
  obtain data where create: "fst (os_Create dst ?d1) = Ok ()"
    and read: "os_ReadFile src (snd (os_Create dst ?d1)) = Ok data"
    and copy: "fst (io_Copy dst \<lparr>rd_bytes = data, rd_error = None\<rparr> (snd (os_Create dst ?d1))) = Ok ()"
    and w': "disk w' = snd (io_Copy dst \<lparr>rd_bytes = data, rd_error = None\<rparr> (snd (os_Create dst ?d1)))"
    using assms(1) unfolding FSB_PullObject_def Let_def src_def [symmetric] dst_def [symmetric]
    by (auto simp: io_Ok_iffs)
  have "os_ReadFile src ?d1 = Ok d"
    using assms(4) by (rule os_MkdirAll_read)
  then have "data = (if parse_path src = parse_path dst then [] else d)"
    using read create by (simp add: os_Create_def os_read_after_write split: if_splits)
  then show ?thesis
    unfolding w' io_Copy_Ok(3) [OF copy] os_read_after_write [OF io_Copy_Ok(1) [OF copy]] by simp
qed

text \<open>Pulling an object that S3 does not give destroys the local file: the call returns the error of
  S3, and the file at the destination is there and empty, whatever it held.\<close>

theorem S3_PullObject_missing:
  assumes "fst (os_Create lp (disk w)) = Ok ()"
    and "lp = pu_DestinationRootPath input @ ''/'' @ file_name (pu_FileName input) (pu_FileExtension input)"
    and "GetObject (s3_fs ws) (s3_path (pu_SourceRootPath input) (s3_manifestId ws)
       (file_name (pu_FileName input) (pu_FileExtension input))) (w \<lparr>disk := snd (os_Create lp (disk w))\<rparr>)
      = Some (Err e, w \<lparr>disk := snd (os_Create lp (disk w))\<rparr>)"
  shows "\<exists>w'. S3_PullObject ws input w = Some (Err e, w') \<and> os_ReadFile lp (disk w') = Ok []"
proof -
  have "io_os (os_Create lp) w = Some (Ok (), w \<lparr>disk := snd (os_Create lp (disk w))\<rparr>)"
    using assms(1) by (simp add: io_os_Ok)
  then have "S3_PullObject ws input w = Some (Err e, w \<lparr>disk := snd (os_Create lp (disk w))\<rparr>)"
    using assms(3) unfolding S3_PullObject_def Let_def assms(2) [symmetric] by (simp add: io_bind_def)
  moreover have "os_ReadFile lp (snd (os_Create lp (disk w))) = Ok []"
    using os_read_after_write [of lp "[]" "disk w" lp] assms(1) by (simp add: os_Create_def)
  ultimately show ?thesis by auto
qed

subsection \<open>Instances\<close>

definition demo_fsb :: FSBCcStore where
  "demo_fsb = \<lparr>fsb_localRootPath = localRootPath, fsb_remoteRootPath = ''/cc'', fsb_manifestId = ''m'', fsb_payloadId = ''p'',
     fsb_storeType = FSB\<rparr>"

definition demo_disk :: file_system where
  "demo_disk = \<lparr>fs_files = [((True, [''m'', ''x.t'']), ''old'')], fs_dirs = [(True, [''m'']), (True, [''out''])]\<rparr>"

definition demo_s3 :: "(string \<times> string) list S3CcStore" where
  "demo_s3 = \<lparr>s3_fs = mem_store, s3_localRootPath = localRootPath, s3_remoteRootPath = ''/cc'', s3_manifestId = ''m'',
     s3_payloadId = ''p'', s3_storeType = FSS3\<rparr>"

theorem FSB_objects_latest_witness:
  "\<exists>s'. put_all (FSB_put demo_fsb) [((''a'', ''b.c''), ''1''), ((''a.b'', ''c''), ''2'')] demo_disk = Some s' \<and>
     FSB_get demo_fsb (''a'', ''b.c'') s' = Some ''2''"
proof -
  have "put_all (FSB_put demo_fsb) [((''a'', ''b.c''), ''1''), ((''a.b'', ''c''), ''2'')] demo_disk \<noteq> None"
    "last_put (\<lambda>k. parse_path (FSB_path demo_fsb k)) [((''a'', ''b.c''), ''1''), ((''a.b'', ''c''), ''2'')] (''a'', ''b.c'') = Some ''2''"
    by code_simp+
  then show ?thesis
    using FSB_objects_latest by blast
qed

definition demo_objects :: "((string \<times> string) \<times> string) list" where
  "demo_objects = [((''a'', ''b.c''), ''1''), ((''x'', ''t''), ''2''), ((''a.b'', ''c''), ''3'')]"

theorem stores_agree_witness:
  "\<exists>s' w'. put_all (FSB_put demo_fsb) demo_objects demo_disk = Some s' \<and>
     put_all (S3_put demo_s3) demo_objects \<lparr>disk = demo_disk, remote = []\<rparr> = Some w' \<and>
     FSB_get demo_fsb (''a'', ''b.c'') s' = Some ''3'' \<and> S3_get demo_s3 (''a'', ''b.c'') w' = Some ''3''"
proof -
  have "put_all (FSB_put demo_fsb) demo_objects demo_disk \<noteq> None"
    "put_all (S3_put demo_s3) demo_objects \<lparr>disk = demo_disk, remote = []\<rparr> \<noteq> None"
    by code_simp+
  then obtain s' w' where runs: "put_all (FSB_put demo_fsb) demo_objects demo_disk = Some s'"
    "put_all (S3_put demo_s3) demo_objects \<lparr>disk = demo_disk, remote = []\<rparr> = Some w'"
    by blast
  have "list_all (\<lambda>(k', d). parse_path (FSB_path demo_fsb k') = parse_path (FSB_path demo_fsb (''a'', ''b.c'')) \<longrightarrow>
      file_name (fst k') (snd k') = ''a.b.c'') demo_objects"
    "last_put (\<lambda>k. file_name (fst k) (snd k)) demo_objects (''a'', ''b.c'') = Some ''3''"
    by code_simp+
  moreover have "file_name ''a'' ''b.c'' = ''a.b.c''" "s3_fs demo_s3 = mem_store"
    by (simp_all add: file_name_def demo_s3_def)
  ultimately show ?thesis
    using stores_agree [OF _ _ runs, of "(''a'', ''b.c'')" "''3''"] runs mem_store_laws mem_store_frame
    by (fastforce simp: list_all_iff)
qed

definition text_codec :: "string json_codec" where
  "text_codec = \<lparr>json_marshal = (\<lambda>b p. Ok p), json_unmarshal = Ok, json_decode = (\<lambda>r. Ok (rd_bytes r))\<rparr>"

theorem payload_roundtrip_witness:
  "\<exists>w'. FSB_SetPayload text_codec True demo_fsb ''{}'' \<lparr>disk = demo_disk, remote = ()\<rparr> = Some (Ok (), w') \<and>
     FSB_GetPayload text_codec demo_fsb w' = Some (Ok ''{}'', w')"
proof -
  have "ok_of (FSB_SetPayload text_codec True demo_fsb ''{}'' \<lparr>disk = demo_disk, remote = ()\<rparr>) \<noteq> None"
    by code_simp
  then obtain w' where "FSB_SetPayload text_codec True demo_fsb ''{}'' \<lparr>disk = demo_disk, remote = ()\<rparr> = Some (Ok (), w')"
    by (auto simp: ok_of_Some)
  moreover have "json_laws text_codec ''{}''"
    by (simp add: json_laws_def text_codec_def)
  ultimately show ?thesis
    using payload_roundtrip [of text_codec "''{}''" True demo_fsb "\<lparr>disk = demo_disk, remote = ()\<rparr>" w'
      "\<lparr>s3_fs = undefined, s3_localRootPath = [], s3_remoteRootPath = [], s3_manifestId = [], s3_payloadId = [], s3_storeType = []\<rparr>"]
    by blast
qed

definition self_pull :: PullObjectInput where
  "self_pull = \<lparr>pu_SourceRootPath = [], pu_DestinationRootPath = ''m'', pu_FileName = ''x'', pu_FileExtension = ''t''\<rparr>"

definition self_disk :: file_system where
  "self_disk = \<lparr>fs_files = [((False, [''m'', ''x.t'']), ''old'')], fs_dirs = [(False, [''m''])]\<rparr>"

theorem FSB_PullObject_bytes_witness:
  "\<exists>w'. FSB_PullObject demo_fsb self_pull \<lparr>disk = self_disk, remote = ()\<rparr> = Some (Ok (), w') \<and>
     os_ReadFile ''m/x.t'' (disk w') = Ok []"
proof -
  have "ok_of (FSB_PullObject demo_fsb self_pull \<lparr>disk = self_disk, remote = ()\<rparr>) \<noteq> None"
    by code_simp
  then obtain w' where w': "FSB_PullObject demo_fsb self_pull \<lparr>disk = self_disk, remote = ()\<rparr> = Some (Ok (), w')"
    by (auto simp: ok_of_Some)
  have p: "path_join [pu_SourceRootPath self_pull, fsb_manifestId demo_fsb, file_name (pu_FileName self_pull) (pu_FileExtension self_pull)] = ''m/x.t''"
    "path_join [pu_DestinationRootPath self_pull, file_name (pu_FileName self_pull) (pu_FileExtension self_pull)] = ''m/x.t''"
    "os_ReadFile ''m/x.t'' self_disk = Ok ''old''"
    by code_simp+
  show ?thesis
    using FSB_PullObject_bytes [OF w', of "''old''"] w' p by simp
qed

theorem S3_PullObject_missing_witness:
  "\<exists>w'. S3_PullObject demo_s3 \<lparr>pu_SourceRootPath = ''/cc'', pu_DestinationRootPath = ''/m'', pu_FileName = ''x'',
       pu_FileExtension = ''t''\<rparr> \<lparr>disk = demo_disk, remote = []\<rparr> = Some (Err (External ''NotFound''), w') \<and>
     os_ReadFile ''/m/x.t'' (disk w') = Ok []"
proof (rule S3_PullObject_missing)
  show "fst (os_Create ''/m/x.t'' (disk \<lparr>disk = demo_disk, remote = []\<rparr>)) = Ok ()"
    by code_simp
qed (simp_all add: file_name_def demo_s3_def mem_store_def)

end
