(* ===== verification/Go_Reflect.thy ===== *)
theory Go_Reflect
  imports Go_Values
begin

section \<open>Reflection: kinds, typed slices and structs\<close>

text \<open>
  What \<^verbatim>\<open>event_store.go\<close> and \<^verbatim>\<open>tiledb_store.go\<close> do by reflection: the value of an \<^verbatim>\<open>any\<close>
  that holds a typed slice, indexing and slicing with Go's bounds checks, and the fields of a
  struct with their tags. Types are compared by kind (a named type counts as its kind), a
  float is its bit pattern, and the fields are exported ones.
\<close>

subsection \<open>Kinds and cells\<close>

type_synonym byte = "8 word"

datatype go_kind = Float32 | Float64 | Uint8 | Int8 | Int16 | Int32 | Int64 | StringKind | Bytes
  | OtherKind string

datatype cell =
    CFloat32 "32 word"
  | CFloat64 "64 word"
  | CUint8 byte
  | CInt8 "8 word"
  | CInt16 "16 word"
  | CInt32 "32 word"
  | CInt64 "64 word"
  | CString string
  | CBytes "byte list"
  | COther string string

primrec kind_of :: "cell \<Rightarrow> go_kind" where
  "kind_of (CFloat32 _) = Float32"
| "kind_of (CFloat64 _) = Float64"
| "kind_of (CUint8 _) = Uint8"
| "kind_of (CInt8 _) = Int8"
| "kind_of (CInt16 _) = Int16"
| "kind_of (CInt32 _) = Int32"
| "kind_of (CInt64 _) = Int64"
| "kind_of (CString _) = StringKind"
| "kind_of (CBytes _) = Bytes"
| "kind_of (COther k _) = OtherKind k"

text \<open>\<^verbatim>\<open>Kind.String()\<close>, and the type as a \<^verbatim>\<open>Value\<close> prints it.\<close>

primrec kind_string :: "go_kind \<Rightarrow> string" where
  "kind_string Float32 = ''float32''"
| "kind_string Float64 = ''float64''"
| "kind_string Uint8 = ''uint8''"
| "kind_string Int8 = ''int8''"
| "kind_string Int16 = ''int16''"
| "kind_string Int32 = ''int32''"
| "kind_string Int64 = ''int64''"
| "kind_string StringKind = ''string''"
| "kind_string Bytes = ''slice''"
| "kind_string (OtherKind k) = k"

definition type_string :: "go_kind \<Rightarrow> string" where
  "type_string k = (if k = Bytes then ''[]uint8'' else kind_string k)"

text \<open>\<^verbatim>\<open>Value.String()\<close>: the string, or the type between angle brackets.\<close>

definition value_String :: "cell \<Rightarrow> string" where
  "value_String c = (case c of CString s \<Rightarrow> s | _ \<Rightarrow> ''<'' @ type_string (kind_of c) @ '' Value>'')"

datatype go_any = AnyNil | AnySlice go_kind "cell list" | AnyCell cell

subsection \<open>Bytes of a string\<close>

definition byte_of :: "char \<Rightarrow> byte" where
  "byte_of c = word_of_nat (of_char c)"

definition char_of_byte :: "byte \<Rightarrow> char" where
  "char_of_byte b = char_of (unat b)"

definition bytes_of :: "string \<Rightarrow> byte list" where
  "bytes_of s = map byte_of s"

definition string_of_bytes :: "byte list \<Rightarrow> string" where
  "string_of_bytes bs = map char_of_byte bs"

lemma char_of_byte_of [simp]: "char_of_byte (byte_of c) = c"
  by (simp add: char_of_byte_def byte_of_def unat_of_nat take_bit_eq_mod)

lemma byte_of_char_of [simp]: "byte_of (char_of_byte b) = b"
  using unsigned_less [of b, where ?'a=nat]
  by (simp add: char_of_byte_def byte_of_def)

lemma string_of_bytes_of [simp]: "string_of_bytes (bytes_of s) = s"
  by (simp add: string_of_bytes_def bytes_of_def comp_def)

lemma bytes_of_string_of [simp]: "bytes_of (string_of_bytes bs) = bs"
  by (simp add: string_of_bytes_def bytes_of_def comp_def)

lemma length_bytes_of [simp]: "length (bytes_of s) = length s"
  by (simp add: bytes_of_def)

subsection \<open>Indexing and slicing\<close>

text \<open>An index is an \<^verbatim>\<open>int\<close>; out of range is a panic.\<close>

definition go_index :: "'a list \<Rightarrow> int \<Rightarrow> 'a res" where
  "go_index xs i = (if 0 \<le> i \<and> i < int (length xs) then Ok (xs ! nat i) else Panic)"

text \<open>\<^verbatim>\<open>xs[i:j]\<close> on a slice whose capacity is its length.\<close>

definition go_slice :: "'a list \<Rightarrow> int \<Rightarrow> int \<Rightarrow> 'a list res" where
  "go_slice xs i j = (if 0 \<le> i \<and> i \<le> j \<and> j \<le> int (length xs)
     then Ok (take (nat j - nat i) (drop (nat i) xs)) else Panic)"

lemma go_index_nat [simp]: "n < length xs \<Longrightarrow> go_index xs (int n) = Ok (xs ! n)"
  by (simp add: go_index_def)

lemma go_index_Ok_iff: "go_index xs i = Ok x \<longleftrightarrow> 0 \<le> i \<and> nat i < length xs \<and> x = xs ! nat i"
  by (auto simp: go_index_def)

lemma go_slice_nat: "i \<le> j \<Longrightarrow> j \<le> length xs \<Longrightarrow> go_slice xs (int i) (int j) = Ok (take (j - i) (drop i xs))"
  by (simp add: go_slice_def)

text \<open>\<^verbatim>\<open>reflect.Append\<close> of one value.\<close>

definition reflect_append :: "go_any \<Rightarrow> cell \<Rightarrow> go_any res" where
  "reflect_append s c = (case s of
     AnySlice k cs \<Rightarrow> if kind_of c = k then Ok (AnySlice k (cs @ [c])) else Panic
   | _ \<Rightarrow> Panic)"

text \<open>\<^verbatim>\<open>Value.Len()\<close> and \<^verbatim>\<open>Value.Index(i)\<close>.\<close>

definition reflect_Len :: "go_any \<Rightarrow> int res" where
  "reflect_Len v = (case v of AnySlice _ cs \<Rightarrow> Ok (int (length cs)) | AnyCell (CString s) \<Rightarrow> Ok (int (length s))
     | AnyCell (CBytes bs) \<Rightarrow> Ok (int (length bs)) | _ \<Rightarrow> Panic)"

definition reflect_Index :: "go_any \<Rightarrow> int \<Rightarrow> cell res" where
  "reflect_Index v i = (case v of
     AnySlice _ cs \<Rightarrow> go_index cs i
   | AnyCell (CString s) \<Rightarrow> res_bind (go_index s i) (\<lambda>c. Ok (CUint8 (byte_of c)))
   | AnyCell (CBytes bs) \<Rightarrow> res_bind (go_index bs i) (\<lambda>b. Ok (CUint8 b))
   | _ \<Rightarrow> Panic)"

subsection \<open>Structs\<close>

record struct_field =
  sf_Kind :: go_kind
  sf_Tag :: "string option"

text \<open>A struct value is the list of its fields' values.\<close>

definition has_type :: "struct_field list \<Rightarrow> cell list \<Rightarrow> bool" where
  "has_type flds v \<longleftrightarrow> list_all2 (\<lambda>f c. kind_of c = sf_Kind f) flds v"

text \<open>\<^verbatim>\<open>elem.Field(pos).Set(reflect.ValueOf(x))\<close>\<close>

definition field_Set :: "cell list \<Rightarrow> nat \<Rightarrow> cell \<Rightarrow> cell list res" where
  "field_Set v pos x = res_bind (go_index v (int pos)) (\<lambda>old.
     if kind_of x = kind_of old then Ok (v[pos := x]) else Panic)"

lemma has_type_length: "has_type flds v \<Longrightarrow> length v = length flds"
  by (simp add: has_type_def list_all2_lengthD)

lemma has_type_nth: "has_type flds v \<Longrightarrow> i < length flds \<Longrightarrow> kind_of (v ! i) = sf_Kind (flds ! i)"
  by (auto simp: has_type_def dest: list_all2_nthD)

lemma field_Set_ok:
  "has_type flds v \<Longrightarrow> i < length flds \<Longrightarrow> kind_of x = sf_Kind (flds ! i) \<Longrightarrow>
     field_Set v i x = Ok (v[i := x]) \<and> has_type flds (v[i := x])"
  by (auto simp: field_Set_def has_type_length has_type_nth)
     (auto simp: has_type_def list_all2_conv_all_nth nth_list_update)

end
