(* ===== verification/Event_Store.thy ===== *)
theory Event_Store
  imports Go_Reflect Store_Sessions
begin

section \<open>The event store: schemas, columns of records, results\<close>

text \<open>
  \<^verbatim>\<open>event_store.go\<close>: a slice of structs is stored as one column per tagged field
  (\<open>StructSliceToArrayConfig\<close>), the strings of a column as their bytes with the offset of each
  (\<open>HandleStrings\<close>); a result is read by row, by column, or one record at a time (\<open>Scan\<close>). The
  order in which \<open>Scan\<close> visits the map of tags is an argument.
\<close>

subsection \<open>Schemas and inputs\<close>

datatype ARRAY_TYPE = ARRAY_DENSE | ARRAY_SPARSE
datatype DIMENSION_TYPE = DIMENSION_INT | DIMENSION_STRING
datatype LAYOUT_ORDER = ROWMAJOR | COLMAJOR | UNORDERED
datatype ATTR_TYPE = ATTR_INT64 | ATTR_INT32 | ATTR_INT16 | ATTR_INT8 | ATTR_UINT8 | ATTR_FLOAT32 | ATTR_FLOAT64
  | ATTR_STRING | OtherAttr int

definition Golang2AttrTypeMap :: "go_kind \<Rightarrow> ATTR_TYPE option" where
  "Golang2AttrTypeMap k = (case k of
     Float32 \<Rightarrow> Some ATTR_FLOAT32
   | Float64 \<Rightarrow> Some ATTR_FLOAT64
   | Uint8 \<Rightarrow> Some ATTR_UINT8
   | Int8 \<Rightarrow> Some ATTR_INT8
   | Int16 \<Rightarrow> Some ATTR_INT16
   | Int32 \<Rightarrow> Some ATTR_INT32
   | Int64 \<Rightarrow> Some ATTR_INT64
   | StringKind \<Rightarrow> Some ATTR_STRING
   | _ \<Rightarrow> None)"

definition MAXDIMENSION :: int where
  "MAXDIMENSION = 9223372036854775807"

definition defaultTileExtent :: int where
  "defaultTileExtent = 256"

record ArrayAttribute =
  aa_Name :: string
  aa_DataType :: ATTR_TYPE

record ArrayDimension =
  ad_Name :: string
  ad_DimensionType :: DIMENSION_TYPE
  ad_Domain :: "int list"
  ad_TileExtent :: int

record CreateArrayInput =
  ca_Attributes :: "ArrayAttribute list"
  ca_Dimensions :: "ArrayDimension list"
  ca_ArrayPath :: string
  ca_ArrayType :: ARRAY_TYPE
  ca_CellLayout :: LAYOUT_ORDER
  ca_TileLayout :: LAYOUT_ORDER

text \<open>\<^verbatim>\<open>Offsets\<close> is nil or a slice.\<close>

record PutArrayBuffer =
  pb_AttrName :: string
  pb_Buffer :: go_any
  pb_Offsets :: "64 word list option"

record PutArrayInput =
  pa_Buffers :: "PutArrayBuffer list"
  pa_BufferRange :: "int list"
  pa_DataPath :: string
  pa_ArrayType :: ARRAY_TYPE
  pa_Coords :: "int list list"
  pa_PutLayout :: LAYOUT_ORDER

record GetArrayInput =
  ga_Attrs :: "string list"
  ga_DataPath :: string
  ga_BufferRange :: "int list"
  ga_SearchOrder :: LAYOUT_ORDER

record ArraySchema =
  as_AttributeNames :: "string list"
  as_AttributeTypes :: "ATTR_TYPE list"
  as_Domain :: "int list"
  as_DomainNames :: "string list"
  as_ArrayType :: ARRAY_TYPE

record ArrayResult =
  ar_Range :: "int list"
  ar_Data :: "go_any list"
  ar_Domains :: "go_any list"
  ar_Schema :: ArraySchema
  ar_row :: int
  ar_Attrs :: "string list"

text \<open>The index of the first name that is equal.\<close>

fun position :: "string \<Rightarrow> string list \<Rightarrow> nat option" where
  "position a [] = None"
| "position a (x # xs) = (if x = a then Some 0 else map_option Suc (position a xs))"

definition GetType :: "ArraySchema \<Rightarrow> string \<Rightarrow> ATTR_TYPE res" where
  "GetType as attrname = (case position attrname (as_AttributeNames as) of
     Some i \<Rightarrow> go_index (as_AttributeTypes as) (int i)
   | None \<Rightarrow> Err (Errorf ''invalid attribute name: %s'' [attrname]))"

subsection \<open>Reading a result\<close>

text \<open>\<^verbatim>\<open>Range[hi] - Range[lo] + 1\<close> in \<^verbatim>\<open>int64\<close>.\<close>

definition extent :: "int list \<Rightarrow> nat \<Rightarrow> nat \<Rightarrow> int res" where
  "extent rng lo hi = res_bind (go_index rng (int hi)) (\<lambda>h. res_bind (go_index rng (int lo)) (\<lambda>l.
     Ok (wrap64 (h - l + 1))))"

definition Rows :: "ArrayResult \<Rightarrow> int res" where
  "Rows ar = extent (ar_Range ar) 0 1"

definition Cols :: "ArrayResult \<Rightarrow> int res" where
  "Cols ar = extent (ar_Range ar) 2 3"

text \<open>The slice that is stored into \<^verbatim>\<open>dest\<close>, a pointer to a slice of elements of kind \<open>k\<close>.\<close>

definition GetRow :: "ArrayResult \<Rightarrow> int \<Rightarrow> int \<Rightarrow> go_kind \<Rightarrow> cell list res" where
  "GetRow ar rowindex attrindex k =
     res_bind (extent (ar_Range ar) 2 3) (\<lambda>width.
     let start = wrap64 (rowindex * width); end = wrap64 (start + width) in
     res_bind (go_index (ar_Data ar) attrindex) (\<lambda>v. case v of
       AnySlice kv cs \<Rightarrow> res_bind (go_slice cs start end) (\<lambda>rowvals. if kv = k then Ok rowvals else Panic)
     | _ \<Rightarrow> Panic))"

fun column_loop :: "go_any \<Rightarrow> go_kind \<Rightarrow> int \<Rightarrow> int \<Rightarrow> nat \<Rightarrow> nat \<Rightarrow> cell list \<Rightarrow> cell list res" where
  "column_loop vals k resultcols colindex i 0 newVals = Ok newVals"
| "column_loop vals k resultcols colindex i (Suc n) newVals =
     res_bind (reflect_Index vals (wrap64 (wrap64 (int i * resultcols) + colindex))) (\<lambda>val.
       if kind_of val = k then column_loop vals k resultcols colindex (Suc i) n (newVals @ [val]) else Panic)"

definition GetColumn :: "ArrayResult \<Rightarrow> int \<Rightarrow> int \<Rightarrow> go_kind \<Rightarrow> cell list res" where
  "GetColumn ar colindex attrindex k =
     res_bind (go_index (ar_Data ar) attrindex) (\<lambda>vals.
     res_bind (extent (ar_Range ar) 0 1) (\<lambda>resultrows.
     res_bind (extent (ar_Range ar) 2 3) (\<lambda>resultcols.
       column_loop vals k resultcols colindex 0 (nat resultrows) [])))"

fun size_loop :: "int list \<Rightarrow> int \<Rightarrow> int res" where
  "size_loop [] sz = Ok sz"
| "size_loop [x] sz = Panic"
| "size_loop (lo # hi # br) sz = size_loop br (wrap64 (sz * wrap64 (hi - lo + 1)))"

definition Size :: "ArrayResult \<Rightarrow> int res" where
  "Size ar = (case ar_Domains ar of
     d # _ \<Rightarrow> (case d of AnySlice Int64 cs \<Rightarrow> Ok (int (length cs)) | _ \<Rightarrow> Panic)
   | [] \<Rightarrow> size_loop (ar_Range ar) 1)"

subsection \<open>Scanning records\<close>

text \<open>The map from a tag to the position of the field that carries it; the last one wins.\<close>

definition tagAsPositionMap :: "struct_field list \<Rightarrow> (string \<times> nat) list" where
  "tagAsPositionMap flds = fold (\<lambda>(i, f) tagmap. case sf_Tag f of
       Some tagval \<Rightarrow> AList.update tagval i tagmap
     | None \<Rightarrow> tagmap) (enumerate 0 flds) []"

definition attrResultPosition :: "string \<Rightarrow> string list \<Rightarrow> int" where
  "attrResultPosition attr attrs = (case position attr attrs of Some i \<Rightarrow> int i | None \<Rightarrow> -1)"

definition handleType :: "int \<Rightarrow> ATTR_TYPE \<Rightarrow> go_any \<Rightarrow> cell res" where
  "handleType index attrType val = (case val of
     AnyNil \<Rightarrow> Panic
   | AnySlice k cs \<Rightarrow> res_bind (go_index cs index) (\<lambda>sval.
       if attrType = ATTR_STRING
       then (case sval of CBytes bs \<Rightarrow> Ok (CString (string_of_bytes bs)) | _ \<Rightarrow> Panic)
       else Ok sval)
   | AnyCell (CBytes bs) \<Rightarrow> res_bind (go_index bs index) (\<lambda>b. if attrType = ATTR_STRING then Panic else Ok (CUint8 b))
   | AnyCell c \<Rightarrow> Ok c)"

text \<open>\<^verbatim>\<open>for i, s := range ar.Schema.AttributeNames\<close>, for one tag and its position.\<close>

fun scan_names :: "ArrayResult \<Rightarrow> string \<Rightarrow> nat \<Rightarrow> nat \<Rightarrow> string list \<Rightarrow> cell list \<Rightarrow> cell list res" where
  "scan_names ar attr pos i [] v = Ok v"
| "scan_names ar attr pos i (s # names) v =
     res_bind
       (if s = attr then
          res_bind (go_index (as_AttributeTypes (ar_Schema ar)) (int i)) (\<lambda>typ.
          let resultPosition = attrResultPosition s (ar_Attrs ar) in
          if resultPosition > -1 then
            res_bind (go_index (ar_Data ar) resultPosition) (\<lambda>data.
            res_bind (handleType (ar_row ar) typ data) (\<lambda>val. field_Set v pos val))
          else Ok v)
        else Ok v)
       (\<lambda>v'. scan_names ar attr pos (Suc i) names v')"

fun scan_tags :: "ArrayResult \<Rightarrow> (string \<times> nat) list \<Rightarrow> cell list \<Rightarrow> cell list res" where
  "scan_tags ar [] v = Ok v"
| "scan_tags ar ((attr, pos) # tags) v =
     res_bind (scan_names ar attr pos 0 (as_AttributeNames (ar_Schema ar)) v) (scan_tags ar tags)"

text \<open>\<open>order\<close> is the order in which the map of tags is visited.\<close>

definition Scan ::
    "((string \<times> nat) list \<Rightarrow> (string \<times> nat) list) \<Rightarrow> struct_field list \<Rightarrow> cell list \<Rightarrow> ArrayResult \<Rightarrow>
     (cell list \<times> ArrayResult) res" where
  "Scan order flds v ar = res_bind (scan_tags ar (order (tagAsPositionMap flds)) v) (\<lambda>v'.
     Ok (v', ar \<lparr>ar_row := wrap64 (ar_row ar + 1)\<rparr>))"

subsection \<open>Columns of records\<close>

record ArrayAttrData =
  at_AttrName :: string
  at_StructPosition :: nat
  at_AttrType :: ATTR_TYPE
  at_Buffer :: go_any
  at_Offsets :: "64 word list option"

type_synonym ArrayAttrSet = "ArrayAttrData list"

fun buildBuffers_loop :: "nat \<Rightarrow> struct_field list \<Rightarrow> ArrayAttrSet \<Rightarrow> ArrayAttrSet res" where
  "buildBuffers_loop i [] aad = Ok aad"
| "buildBuffers_loop i (field # flds) aad =
     (case sf_Tag field of
        Some tagval \<Rightarrow>
          (case Golang2AttrTypeMap (sf_Kind field) of
             Some attrtype \<Rightarrow> buildBuffers_loop (Suc i) flds (aad @ [\<lparr>at_AttrName = tagval, at_StructPosition = i,
               at_AttrType = attrtype, at_Buffer = AnySlice (sf_Kind field) [], at_Offsets = None\<rparr>])
           | None \<Rightarrow> Err (Errorf ''unsupported golang type: %s'' [kind_string (sf_Kind field)]))
      | None \<Rightarrow> buildBuffers_loop (Suc i) flds aad)"

definition buildBuffers :: "struct_field list \<Rightarrow> ArrayAttrSet res" where
  "buildBuffers structType = buildBuffers_loop 0 structType []"

text \<open>The bytes of a column of strings, one after the other, and where each starts.\<close>

fun concat_strings :: "nat \<Rightarrow> string list \<Rightarrow> byte list \<times> 64 word list" where
  "concat_strings offsetIndex [] = ([], [])"
| "concat_strings offsetIndex (s # ss) =
     (let newBytes = bytes_of s; (newBuff, offsets) = concat_strings (offsetIndex + length newBytes) ss
      in (newBytes @ newBuff, of_nat offsetIndex # offsets))"

definition handle_string_column :: "ArrayAttrData \<Rightarrow> ArrayAttrData res" where
  "handle_string_column buf =
     (if at_AttrType buf = ATTR_STRING then
        (case at_Buffer buf of
           AnySlice k cs \<Rightarrow>
             let (newBuff, offsets) = concat_strings 0 (map value_String cs) in
             Ok (buf \<lparr>at_Buffer := AnySlice Uint8 (map CUint8 newBuff), at_Offsets := Some offsets\<rparr>)
         | _ \<Rightarrow> Panic)
      else Ok buf)"

definition HandleStrings :: "ArrayAttrSet \<Rightarrow> ArrayAttrSet res" where
  "HandleStrings bd = res_map handle_string_column bd"

definition append_field :: "cell list \<Rightarrow> ArrayAttrData \<Rightarrow> ArrayAttrData res" where
  "append_field val attr =
     res_bind (go_index val (int (at_StructPosition attr))) (\<lambda>field.
     res_bind (reflect_append (at_Buffer attr) field) (\<lambda>buffer. Ok (attr \<lparr>at_Buffer := buffer\<rparr>)))"

fun append_records :: "cell list list \<Rightarrow> ArrayAttrSet \<Rightarrow> ArrayAttrSet res" where
  "append_records [] bd = Ok bd"
| "append_records (val # data) bd = res_bind (res_map (append_field val) bd) (append_records data)"

text \<open>The data is a slice of structs of the given type, or a pointer to one.\<close>

definition StructSliceToArrayConfig :: "struct_field list \<Rightarrow> cell list list \<Rightarrow> ArrayAttrSet res" where
  "StructSliceToArrayConfig structType data =
     res_bind (buildBuffers structType) (\<lambda>bd. res_bind (append_records data bd) HandleStrings)"

definition getBufferLen :: "ArrayAttrData \<Rightarrow> int res" where
  "getBufferLen bd = (case at_Offsets bd of
     Some (off # offs) \<Rightarrow> Ok (int (length (off # offs)))
   | _ \<Rightarrow> reflect_Len (at_Buffer bd))"

definition BuildCreateArrayInput :: "ArrayAttrSet \<Rightarrow> string \<Rightarrow> CreateArrayInput res" where
  "BuildCreateArrayInput bd arrayPath =
     (let attributes = map (\<lambda>buf. \<lparr>aa_Name = at_AttrName buf, aa_DataType = at_AttrType buf\<rparr>) bd in
      res_bind (res_bind (go_index bd 0) getBufferLen) (\<lambda>len.
      let size = (if len = 0 then MAXDIMENSION else len);
          tileExtent = (if defaultTileExtent > size then size else defaultTileExtent)
      in Ok \<lparr>ca_Attributes = attributes,
             ca_Dimensions = [\<lparr>ad_Name = ''d1'', ad_DimensionType = DIMENSION_INT, ad_Domain = [1, size],
               ad_TileExtent = tileExtent\<rparr>],
             ca_ArrayPath = arrayPath, ca_ArrayType = ARRAY_DENSE, ca_CellLayout = ROWMAJOR,
             ca_TileLayout = ROWMAJOR\<rparr>))"

definition BuildPutArrayInput :: "ArrayAttrSet \<Rightarrow> string \<Rightarrow> ARRAY_TYPE \<Rightarrow> PutArrayInput res" where
  "BuildPutArrayInput bd arrayPath arrayType =
     (let pabs = map (\<lambda>buf. \<lparr>pb_AttrName = at_AttrName buf, pb_Buffer = at_Buffer buf, pb_Offsets = at_Offsets buf\<rparr>) bd in
      res_bind (res_bind (go_index bd 0) getBufferLen) (\<lambda>bufSize.
      let dbuf = map (\<lambda>i. CInt64 (word_of_int i)) [1..bufSize];
          pabs = (if arrayType = ARRAY_SPARSE
            then pabs @ [\<lparr>pb_AttrName = ''d1'', pb_Buffer = AnySlice Int64 dbuf, pb_Offsets = None\<rparr>] else pabs)
      in Ok \<lparr>pa_Buffers = pabs, pa_BufferRange = [1, bufSize], pa_DataPath = arrayPath, pa_ArrayType = arrayType,
             pa_Coords = [], pa_PutLayout = ROWMAJOR\<rparr>))"

definition AttributNames :: "ArrayAttrSet \<Rightarrow> string list" where
  "AttributNames bd = map at_AttrName bd"

subsection \<open>What the columns hold\<close>

text \<open>The tagged fields with their positions, and the column a field is stored as.\<close>

fun tagged_from :: "nat \<Rightarrow> struct_field list \<Rightarrow> (nat \<times> string \<times> go_kind) list" where
  "tagged_from i [] = []"
| "tagged_from i (f # flds) = (case sf_Tag f of
     Some t \<Rightarrow> (i, t, sf_Kind f) # tagged_from (Suc i) flds | None \<Rightarrow> tagged_from (Suc i) flds)"

definition tagged :: "struct_field list \<Rightarrow> (nat \<times> string \<times> go_kind) list" where
  "tagged flds = tagged_from 0 flds"

definition storable :: "struct_field list \<Rightarrow> bool" where
  "storable flds \<longleftrightarrow> (\<forall>(i, t, k) \<in> set (tagged flds). Golang2AttrTypeMap k \<noteq> None)"

definition raw_column :: "cell list list \<Rightarrow> nat \<times> string \<times> go_kind \<Rightarrow> ArrayAttrData" where
  "raw_column data = (\<lambda>(i, t, k). \<lparr>at_AttrName = t, at_StructPosition = i, at_AttrType = the (Golang2AttrTypeMap k),
     at_Buffer = AnySlice k (map (\<lambda>v. v ! i) data), at_Offsets = None\<rparr>)"

text \<open>Where each string of a column starts: the lengths of those before it, added up.\<close>

definition starts :: "string list \<Rightarrow> nat list" where
  "starts ss = map (\<lambda>n. sum_list (map length (take n ss))) [0..<length ss]"

definition column :: "cell list list \<Rightarrow> nat \<times> string \<times> go_kind \<Rightarrow> ArrayAttrData" where
  "column data = (\<lambda>(i, t, k). let cells = map (\<lambda>v. v ! i) data; ss = map value_String cells in
     if k = StringKind then
       \<lparr>at_AttrName = t, at_StructPosition = i, at_AttrType = ATTR_STRING,
        at_Buffer = AnySlice Uint8 (map CUint8 (bytes_of (concat ss))),
        at_Offsets = Some (map of_nat (starts ss))\<rparr>
     else raw_column data (i, t, k))"

lemma tagged_from_pos: "(j, t, k) \<in> set (tagged_from i flds) \<Longrightarrow>
    i \<le> j \<and> j < i + length flds \<and> sf_Tag (flds ! (j - i)) = Some t \<and> sf_Kind (flds ! (j - i)) = k"
  by (induction i flds rule: tagged_from.induct) (fastforce split: option.splits simp: nth_Cons')+

lemma tagged_pos: "(j, t, k) \<in> set (tagged flds) \<Longrightarrow> j < length flds \<and> sf_Tag (flds ! j) = Some t \<and> sf_Kind (flds ! j) = k"
  using tagged_from_pos [of j t k 0 flds] by (simp add: tagged_def)

lemma buildBuffers_loop_ok:
  "(\<forall>(j, t, k) \<in> set (tagged_from i flds). Golang2AttrTypeMap k \<noteq> None) \<Longrightarrow>
     buildBuffers_loop i flds aad = Ok (aad @ map (raw_column []) (tagged_from i flds))"
  by (induction i flds arbitrary: aad rule: tagged_from.induct) (auto split: option.splits simp: raw_column_def)

lemma buildBuffers_ok: "storable flds \<Longrightarrow> buildBuffers flds = Ok (map (raw_column []) (tagged flds))"
  by (simp add: buildBuffers_def storable_def tagged_def buildBuffers_loop_ok)

lemma append_field_ok:
  assumes "has_type flds v" and "p \<in> set (tagged flds)"
  shows "append_field v (raw_column data p) = Ok (raw_column (data @ [v]) p)"
proof -
  obtain i t k where p: "p = (i, t, k)" by (cases p)
  then have "i < length v" "kind_of (v ! i) = k"
    using tagged_pos [of i t k flds] assms has_type_length [OF assms(1)] has_type_nth [OF assms(1)] by auto
  then show ?thesis
    by (simp add: p append_field_def raw_column_def reflect_append_def)
qed

lemma append_records_ok:
  "list_all (has_type flds) data \<Longrightarrow>
     append_records data (map (raw_column data0) (tagged flds)) = Ok (map (raw_column (data0 @ data)) (tagged flds))"
proof (induction data arbitrary: data0)
  case (Cons v data)
  have "res_map (append_field v) (map (raw_column data0) (tagged flds)) = Ok (map (raw_column (data0 @ [v])) (tagged flds))"
    using Cons.prems append_field_ok [of flds v] by (auto simp: res_map_Ok_iff list_all2_conv_all_nth)
  then show ?case
    using Cons.prems Cons.IH [of "data0 @ [v]"] by simp
qed simp

lemma concat_strings_eq:
  "concat_strings off ss = (bytes_of (concat ss), map (\<lambda>n. of_nat (off + n)) (starts ss))"
proof (induction ss arbitrary: off)
  case (Cons s ss)
  have "starts (s # ss) = 0 # map ((+) (length s)) (starts ss)"
    by (simp add: starts_def upt_conv_Cons map_Suc_upt [symmetric] comp_def del: upt_Suc map_Suc_upt)
  then show ?case
    by (simp add: Cons.IH bytes_of_def comp_def ac_simps)
qed (simp add: bytes_of_def starts_def)

lemma string_type_iff: "the (Golang2AttrTypeMap k) = ATTR_STRING \<longleftrightarrow> k = StringKind"
  if "Golang2AttrTypeMap k \<noteq> None"
  using that by (auto simp: Golang2AttrTypeMap_def split: go_kind.splits)

lemma handle_string_column_ok:
  "Golang2AttrTypeMap k \<noteq> None \<Longrightarrow> handle_string_column (raw_column data (i, t, k)) = Ok (column data (i, t, k))"
  using string_type_iff [of k]
  by (auto simp: handle_string_column_def raw_column_def column_def concat_strings_eq Let_def)

lemma StructSliceToArrayConfig_columns:
  assumes "storable flds" and "list_all (has_type flds) data"
  shows "StructSliceToArrayConfig flds data = Ok (map (column data) (tagged flds))"
proof -
  have "HandleStrings (map (raw_column data) (tagged flds)) = Ok (map (column data) (tagged flds))"
    using assms(1) handle_string_column_ok
    by (fastforce simp: HandleStrings_def res_map_Ok_iff storable_def list_all2_conv_all_nth dest!: nth_mem)
  then show ?thesis
    using append_records_ok [OF assms(2), of "[]"] by (simp add: StructSliceToArrayConfig_def buildBuffers_ok [OF assms(1)])
qed

lemma getBufferLen_column: "getBufferLen (column data p) = Ok (int (length data))"
  by (cases p; cases data)
     (auto simp: getBufferLen_def column_def raw_column_def Let_def starts_def reflect_Len_def upt_conv_Cons bytes_of_def
       simp del: upt_Suc)

lemma buildBuffers_loop_bad:
  "find (\<lambda>(i, t, k). Golang2AttrTypeMap k = None) (tagged_from i flds) = Some (j, t, k) \<Longrightarrow>
     buildBuffers_loop i flds aad = Err (Errorf ''unsupported golang type: %s'' [kind_string k])"
  by (induction i flds arbitrary: aad rule: tagged_from.induct) (auto split: option.splits if_splits)

lemma StructSliceToArrayConfig_bad:
  assumes "find (\<lambda>(i, t, k). Golang2AttrTypeMap k = None) (tagged flds) = Some p"
  shows "StructSliceToArrayConfig flds data = Err (Errorf ''unsupported golang type: %s'' [kind_string (snd (snd p))])"
  using buildBuffers_loop_bad [of 0 flds] assms
  by (cases p) (simp add: StructSliceToArrayConfig_def buildBuffers_def tagged_def)

text \<open>C29. A slice of records becomes one column per tagged field, in the order of the fields: the cells
  of the field, or for strings their bytes one after the other with the offset of each. The
  first tagged field of a kind that cannot be stored is the error.\<close>

theorem StructSliceToArrayConfig_outcome:
  assumes "list_all (has_type flds) data"
  shows "StructSliceToArrayConfig flds data =
    (case find (\<lambda>(i, t, k). Golang2AttrTypeMap k = None) (tagged flds) of
       Some (i, t, k) \<Rightarrow> Err (Errorf ''unsupported golang type: %s'' [kind_string k])
     | None \<Rightarrow> Ok (map (column data) (tagged flds)))"
proof (cases "find (\<lambda>(i, t, k). Golang2AttrTypeMap k = None) (tagged flds)")
  case None
  then have "storable flds"
    by (auto simp: storable_def find_None_iff)
  then show ?thesis
    by (simp add: StructSliceToArrayConfig_columns assms None)
next
  case (Some p)
  then show ?thesis
    using StructSliceToArrayConfig_bad [OF Some] by (cases p) simp
qed

subsection \<open>What a scan gives\<close>

abbreviation tag_of :: "nat \<times> string \<times> go_kind \<Rightarrow> string" where
  "tag_of p \<equiv> fst (snd p)"

definition distinct_tags :: "struct_field list \<Rightarrow> bool" where
  "distinct_tags flds \<longleftrightarrow> distinct (map tag_of (tagged flds))"

lemma update_fresh: "k \<notin> set (keys m) \<Longrightarrow> AList.update k v m = m @ [(k, v)]"
  by (induction m) auto

lemma tag_map_from:
  "distinct (map fst tm @ map tag_of (tagged_from i flds)) \<Longrightarrow>
     fold (\<lambda>(i, f) tagmap. case sf_Tag f of Some tagval \<Rightarrow> AList.update tagval i tagmap | None \<Rightarrow> tagmap)
       (enumerate i flds) tm = tm @ map (\<lambda>(i, t, k). (t, i)) (tagged_from i flds)"
  by (induction i flds arbitrary: tm rule: tagged_from.induct) (auto split: option.splits simp: update_fresh)

lemma tagAsPositionMap_eq: "distinct_tags flds \<Longrightarrow> tagAsPositionMap flds = map (\<lambda>(i, t, k). (t, i)) (tagged flds)"
  using tag_map_from [of "[]" 0 flds] by (simp add: tagAsPositionMap_def distinct_tags_def tagged_def)

text \<open>The column of a field as a read returns it: the strings are split again.\<close>

definition read_column :: "cell list list \<Rightarrow> nat \<times> string \<times> go_kind \<Rightarrow> go_any" where
  "read_column data = (\<lambda>(i, t, k). let cells = map (\<lambda>v. v ! i) data in
     if k = StringKind then AnySlice Bytes (map (\<lambda>c. CBytes (bytes_of (value_String c))) cells) else AnySlice k cells)"

text \<open>The result of reading every column of the records.\<close>

definition holds_records :: "struct_field list \<Rightarrow> cell list list \<Rightarrow> ArrayResult \<Rightarrow> bool" where
  "holds_records flds data ar \<longleftrightarrow>
     as_AttributeNames (ar_Schema ar) = map tag_of (tagged flds) \<and>
     as_AttributeTypes (ar_Schema ar) = map (\<lambda>(i, t, k). the (Golang2AttrTypeMap k)) (tagged flds) \<and>
     ar_Attrs ar = map tag_of (tagged flds) \<and>
     ar_Data ar = map (read_column data) (tagged flds)"

lemma position_nth: "distinct xs \<Longrightarrow> n < length xs \<Longrightarrow> position (xs ! n) xs = Some n"
  by (induction xs arbitrary: n) (auto simp: nth_Cons' split: if_splits)

lemma handleType_read_column:
  assumes "has_type flds (data ! r)" and "r < length data" and "(i, t, k) \<in> set (tagged flds)" and "storable flds"
  shows "handleType (int r) (the (Golang2AttrTypeMap k)) (read_column data (i, t, k)) = Ok (data ! r ! i)"
proof -
  have k: "kind_of (data ! r ! i) = k" "Golang2AttrTypeMap k \<noteq> None"
    using tagged_pos [OF assms(3)] has_type_nth [OF assms(1)] assms(3,4) by (auto simp: storable_def)
  show ?thesis
  proof (cases "k = StringKind")
    case True
    then obtain s where "data ! r ! i = CString s"
      using k(1) by (cases "data ! r ! i") auto
    then show ?thesis
      using True assms(2)
      by (simp add: handleType_def read_column_def Let_def Golang2AttrTypeMap_def value_String_def)
  next
    case False
    then have "the (Golang2AttrTypeMap k) \<noteq> ATTR_STRING"
      using string_type_iff [OF k(2)] by simp
    then show ?thesis
      using False assms(2) by (simp add: handleType_def read_column_def)
  qed
qed

lemma scan_names_other: "attr \<notin> set names \<Longrightarrow> scan_names ar attr pos m names v = Ok v"
  by (induction names arbitrary: m) auto

lemma scan_names_hit:
  assumes "distinct names" and "n < length names" and "m + n < length (as_AttributeTypes (ar_Schema ar))"
    and "position (names ! n) (ar_Attrs ar) = Some p" and "p < length (ar_Data ar)"
    and "handleType (ar_row ar) (as_AttributeTypes (ar_Schema ar) ! (m + n)) (ar_Data ar ! p) = Ok x"
  shows "scan_names ar (names ! n) pos m names v = field_Set v pos x"
  using assms(1-4,6)
proof (induction names arbitrary: n m)
  case (Cons s names)
  show ?case
  proof (cases n)
    case 0
    have "scan_names ar s pos (Suc m) names = Ok"
      using Cons.prems(1) scan_names_other [of s names] by (intro ext) simp
    then show ?thesis
      using Cons.prems assms(5) 0 by (simp add: attrResultPosition_def Let_def)
  next
    case (Suc n')
    then show ?thesis
      using Cons.prems Cons.IH [of n' "Suc m"] by auto
  qed
qed simp

text \<open>The tags of a type, visited in any order, set exactly the tagged fields.\<close>

definition set_fields :: "cell list \<Rightarrow> (string \<times> nat) list \<Rightarrow> cell list \<Rightarrow> cell list" where
  "set_fields row tags v = fold (\<lambda>(t, i) v. v[i := row ! i]) tags v"

lemma set_fields_nth:
  "p < length v \<Longrightarrow> set_fields row tags v ! p = (if p \<in> snd ` set tags then row ! p else v ! p)"
  "length (set_fields row tags v) = length v"
proof -
  show len: "length (set_fields row tags v) = length v" for v
    unfolding set_fields_def by (induction tags arbitrary: v) auto
  show "p < length v \<Longrightarrow> set_fields row tags v ! p = (if p \<in> snd ` set tags then row ! p else v ! p)"
  proof (induction tags arbitrary: v)
    case (Cons e tags)
    then show ?case
      using Cons.IH [of "v[snd e := row ! snd e]"] by (cases e) (auto simp: set_fields_def nth_list_update)
  qed (simp add: set_fields_def)
qed

lemma scan_tags_ok:
  assumes ar: "holds_records flds data ar" "ar_row ar = int r"
    and flds: "storable flds" "distinct_tags flds"
    and row: "r < length data" "has_type flds (data ! r)"
    and tags: "set tags \<subseteq> (\<lambda>(i, t, k). (t, i)) ` set (tagged flds)" and v: "has_type flds v"
  shows "scan_tags ar tags v = Ok (set_fields (data ! r) tags v)"
  using tags v
proof (induction tags arbitrary: v)
  case Nil
  then show ?case by (simp add: set_fields_def)
next
  case (Cons e tags)
  obtain t i where e: "e = (t, i)" by (cases e)
  then obtain k where k: "(i, t, k) \<in> set (tagged flds)"
    using Cons.prems(1) by auto
  then obtain n where n: "n < length (tagged flds)" "tagged flds ! n = (i, t, k)"
    by (auto simp: in_set_conv_nth)
  let ?names = "map tag_of (tagged flds)"
  have t: "?names ! n = t" "distinct ?names" "n < length ?names"
    using n flds(2) by (simp_all add: distinct_tags_def)
  have "scan_names ar (?names ! n) i 0 ?names v = field_Set v i (data ! r ! i)"
  proof (rule scan_names_hit [where p = n])
    show "handleType (ar_row ar) (as_AttributeTypes (ar_Schema ar) ! (0 + n)) (ar_Data ar ! n) = Ok (data ! r ! i)"
      using handleType_read_column [OF row(2,1) k flds(1)] n ar by (simp add: holds_records_def)
  qed (use n t ar position_nth [OF t(2,3)] in \<open>simp_all add: holds_records_def\<close>)
  moreover have "field_Set v i (data ! r ! i) = Ok (v[i := data ! r ! i]) \<and> has_type flds (v[i := data ! r ! i])"
    using field_Set_ok [OF Cons.prems(2)] tagged_pos [OF k] has_type_nth [OF row(2)] by simp
  ultimately show ?case
    using Cons.prems(1) Cons.IH [of "v[i := data ! r ! i]"] ar(1) t(1) e
    by (simp add: holds_records_def set_fields_def)
qed

definition tagged_part :: "struct_field list \<Rightarrow> cell list \<Rightarrow> cell list \<Rightarrow> cell list" where
  "tagged_part flds row v = map (\<lambda>p. if sf_Tag (flds ! p) \<noteq> None then row ! p else v ! p) [0..<length v]"

lemma tagged_from_all: "j < length flds \<Longrightarrow> sf_Tag (flds ! j) = Some t \<Longrightarrow> (i + j, t, sf_Kind (flds ! j)) \<in> set (tagged_from i flds)"
proof (induction flds arbitrary: i j)
  case (Cons f flds)
  show ?case
  proof (cases j)
    case 0
    then show ?thesis using Cons.prems by simp
  next
    case (Suc j')
    then show ?thesis
      using Cons.IH [of j' "Suc i"] Cons.prems by (auto split: option.split)
  qed
qed simp

lemma tagged_positions:
  assumes "p < length flds"
  shows "p \<in> (\<lambda>(i, t, k). i) ` set (tagged flds) \<longleftrightarrow> sf_Tag (flds ! p) \<noteq> None"
proof
  assume "p \<in> (\<lambda>(i, t, k). i) ` set (tagged flds)"
  then show "sf_Tag (flds ! p) \<noteq> None"
    by (auto dest: tagged_pos)
next
  assume "sf_Tag (flds ! p) \<noteq> None"
  then obtain t where "sf_Tag (flds ! p) = Some t"
    by auto
  then have "(p, t, sf_Kind (flds ! p)) \<in> set (tagged flds)"
    using tagged_from_all [OF assms, of t 0] by (simp add: tagged_def)
  then show "p \<in> (\<lambda>(i, t, k). i) ` set (tagged flds)"
    by (rule rev_image_eqI) simp
qed

lemma Scan_row:
  assumes ar: "holds_records flds data ar" "ar_row ar = int r"
    and flds: "storable flds" "distinct_tags flds"
    and row: "r < length data" "has_type flds (data ! r)" "int (r + 1) < 2 ^ 63"
    and order: "\<And>m. mset (order m) = mset m" and v: "has_type flds v"
  shows "Scan order flds v ar = Ok (tagged_part flds (data ! r) v, ar \<lparr>ar_row := int (r + 1)\<rparr>)"
proof -
  let ?tags = "order (tagAsPositionMap flds)"
  have set: "set ?tags = (\<lambda>(i, t, k). (t, i)) ` set (tagged flds)"
    using order [of "tagAsPositionMap flds"] tagAsPositionMap_eq [OF flds(2)] by (metis mset_eq_setD set_map)
  have "set_fields (data ! r) ?tags v = tagged_part flds (data ! r) v"
  proof (rule nth_equalityI)
    fix p assume p: "p < length (set_fields (data ! r) ?tags v)"
    then have "p < length flds"
      using v by (simp add: set_fields_nth(2) has_type_length)
    have "snd ` set ?tags = (\<lambda>(i, t, k). i) ` set (tagged flds)"
      unfolding set image_image by (rule image_cong) auto
    with p tagged_positions [OF \<open>p < length flds\<close>]
    show "set_fields (data ! r) ?tags v ! p = tagged_part flds (data ! r) v ! p"
      by (simp add: set_fields_nth tagged_part_def)
  qed (simp add: set_fields_nth(2) tagged_part_def)
  moreover have "scan_tags ar ?tags v = Ok (set_fields (data ! r) ?tags v)"
    by (rule scan_tags_ok [OF ar flds row(1,2) _ v]) (simp add: set)
  moreover have "wrap64 (int r + 1) = int r + 1"
    using row(3) by (intro wrap64_id) (simp add: int64_def)
  ultimately show ?thesis
    using ar(2) by (simp add: Scan_def)
qed

text \<open>Scanning a result from the start, each record into a value of its own.\<close>

fun scan_all ::
    "(nat \<Rightarrow> (string \<times> nat) list \<Rightarrow> (string \<times> nat) list) \<Rightarrow> struct_field list \<Rightarrow> cell list \<Rightarrow> nat \<Rightarrow> ArrayResult \<Rightarrow>
     cell list list res" where
  "scan_all ord flds zero 0 ar = Ok []"
| "scan_all ord flds zero (Suc n) ar = res_bind (Scan (ord n) flds zero ar) (\<lambda>(v, ar').
     res_bind (scan_all ord flds zero n ar') (\<lambda>vs. Ok (v # vs)))"

lemma scan_all_from:
  assumes flds: "storable flds" "distinct_tags flds" "list_all (has_type flds) data" "int (length data) < 2 ^ 63"
    and ord: "\<And>n m. mset (ord n m) = mset m" and zero: "has_type flds zero"
  shows "holds_records flds data ar \<Longrightarrow> ar_row ar = int r \<Longrightarrow> r + n = length data \<Longrightarrow>
    scan_all ord flds zero n ar = Ok (map (\<lambda>row. tagged_part flds row zero) (drop r data))"
proof (induction n arbitrary: r ar)
  case (Suc n)
  have r: "r < length data" "has_type flds (data ! r)" "int (r + 1) < 2 ^ 63"
    using Suc.prems(3) flds(3,4) by (auto simp: list_all_length)
  have "Scan (ord n) flds zero ar = Ok (tagged_part flds (data ! r) zero, ar \<lparr>ar_row := int (r + 1)\<rparr>)"
    by (rule Scan_row [OF Suc.prems(1,2) flds(1,2) r ord zero])
  moreover have "holds_records flds data (ar \<lparr>ar_row := int (r + 1)\<rparr>)"
    using Suc.prems(1) by (simp add: holds_records_def)
  ultimately show ?case
    using Suc.IH [of "ar \<lparr>ar_row := int (r + 1)\<rparr>" "r + 1"] Suc.prems(3) r(1) by (simp add: Cons_nth_drop_Suc [symmetric])
qed simp

subsection \<open>Rows and columns of a matrix\<close>

text \<open>The result of a query over two dimensions, in row-major order.\<close>

definition holds_matrix :: "ArrayResult \<Rightarrow> nat \<Rightarrow> go_kind \<Rightarrow> cell list list \<Rightarrow> nat \<Rightarrow> bool" where
  "holds_matrix ar a k rows width \<longleftrightarrow> (\<exists>r0 c0. ar_Range ar = [r0, r0 + int (length rows) - 1, c0, c0 + int width - 1]) \<and>
     a < length (ar_Data ar) \<and> ar_Data ar ! a = AnySlice k (concat rows) \<and>
     list_all (\<lambda>row. length row = width \<and> list_all (\<lambda>c. kind_of c = k) row) rows \<and>
     int (length rows) < 2 ^ 63 \<and> int width < 2 ^ 63 \<and> int (length rows * width) < 2 ^ 63"

lemma concat_uniform:
  assumes "list_all (\<lambda>row. length row = w) rows"
  shows "length (concat rows) = length rows * w"
    and "i < length rows \<Longrightarrow> take w (drop (i * w) (concat rows)) = rows ! i"
    and "i < length rows \<Longrightarrow> j < w \<Longrightarrow> concat rows ! (i * w + j) = rows ! i ! j"
proof -
  show len: "length (concat rows) = length rows * w"
    using assms by (induction rows) auto
  show row: "take w (drop (i * w) (concat rows)) = rows ! i" if "i < length rows"
    using assms that
  proof (induction rows arbitrary: i)
    case (Cons r rows)
    then show ?case by (cases i) simp_all
  qed simp
  show "concat rows ! (i * w + j) = rows ! i ! j" if i: "i < length rows" and j: "j < w"
  proof -
    have "Suc i * w \<le> length rows * w"
      using i by (intro mult_le_mono1) simp
    then have "i * w + j < length (concat rows)"
      using j by (simp add: len)
    then have "concat rows ! (i * w + j) = take w (drop (i * w) (concat rows)) ! j"
      using j by simp
    then show ?thesis
      by (simp add: row [OF i])
  qed
qed

lemma wrap64_nat: "int n < 2 ^ 63 \<Longrightarrow> wrap64 (int n) = int n"
  by (rule wrap64_id) (simp add: int64_def)

lemma column_loop_ok:
  assumes "list_all (\<lambda>row. length row = w \<and> list_all (\<lambda>c. kind_of c = k) row) rows" and "j < w"
    and "int (length rows * w) < 2 ^ 63"
  shows "i + n = length rows \<Longrightarrow>
    column_loop (AnySlice k (concat rows)) k (int w) (int j) i n acc = Ok (acc @ map (\<lambda>row. row ! j) (drop i rows))"
proof (induction n arbitrary: i acc)
  case (Suc n)
  have uni: "list_all (\<lambda>row. length row = w) rows"
    using assms(1) by (auto simp: list_all_iff)
  have i: "i < length rows"
    using Suc.prems by simp
  then have le: "i * w + w \<le> length rows * w"
    using mult_le_mono1 [of "Suc i" "length rows" w] by simp
  then have "int (i * w + w) < 2 ^ 63"
    using assms(3) by linarith
  then have w: "wrap64 (int i * int w) = int (i * w)" "wrap64 (int (i * w) + int j) = int (i * w + j)"
    using assms(2) wrap64_nat [of "i * w"] wrap64_nat [of "i * w + j"] by simp_all
  have "i * w + j < length (concat rows)"
    using le assms(2) by (simp add: concat_uniform(1) [OF uni])
  then have "go_index (concat rows) (int (i * w + j)) = Ok (rows ! i ! j)"
    using go_index_nat [of "i * w + j" "concat rows"] concat_uniform(3) [OF uni i assms(2)] by simp
  then have "reflect_Index (AnySlice k (concat rows)) (wrap64 (wrap64 (int i * int w) + int j)) = Ok (rows ! i ! j)"
    unfolding w reflect_Index_def by simp
  moreover have "kind_of (rows ! i ! j) = k"
    using assms(1,2) i by (auto simp: list_all_length)
  ultimately show ?case
    using Suc.IH [of "Suc i"] Suc.prems i
    by (simp add: Cons_nth_drop_Suc [symmetric])
qed simp

text \<open>C30. Over a row-major result, a row is the slice of its cells and a column takes one cell of every
  row; the size is the number of rows times the number of columns.\<close>

theorem matrix_rows_columns:
  assumes "holds_matrix ar a k rows w"
  shows "(i < length rows \<longrightarrow> GetRow ar (int i) (int a) k = Ok (rows ! i)) \<and>
    (j < w \<longrightarrow> GetColumn ar (int j) (int a) k = Ok (map (\<lambda>row. row ! j) rows)) \<and>
    Rows ar = Ok (int (length rows)) \<and> Cols ar = Ok (int w) \<and>
    (ar_Domains ar = [] \<longrightarrow> Size ar = Ok (int (length rows * w)))"
proof -
  obtain r0 c0 where rng: "ar_Range ar = [r0, r0 + int (length rows) - 1, c0, c0 + int w - 1]"
    and a: "a < length (ar_Data ar)" "ar_Data ar ! a = AnySlice k (concat rows)"
    and cells: "list_all (\<lambda>row. length row = w \<and> list_all (\<lambda>c. kind_of c = k) row) rows"
    and b: "int (length rows) < 2 ^ 63" "int w < 2 ^ 63" "int (length rows * w) < 2 ^ 63"
    using assms unfolding holds_matrix_def by blast
  have uni: "list_all (\<lambda>row. length row = w) rows"
    using cells by (auto simp: list_all_iff)
  have rc: "extent (ar_Range ar) 0 (Suc 0) = Ok (int (length rows))" "extent (ar_Range ar) 2 3 = Ok (int w)"
    using b wrap64_nat by (simp_all add: extent_def rng go_index_def)
  have row: "GetRow ar (int i) (int a) k = Ok (rows ! i)" if i: "i < length rows"
  proof -
    have le: "i * w + w \<le> length rows * w"
      using i mult_le_mono1 [of "Suc i" "length rows" w] by simp
    then have "int (i * w + w) < 2 ^ 63"
      using b(3) by linarith
    then have "wrap64 (int i * int w) = int (i * w)" "wrap64 (int (i * w) + int w) = int (i * w + w)"
      using wrap64_nat [of "i * w"] wrap64_nat [of "i * w + w"] by simp_all
    moreover have "go_slice (concat rows) (int (i * w)) (int (i * w + w)) = Ok (rows ! i)"
      using go_slice_nat [of "i * w" "i * w + w" "concat rows"] le concat_uniform(1,2) [OF uni] i by simp
    ultimately show ?thesis
      using a by (simp add: GetRow_def rc Let_def)
  qed
  have "GetColumn ar (int j) (int a) k = Ok (map (\<lambda>row. row ! j) rows)" if "j < w"
    using column_loop_ok [OF cells that b(3), of 0 "length rows" "[]"] a by (simp add: GetColumn_def rc)
  moreover have "Size ar = Ok (int (length rows * w))" if "ar_Domains ar = []"
    using b wrap64_nat [of "length rows"] wrap64_nat [of w] wrap64_nat [of "length rows * w"]
    by (simp add: Size_def that rng)
  ultimately show ?thesis
    using row rc by (simp add: Rows_def Cols_def)
qed

subsection \<open>Instances\<close>

theorem StructSliceToArrayConfig_outcome_witness:
  "StructSliceToArrayConfig
     [\<lparr>sf_Kind = Int8, sf_Tag = Some ''depth''\<rparr>, \<lparr>sf_Kind = Bytes, sf_Tag = None\<rparr>, \<lparr>sf_Kind = StringKind, sf_Tag = Some ''name''\<rparr>]
     [[CInt8 3, CBytes [], CString ''ab''], [CInt8 4, CBytes [], CString ''c'']] =
   Ok [\<lparr>at_AttrName = ''depth'', at_StructPosition = 0, at_AttrType = ATTR_INT8, at_Buffer = AnySlice Int8 [CInt8 3, CInt8 4],
         at_Offsets = None\<rparr>,
       \<lparr>at_AttrName = ''name'', at_StructPosition = 2, at_AttrType = ATTR_STRING,
         at_Buffer = AnySlice Uint8 [CUint8 97, CUint8 98, CUint8 99], at_Offsets = Some [0, 2]\<rparr>]"
  using StructSliceToArrayConfig_outcome [of
     "[\<lparr>sf_Kind = Int8, sf_Tag = Some ''depth''\<rparr>, \<lparr>sf_Kind = Bytes, sf_Tag = None\<rparr>, \<lparr>sf_Kind = StringKind, sf_Tag = Some ''name''\<rparr>]"
     "[[CInt8 3, CBytes [], CString ''ab''], [CInt8 4, CBytes [], CString ''c'']]"]
  by (simp add: has_type_def tagged_def Golang2AttrTypeMap_def column_def raw_column_def value_String_def starts_def
      bytes_of_def byte_of_def upt_rec)

theorem matrix_rows_columns_witness:
  "let ar = \<lparr>ar_Range = [1, 2, 5, 7], ar_Data = [AnySlice Int8 (map CInt8 [1, 2, 3, 4, 5, 6])], ar_Domains = [],
       ar_Schema = \<lparr>as_AttributeNames = [''a''], as_AttributeTypes = [ATTR_INT8], as_Domain = [1, 9, 1, 9],
         as_DomainNames = [], as_ArrayType = ARRAY_DENSE\<rparr>, ar_row = 0, ar_Attrs = [''a'']\<rparr>
   in GetRow ar 1 0 Int8 = Ok (map CInt8 [4, 5, 6]) \<and> GetColumn ar 2 0 Int8 = Ok (map CInt8 [3, 6]) \<and> Size ar = Ok 6"
proof -
  let ?ar = "\<lparr>ar_Range = [1, 2, 5, 7], ar_Data = [AnySlice Int8 (map CInt8 [1, 2, 3, 4, 5, 6])], ar_Domains = [],
       ar_Schema = \<lparr>as_AttributeNames = [''a''], as_AttributeTypes = [ATTR_INT8], as_Domain = [1, 9, 1, 9],
         as_DomainNames = [], as_ArrayType = ARRAY_DENSE\<rparr>, ar_row = 0, ar_Attrs = [''a'']\<rparr>"
  have m: "holds_matrix ?ar 0 Int8 [map CInt8 [1, 2, 3], map CInt8 [4, 5, 6]] 3"
    by (simp add: holds_matrix_def)
  show ?thesis
    using matrix_rows_columns [OF m, of 1 0] matrix_rows_columns [OF m, of 0 2] by simp
qed

end
