(* ===== verification/TileDb_Strings.thy ===== *)
theory TileDb_Strings
  imports Event_Store
begin

section \<open>TileDB event store: strings of variable length\<close>

text \<open>
  How \<^verbatim>\<open>tiledb_store.go\<close> splits a buffer of strings again (\<open>handleVariableResults\<close>), with
  the \<^verbatim>\<open>uint64\<close> arithmetic of its offsets: it inverts \<open>HandleStrings\<close> of \<^verbatim>\<open>event_store.go\<close> as
  long as the buffer of offsets is exactly filled. The contract of a format for lists of strings
  is the locale \<open>string_codec\<close>.
\<close>

subsection \<open>Strings of variable length\<close>

text \<open>
  \<^verbatim>\<open>make([]byte, n)\<close>: it panics above the address space of a 64-bit platform.
\<close>

definition make_bytes :: "64 word \<Rightarrow> byte list res" where
  "make_bytes n = (if unat n > 2 ^ 48 then Panic else Ok (replicate (unat n) 0))"

function copy_value ::
    "byte list \<Rightarrow> 64 word \<Rightarrow> 64 word \<Rightarrow> 64 word \<Rightarrow> nat \<Rightarrow> byte list \<Rightarrow> (byte list \<times> 64 word) res" where
  "copy_value data j dataEnd dataPosition valPosition variableVal =
     (if j < dataEnd then
        res_bind (go_index data (uint dataPosition)) (\<lambda>b.
          if valPosition < length variableVal
          then copy_value data (j + 1) dataEnd (dataPosition + 1) (Suc valPosition) (variableVal[valPosition := b])
          else Panic)
      else Ok (variableVal, dataPosition))"
  by pat_completeness auto
termination
proof (relation "measure (\<lambda>(data, j, dataEnd, rest). unat dataEnd - unat j)")
  fix j dataEnd :: "64 word" and data dataPosition valPosition variableVal x
  assume less: "j < dataEnd"
  then have "unat j + 1 < 2 ^ 64"
    using unsigned_less [of dataEnd, where ?'a = nat] by (simp add: word_less_nat_alt)
  then have "unat (j + 1) = Suc (unat j)"
    by (simp add: unat_word_ariths)
  then show "((data, j + 1, dataEnd, dataPosition + 1, Suc valPosition, variableVal[valPosition := x]),
      data, j, dataEnd, dataPosition, valPosition, variableVal) \<in> measure (\<lambda>(data, j, dataEnd, rest). unat dataEnd - unat j)"
    using less by (simp add: word_less_nat_alt)
qed simp

declare copy_value.simps [simp del]

fun variable_loop :: "byte list \<Rightarrow> 64 word list \<Rightarrow> nat \<Rightarrow> nat \<Rightarrow> 64 word \<Rightarrow> byte list list res" where
  "variable_loop data ranges i 0 dataPosition = Ok []"
| "variable_loop data ranges i (Suc n) dataPosition =
     res_bind (go_index ranges (int (i + 1))) (\<lambda>next.
     res_bind (go_index ranges (int i)) (\<lambda>this.
     let size = next - this; dataEnd = dataPosition + size in
     res_bind (make_bytes size) (\<lambda>variableVal.
     res_bind (copy_value data dataPosition dataEnd dataPosition 0 variableVal) (\<lambda>(variableVal, dataPosition).
     res_bind (variable_loop data ranges (Suc i) n dataPosition) (\<lambda>results. Ok (variableVal # results))))))"

text \<open>\<open>elements\<close> is what the query reports for the attribute: the number of values and of bytes.\<close>

definition handleVariableResults :: "byte list \<Rightarrow> 64 word \<times> 64 word \<Rightarrow> 64 word list \<Rightarrow> byte list list res" where
  "handleVariableResults data elements offsets =
     variable_loop data (offsets @ [snd elements]) 0 (unat (fst elements)) 0"

lemma copy_value_ok:
  "unat pos + n \<le> length data \<Longrightarrow> length data < 2 ^ 64 \<Longrightarrow> length vv = vp + n \<Longrightarrow>
     copy_value data pos (pos + of_nat n) pos vp vv = Ok (take vp vv @ take n (drop (unat pos) data), pos + of_nat n)"
proof (induction n arbitrary: pos vp vv)
  case 0
  then show ?case
    by (subst copy_value.simps) simp
next
  case (Suc n)
  have lt: "unat pos + Suc n < 2 ^ 64"
    using Suc.prems(1,2) by linarith
  then have p: "unat (pos + of_nat (Suc n)) = unat pos + Suc n" "unat (pos + 1) = Suc (unat pos)"
    by (simp_all add: unat_word_ariths unat_of_nat)
  then have less: "pos < pos + of_nat (Suc n)"
    by (simp add: word_less_nat_alt)
  have idx: "go_index data (uint pos) = Ok (data ! unat pos)"
    using Suc.prems(1) go_index_nat [of "unat pos" data] by simp
  have rest: "copy_value data (pos + 1) ((pos + 1) + of_nat n) (pos + 1) (Suc vp) (vv[vp := data ! unat pos])
      = Ok (take (Suc vp) (vv[vp := data ! unat pos]) @ take n (drop (unat (pos + 1)) data), (pos + 1) + of_nat n)"
    using Suc.prems p(2) by (intro Suc.IH) simp_all
  have "take (Suc vp) (vv[vp := data ! unat pos]) = take vp vv @ [data ! unat pos]"
    using Suc.prems(3) by (simp add: take_Suc_conv_app_nth)
  moreover have "take (Suc n) (drop (unat pos) data) = data ! unat pos # take n (drop (Suc (unat pos)) data)"
    using Suc.prems(1) by (simp add: Cons_nth_drop_Suc [symmetric])
  moreover have "(pos + 1) + of_nat n = pos + of_nat (Suc n)"
    by simp
  ultimately show ?case
    using rest Suc.prems(3) less idx p(2) by (subst copy_value.simps) (simp add: add.assoc)
qed

definition total_length :: "string list \<Rightarrow> nat" where
  "total_length ss = sum_list (map length ss)"

definition start_at :: "string list \<Rightarrow> nat \<Rightarrow> nat" where
  "start_at ss i = total_length (take i ss)"

lemma start_at_Suc: "i < length ss \<Longrightarrow> start_at ss (Suc i) = start_at ss i + length (ss ! i)"
  by (simp add: start_at_def total_length_def take_Suc_conv_app_nth)

lemma start_at_mono: "i \<le> j \<Longrightarrow> start_at ss i \<le> start_at ss j"
proof -
  assume "i \<le> j"
  then have "take i ss = take i (take j ss)"
    by (simp add: min_def)
  moreover have "total_length (take i xs) \<le> total_length xs" for xs
    by (metis append_take_drop_id le_add1 map_append sum_list_append total_length_def)
  ultimately show ?thesis
    by (metis start_at_def)
qed

lemma start_at_total: "i \<le> length ss \<Longrightarrow> start_at ss i \<le> total_length ss"
  using start_at_mono [of i "length ss" ss] by (simp add: start_at_def)

lemma starts_start_at: "starts ss = map (start_at ss) [0..<length ss]"
  by (simp add: starts_def start_at_def total_length_def)

lemma ranges_eq: "starts ss @ [total_length ss] = map (start_at ss) [0..<Suc (length ss)]"
  by (simp add: starts_start_at) (simp add: start_at_def)

lemma length_concat_total: "length (concat ss) = total_length ss"
  by (simp add: length_concat total_length_def)

lemma string_at_start: "i < length ss \<Longrightarrow> take (length (ss ! i)) (drop (start_at ss i) (concat ss)) = ss ! i"
proof (induction ss arbitrary: i)
  case (Cons s ss)
  then show ?case
    by (cases i) (simp_all add: start_at_def total_length_def)
qed simp

lemma make_bytes_ok: "n \<le> 2 ^ 48 \<Longrightarrow> make_bytes (of_nat n) = Ok (replicate n 0)"
proof -
  assume "n \<le> 2 ^ 48"
  moreover from this have "n < 2 ^ 64"
    by simp
  then have "unat (of_nat n :: 64 word) = n"
    by (simp add: unat_of_nat)
  ultimately show ?thesis
    by (simp add: make_bytes_def)
qed

text \<open>One value, where the two offsets around it are right; then a run of them.\<close>

lemma variable_loop_step:
  assumes "total_length ss \<le> 2 ^ 48" and pad: "length (concat ss) + length pad < 2 ^ 64" and i: "i < length ss"
    and rng: "go_index ranges (int (Suc i)) = Ok (of_nat (start_at ss (Suc i)))"
      "go_index ranges (int i) = Ok (of_nat (start_at ss i))"
  shows "variable_loop (bytes_of (concat ss) @ pad) ranges i (Suc n) (of_nat (start_at ss i)) =
    res_bind (variable_loop (bytes_of (concat ss) @ pad) ranges (Suc i) n (of_nat (start_at ss (Suc i))))
      (\<lambda>results. Ok (bytes_of (ss ! i) # results))"
proof -
  let ?data = "bytes_of (concat ss) @ pad" and ?len = "length (ss ! i)"
  have size: "of_nat (start_at ss (Suc i)) - of_nat (start_at ss i) = (of_nat ?len :: 64 word)"
    and dataEnd: "of_nat (start_at ss i) + of_nat ?len = (of_nat (start_at ss (Suc i)) :: 64 word)"
    using start_at_Suc [OF i] by simp_all
  have bound: "start_at ss i + ?len \<le> total_length ss"
    using start_at_total [of "Suc i" ss] i start_at_Suc [OF i] by simp
  then have unat: "unat (of_nat (start_at ss i) :: 64 word) = start_at ss i"
    using assms(1) by (simp add: unat_of_nat)
  have "copy_value ?data (of_nat (start_at ss i)) (of_nat (start_at ss i) + of_nat ?len) (of_nat (start_at ss i)) 0
      (replicate ?len 0) = Ok (take ?len (drop (start_at ss i) ?data), of_nat (start_at ss i) + of_nat ?len)"
    using copy_value_ok [of "of_nat (start_at ss i)" ?len ?data "replicate ?len 0" 0] bound assms(1) pad
    by (simp add: unat length_concat_total)
  moreover have "take ?len (drop (start_at ss i) ?data) = bytes_of (ss ! i)"
    using string_at_start [OF i] bound by (simp add: bytes_of_def take_map drop_map length_concat_total)
  moreover have "make_bytes (of_nat ?len) = Ok (replicate ?len 0)"
    using bound assms(1) by (intro make_bytes_ok) simp
  ultimately show ?thesis
    by (simp add: rng [simplified] size Let_def dataEnd)
qed

lemma variable_loop_run:
  assumes "total_length ss \<le> 2 ^ 48" and pad: "length (concat ss) + length pad < 2 ^ 64" and "m \<le> length ss"
    and rng: "\<And>j. j \<le> m \<Longrightarrow> go_index ranges (int j) = Ok (of_nat (start_at ss j))"
  shows "i + n = m \<Longrightarrow> variable_loop (bytes_of (concat ss) @ pad) ranges i (n + k) (of_nat (start_at ss i)) =
    res_bind (variable_loop (bytes_of (concat ss) @ pad) ranges m k (of_nat (start_at ss m)))
      (\<lambda>results. Ok (map bytes_of (take n (drop i ss)) @ results))"
proof (induction n arbitrary: i)
  case (Suc n)
  then have i: "i < length ss" "i < m"
    using assms(3) by simp_all
  have "variable_loop (bytes_of (concat ss) @ pad) ranges i (Suc (n + k)) (of_nat (start_at ss i)) =
    res_bind (variable_loop (bytes_of (concat ss) @ pad) ranges (Suc i) (n + k) (of_nat (start_at ss (Suc i))))
      (\<lambda>results. Ok (bytes_of (ss ! i) # results))"
    by (rule variable_loop_step [OF assms(1) pad i(1) rng rng]) (use i(2) in simp_all)
  then show ?case
    using Suc.IH [of "Suc i"] Suc.prems i by (simp add: res_bind_assoc Cons_nth_drop_Suc [symmetric])
qed simp

lemma length_starts [simp]: "length (starts ss) = length ss"
  by (simp add: starts_def)

lemma go_index_offsets:
  "j < length ss \<Longrightarrow> go_index (map of_nat (starts ss) @ rest) (int j) = Ok (of_nat (start_at ss j))"
  by (simp add: go_index_nat nth_append starts_start_at)

lemma go_index_ends:
  "j \<le> length ss \<Longrightarrow> go_index (map of_nat (starts ss) @ [of_nat (total_length ss)]) (int j) = Ok (of_nat (start_at ss j))"
proof (cases "j < length ss")
  case False
  moreover assume "j \<le> length ss"
  ultimately have "j = length ss"
    by simp
  then show ?thesis
    by (simp add: go_index_def nth_append start_at_def)
qed (rule go_index_offsets)

lemma handleVariableResults_padded:
  assumes "total_length ss \<le> 2 ^ 48" and "length ss < 2 ^ 64" and "length (concat ss) + length pad < 2 ^ 64"
  shows "handleVariableResults (bytes_of (concat ss) @ pad) (of_nat (length ss), of_nat (total_length ss)) (map of_nat (starts ss))
    = Ok (map bytes_of ss)"
  using variable_loop_run [OF assms(1,3) le_refl go_index_ends, of 0 "length ss" 0] assms(2)
  by (simp add: handleVariableResults_def unat_of_nat start_at_def total_length_def)

lemma handleVariableResults_ok:
  assumes "total_length ss \<le> 2 ^ 48" and "length ss < 2 ^ 64"
  shows "handleVariableResults (bytes_of (concat ss)) (of_nat (length ss), of_nat (total_length ss)) (map of_nat (starts ss))
    = Ok (map bytes_of ss)"
  using handleVariableResults_padded [OF assms, of "[]"] assms(1) by (simp add: length_concat_total)

lemma unat_of_nat_small: "k < 2 ^ 64 \<Longrightarrow> unat (of_nat k :: 64 word) = k"
  by (simp add: unat_of_nat)

lemma minus_offset: "0 < n \<Longrightarrow> n \<le> 2 ^ 48 \<Longrightarrow> unat (- of_nat n :: 64 word) > 2 ^ 48"
proof -
  assume n: "0 < n" "n \<le> 2 ^ 48"
  then have "of_nat (2 ^ 64 - n) = (of_nat (2 ^ 64) - of_nat n :: 64 word)"
    by (intro of_nat_diff) simp
  then have "(- of_nat n :: 64 word) = of_nat (2 ^ 64 - n)"
    by simp
  moreover have "unat (of_nat (2 ^ 64 - n) :: 64 word) = 2 ^ 64 - n"
    using n by (intro unat_of_nat_small) simp
  moreover have "(2 ^ 48 :: nat) < 2 ^ 64 - n"
    using n by simp
  ultimately show ?thesis
    by (simp only:)
qed

text \<open>The last string is cut with the offset that follows the last start: when it is zero, only an empty prefix survives.\<close>

lemma last_range_zero:
  assumes "go_index ranges (int (m + Suc 0)) = Ok 0" and "go_index ranges (int m) = Ok (of_nat k)" and "k \<le> 2 ^ 48"
  shows "variable_loop d ranges m 1 (of_nat k) = (if k = 0 then Ok [[]] else Panic)"
proof (cases "k = 0")
  case True
  then show ?thesis
    unfolding One_nat_def variable_loop.simps assms(1,2)
    by (simp add: Let_def make_bytes_def copy_value.simps)
next
  case False
  then have "unat (- of_nat k :: 64 word) > 2 ^ 48"
    using assms(3) by (intro minus_offset) simp_all
  with False show ?thesis
    unfolding One_nat_def variable_loop.simps assms(1,2)
    by (simp add: make_bytes_def)
qed

text \<open>C32. When the buffer of offsets has room for more values than the query returned (its size is an estimate),
  the last string of the result is measured against the zero after it: the read panics, or, when
  all strings before the last are empty, the last one is returned empty.\<close>

theorem handleVariableResults_long_offsets:
  assumes "total_length ss \<le> 2 ^ 48" and "length ss < 2 ^ 64" and "ss \<noteq> []" and "length (concat ss) + length pad < 2 ^ 64"
  shows "handleVariableResults (bytes_of (concat ss) @ pad) (of_nat (length ss), of_nat (total_length ss))
      (map of_nat (starts ss) @ 0 # unused) =
    (if concat (butlast ss) = [] then Ok (map bytes_of (butlast ss) @ [[]]) else Panic)"
proof -
  let ?ranges = "(map of_nat (starts ss) @ 0 # unused) @ [of_nat (total_length ss)] :: 64 word list"
  let ?data = "bytes_of (concat ss) @ pad"
  obtain m where m: "length ss = Suc m"
    using assms(3) by (cases ss) auto
  have rng: "go_index ?ranges (int j) = Ok (of_nat (start_at ss j))" if "j \<le> m" for j
    using go_index_offsets [of j ss "0 # unused @ [of_nat (total_length ss)]"] that m by simp
  have "go_index ?ranges (int (length ss)) = Ok 0"
    by (simp add: go_index_def nth_append)
  then have last: "go_index ?ranges (int (m + Suc 0)) = Ok 0"
    unfolding m by simp
  have start: "start_at ss m = length (concat (butlast ss))"
    by (simp add: start_at_def butlast_conv_take m length_concat_total)
  have "start_at ss m \<le> 2 ^ 48"
    using start_at_total [of m ss] assms(1) m by simp
  then have "variable_loop ?data ?ranges m 1 (of_nat (start_at ss m)) = (if concat (butlast ss) = [] then Ok [[]] else Panic)"
    using last_range_zero [OF last rng [OF le_refl]] by (simp only: start length_0_conv)
  then have "variable_loop ?data ?ranges 0 (m + 1) (of_nat (start_at ss 0)) =
    res_bind (if concat (butlast ss) = [] then Ok [[]] else Panic) (\<lambda>results. Ok (map bytes_of (take m (drop 0 ss)) @ results))"
    using variable_loop_run [OF assms(1,4) _ rng, of m 0 m 1] m by (simp only:)
  moreover have "start_at ss 0 = 0" "unat (of_nat (length ss) :: 64 word) = m + 1" "take m ss = butlast ss"
    using m unat_of_nat_small [OF assms(2)] by (simp_all add: start_at_def total_length_def butlast_conv_take del: of_nat_Suc)
  ultimately show ?thesis
    by (simp add: handleVariableResults_def)
qed

subsection \<open>The contract of a format for lists of strings\<close>

locale string_codec =
  fixes encode :: "string list \<Rightarrow> 'c" and decode :: "'c \<Rightarrow> string list res" and fits :: "string list \<Rightarrow> bool"
  assumes decode_encode: "fits ss \<Longrightarrow> decode (encode ss) = Ok ss"
begin

lemma encode_inj: "inj_on encode (Collect fits)"
  by (rule inj_onI) (metis decode_encode mem_Collect_eq res.inject(1))

lemma decode_columns: "list_all fits cols \<Longrightarrow> res_map (\<lambda>c. decode (encode c)) cols = Ok cols"
  by (induction cols) (simp_all add: decode_encode)

end

definition column_encode :: "string list \<Rightarrow> byte list \<times> 64 word list" where
  "column_encode ss = concat_strings 0 ss"

definition column_decode :: "byte list \<times> 64 word list \<Rightarrow> string list res" where
  "column_decode c = res_bind (handleVariableResults (fst c) (of_nat (length (snd c)), of_nat (length (fst c))) (snd c))
     (\<lambda>bss. Ok (map string_of_bytes bss))"

definition fits_memory :: "string list \<Rightarrow> bool" where
  "fits_memory ss \<longleftrightarrow> total_length ss \<le> 2 ^ 48 \<and> length ss < 2 ^ 64"

lemma string_of_bytes_map [simp]: "map (string_of_bytes \<circ> bytes_of) ss = ss"
  by (simp add: map_idI)

interpretation event_codec: string_codec column_encode column_decode fits_memory
proof
  fix ss assume "fits_memory ss"
  then show "column_decode (column_encode ss) = Ok ss"
    using handleVariableResults_ok [of ss]
    by (simp add: fits_memory_def column_decode_def column_encode_def concat_strings_eq length_concat_total)
qed

theorem handleVariableResults_long_offsets_witness:
  "handleVariableResults (bytes_of ''abc'' @ [0]) (2, 3) [0, 2, 0, 0] = Panic \<and>
   handleVariableResults (bytes_of ''abc'') (2, 3) [0, 0, 0] = Ok [[], []]"
  using handleVariableResults_long_offsets [of "[''ab'', ''c'']" "[0]" "[0]"]
    handleVariableResults_long_offsets [of "['''', ''abc'']" "[]" "[]"]
  by (simp add: total_length_def starts_def bytes_of_def)

end
