(* ===== verification/Io_Calls.thy ===== *)
theory Io_Calls
  imports Store_Sessions
begin

section \<open>Sequences of calls\<close>

text \<open>
  The commands of a sequence of calls to a service (a loop, an ignored error, a deferred call),
  and total correctness of such a sequence: \<open>does m w P\<close> says that the call returns, and what.
\<close>

subsection \<open>Commands\<close>

text \<open>\<^verbatim>\<open>for i, x := range xs\<close> with a call that may fail, collecting its results.\<close>

fun io_each :: "(nat \<Rightarrow> 'a \<Rightarrow> ('w, 'b) io) \<Rightarrow> nat \<Rightarrow> 'a list \<Rightarrow> ('w, 'b list) io" where
  "io_each f i [] = io_return []"
| "io_each f i (x # xs) = io_bind (f i x) (\<lambda>y. io_bind (io_each f (Suc i) xs) (\<lambda>ys. io_return (y # ys)))"

text \<open>A call whose error is ignored.\<close>

definition io_ignore :: "('w, 'a) io \<Rightarrow> ('w, unit) io" where
  "io_ignore m = io_bind (io_catch m) (\<lambda>_. io_return ())"

text \<open>\<^verbatim>\<open>defer c()\<close>: it runs after the rest, also after an error or a panic, and not when the process exits.\<close>

definition io_defer :: "('w, unit) io \<Rightarrow> ('w, 'a) io \<Rightarrow> ('w, 'a) io" where
  "io_defer c m w = (case m w of
     None \<Rightarrow> None
   | Some (Exit, w1) \<Rightarrow> Some (Exit, w1)
   | Some (r, w1) \<Rightarrow> (case c w1 of
       None \<Rightarrow> None
     | Some (Panic, w2) \<Rightarrow> Some (Panic, w2)
     | Some (Exit, w2) \<Rightarrow> Some (Exit, w2)
     | Some (rc, w2) \<Rightarrow> Some (r, w2)))"

definition io_res :: "'a res \<Rightarrow> ('w, 'a) io" where
  "io_res r = io_lift (Some r)"

subsection \<open>Calls that succeed\<close>

text \<open>The call returns a value, and value and world meet the condition.\<close>

definition does :: "('w, 'a) io \<Rightarrow> 'w world \<Rightarrow> ('a \<Rightarrow> 'w world \<Rightarrow> bool) \<Rightarrow> bool" where
  "does m w P \<longleftrightarrow> (\<exists>x w'. m w = Some (Ok x, w') \<and> P x w')"

named_theorems does_intro \<open>rules for a sequence of calls that succeed\<close>

lemma does_return [simp]: "does (io_return x) w P \<longleftrightarrow> P x w"
  by (simp add: does_def io_return_def)

lemma does_bind [does_intro]: "does m w (\<lambda>x w'. does (f x) w' P) \<Longrightarrow> does (io_bind m f) w P"
  by (auto simp: does_def io_bind_def)

lemma does_bind_iff: "does (io_bind m f) w P \<longleftrightarrow> does m w (\<lambda>x w'. does (f x) w' P)"
  by (auto simp: does_def io_bind_def split: option.splits prod.splits res.splits)

lemma does_res [does_intro]: "r = Ok x \<Longrightarrow> P x w \<Longrightarrow> does (io_res r) w P"
  by (simp add: does_def io_res_def io_lift_def)

lemma does_lift: "does (io_lift (Some r)) w P \<longleftrightarrow> (\<exists>x. r = Ok x \<and> P x w)"
  by (auto simp: does_def io_lift_def)

lemma does_catch [does_intro]: "does m w (\<lambda>x w'. P (Inr x) w') \<Longrightarrow> does (io_catch m) w P"
  by (auto simp: does_def io_catch_def)

lemma does_ignore [does_intro]: "does m w (\<lambda>x w'. P () w') \<Longrightarrow> does (io_ignore m) w P"
  by (auto simp: does_def io_ignore_def io_catch_def io_bind_def io_return_def)

lemma does_defer [does_intro]: "does m w (\<lambda>x w1. does c w1 (\<lambda>_ w2. P x w2)) \<Longrightarrow> does (io_defer c m) w P"
  by (auto simp: does_def io_defer_def)

lemma does_mono: "does m w P \<Longrightarrow> (\<And>x w'. P x w' \<Longrightarrow> Q x w') \<Longrightarrow> does m w Q"
  by (auto simp: does_def)

lemma does_pair:
  "does m w (\<lambda>(x, y) w'. P x y w') \<Longrightarrow> (\<And>x y w'. P x y w' \<Longrightarrow> Q (x, y) w') \<Longrightarrow> does m w Q"
  by (auto simp: does_def)

lemma io_bind_OkE:
  assumes "io_bind m f w = Some (Ok y, w2)"
  obtains x w1 where "m w = Some (Ok x, w1)" "f x w1 = Some (Ok y, w2)"
  using assms by (auto simp: io_bind_def split: option.splits prod.splits res.splits)

text \<open>A loop of calls, with an invariant over the results so far.\<close>

lemma does_each:
  assumes "\<And>k w1 ys. k < length xs \<Longrightarrow> length ys = k \<Longrightarrow> I ys w1 \<Longrightarrow> does (f (i + k) (xs ! k)) w1 (\<lambda>y w2. I (ys @ [y]) w2)"
    and "I [] w" and "\<And>ys w1. length ys = length xs \<Longrightarrow> I ys w1 \<Longrightarrow> P ys w1"
  shows "does (io_each f i xs) w P"
  using assms
proof (induction xs arbitrary: i I w P)
  case Nil
  then show ?case by simp
next
  case (Cons x xs)
  have "does (f i x) w (\<lambda>y w1. I [y] w1)"
    using Cons.prems(1) [of 0 "[]" w] Cons.prems(2) by simp
  moreover have "does (io_each f (Suc i) xs) w1 (\<lambda>ys w2. P (y # ys) w2)" if "I [y] w1" for y w1
  proof (rule Cons.IH [where I = "\<lambda>ys. I (y # ys)"])
    show "does (f (Suc i + k) (xs ! k)) w2 (\<lambda>z w3. I (y # (ys @ [z])) w3)"
      if "k < length xs" "length ys = k" "I (y # ys) w2" for k w2 ys
      using Cons.prems(1) [of "Suc k" "y # ys" w2] that by simp
  qed (use that Cons.prems(3) in simp_all)
  ultimately show ?case
    by (auto simp: does_bind_iff elim!: does_mono)
qed

subsection \<open>Calls that return an error\<close>

definition fails :: "('w, 'a) io \<Rightarrow> 'w world \<Rightarrow> ('w world \<Rightarrow> bool) \<Rightarrow> bool" where
  "fails m w P \<longleftrightarrow> (\<exists>e w'. m w = Some (Err e, w') \<and> P w')"

lemma fails_first: "fails m w P \<Longrightarrow> fails (io_bind m f) w P"
  by (auto simp: fails_def io_bind_def)

lemma fails_bind: "does m w (\<lambda>x w'. fails (f x) w' P) \<Longrightarrow> fails (io_bind m f) w P"
  by (auto simp: fails_def does_def io_bind_def)

lemma fails_defer: "fails m w (\<lambda>w1. does c w1 (\<lambda>_ w2. P w2)) \<Longrightarrow> fails (io_defer c m) w P"
  by (auto simp: fails_def does_def io_defer_def)

lemma fails_mono: "fails m w P \<Longrightarrow> (\<And>w'. P w' \<Longrightarrow> Q w') \<Longrightarrow> fails m w Q"
  by (auto simp: fails_def)

text \<open>Both are cases of a call that ends in some way; a rule about the calls before it holds for any.\<close>

definition ends :: "('w, 'a) io \<Rightarrow> 'w world \<Rightarrow> ('a res \<Rightarrow> 'w world \<Rightarrow> bool) \<Rightarrow> bool" where
  "ends m w Q \<longleftrightarrow> (\<exists>r w'. m w = Some (r, w') \<and> Q r w')"

lemma ends_bind: "does m w (\<lambda>x w'. ends (f x) w' Q) \<Longrightarrow> ends (io_bind m f) w Q"
  by (auto simp: ends_def does_def io_bind_def)

lemma does_ends: "ends m w (\<lambda>r w'. \<exists>x. r = Ok x \<and> P x w') \<longleftrightarrow> does m w P"
  by (auto simp: does_def ends_def)

lemma fails_ends: "ends m w (\<lambda>r w'. \<exists>e. r = Err e \<and> P w') \<longleftrightarrow> fails m w P"
  by (auto simp: fails_def ends_def)

subsection \<open>Calls that succeed or return an error\<close>

definition answers :: "('w, 'a) io \<Rightarrow> 'w world \<Rightarrow> ('a \<Rightarrow> 'w world \<Rightarrow> bool) \<Rightarrow> ('w world \<Rightarrow> bool) \<Rightarrow> bool" where
  "answers m w P Q \<longleftrightarrow> (\<exists>r w'. m w = Some (r, w') \<and> (case r of Ok x \<Rightarrow> P x w' | Err e \<Rightarrow> Q w' | _ \<Rightarrow> False))"

lemma answersE:
  assumes "answers m w P Q"
  obtains (ok) x w' where "m w = Some (Ok x, w')" "P x w'" | (err) e w' where "m w = Some (Err e, w')" "Q w'"
proof -
  from assms obtain r w' where r: "m w = Some (r, w')" "case r of Ok x \<Rightarrow> P x w' | Err e \<Rightarrow> Q w' | _ \<Rightarrow> False"
    unfolding answers_def by blast
  then show thesis
    using that by (cases r) simp_all
qed

lemma does_catch_answers:
  assumes "answers m w P Q" and "\<And>x w'. P x w' \<Longrightarrow> R (Inr x) w'" and "\<And>e w'. Q w' \<Longrightarrow> R (Inl e) w'"
  shows "does (io_catch m) w R"
  using assms(1) by (rule answersE) (simp_all add: does_def io_catch_def assms(2,3))

lemma answers_bind:
  assumes "answers m w P Q" and "\<And>x w'. P x w' \<Longrightarrow> answers (f x) w' R Q"
  shows "answers (io_bind m f) w R Q"
  using assms(1)
proof (rule answersE)
  fix x w' assume "m w = Some (Ok x, w')" "P x w'"
  then show ?thesis
    using assms(2) [of x w'] by (simp add: answers_def io_bind_def)
qed (simp add: answers_def io_bind_def)

lemma does_answers: "does m w P \<Longrightarrow> answers m w P Q"
  by (auto simp: does_def answers_def)

lemma answers_mono:
  assumes "answers m w P Q" and "\<And>x w'. P x w' \<Longrightarrow> P' x w'" and "\<And>w'. Q w' \<Longrightarrow> Q' w'"
  shows "answers m w P' Q'"
  using assms(1) by (rule answersE) (simp_all add: answers_def assms(2,3))

end
