(* ===== verification/TileDb_Api.thy ===== *)
theory TileDb_Api
  imports TileDb_Strings Io_Calls
begin

section \<open>The TileDB package as an argument\<close>

text \<open>
  \<^verbatim>\<open>tiledb_store.go\<close> calls the TileDB package, which is not part of the repository: it is a record
  of functions over handles (\<open>tiledb_objects\<close> for what describes an array, \<open>tiledb_schemas\<close>
  for what a loaded array says, \<open>tiledb_queries\<close> for queries). A buffer given to a query is named
  by its position, because a read fills it in place.
\<close>

subsection \<open>The TileDB package\<close>

datatype tdb_datatype = TILEDB_INT64 | TILEDB_INT32 | TILEDB_INT16 | TILEDB_INT8 | TILEDB_UINT8 | TILEDB_FLOAT32
  | TILEDB_FLOAT64 | TILEDB_STRING_ASCII | OtherDatatype int
datatype tdb_array_type = TILEDB_DENSE | TILEDB_SPARSE | OtherArrayType string
datatype tdb_layout = TILEDB_ROW_MAJOR | TILEDB_COL_MAJOR | TILEDB_UNORDERED
datatype tdb_mode = TILEDB_READ | TILEDB_WRITE

record ('w, 'h) tiledb_objects =
  NewConfig :: "('w, 'h) io"
  ConfigSet :: "'h \<Rightarrow> string \<Rightarrow> string \<Rightarrow> ('w, unit) io"
  NewContext :: "'h \<Rightarrow> ('w, 'h) io"
  ObjectInvalid :: "'h \<Rightarrow> string \<Rightarrow> ('w, bool) io"
  NewDomain :: "'h \<Rightarrow> ('w, 'h) io"
  NewStringDimension :: "'h \<Rightarrow> string \<Rightarrow> ('w, 'h) io"
  NewDimension :: "'h \<Rightarrow> string \<Rightarrow> tdb_datatype \<Rightarrow> int list \<Rightarrow> int \<Rightarrow> ('w, 'h) io"
  AddDimensions :: "'h \<Rightarrow> 'h list \<Rightarrow> ('w, unit) io"
  NewAttribute :: "'h \<Rightarrow> string \<Rightarrow> tdb_datatype \<Rightarrow> ('w, 'h) io"
  SetCellValVar :: "'h \<Rightarrow> ('w, unit) io"
  NewArraySchema :: "'h \<Rightarrow> tdb_array_type \<Rightarrow> ('w, 'h) io"
  SetDomain :: "'h \<Rightarrow> 'h \<Rightarrow> ('w, unit) io"
  AddAttributes :: "'h \<Rightarrow> 'h list \<Rightarrow> ('w, unit) io"
  SetCellOrder :: "'h \<Rightarrow> tdb_layout \<Rightarrow> ('w, unit) io"
  SetTileOrder :: "'h \<Rightarrow> tdb_layout \<Rightarrow> ('w, unit) io"
  NewArray :: "'h \<Rightarrow> string \<Rightarrow> ('w, 'h) io"
  ArrayCreate :: "'h \<Rightarrow> 'h \<Rightarrow> ('w, unit) io"
  ArrayOpen :: "'h \<Rightarrow> tdb_mode \<Rightarrow> ('w, unit) io"
  ArrayClose :: "'h \<Rightarrow> ('w, unit) io"

text \<open>What a loaded array says of its schema.\<close>

record ('w, 'h) tiledb_schemas =
  Schema :: "'h \<Rightarrow> ('w, 'h) io"
  SchemaType :: "'h \<Rightarrow> ('w, tdb_array_type) io"
  SchemaAttributes :: "'h \<Rightarrow> ('w, 'h list) io"
  AttributeName :: "'h \<Rightarrow> ('w, string) io"
  AttributeType :: "'h \<Rightarrow> ('w, tdb_datatype) io"
  SchemaDomain :: "'h \<Rightarrow> ('w, 'h) io"
  NDim :: "'h \<Rightarrow> ('w, nat) io"
  DimensionFromIndex :: "'h \<Rightarrow> nat \<Rightarrow> ('w, 'h) io"
  DimensionName :: "'h \<Rightarrow> ('w, string) io"
  DimensionDomain :: "'h \<Rightarrow> ('w, go_any) io"

text \<open>Counts per name; a name that is missing reads as zeros.\<close>

type_synonym buffer_elements = "string \<Rightarrow> 64 word \<times> 64 word \<times> 64 word"

text \<open>What the buffers hold after a query: data buffers and offset buffers by position.\<close>

record filled =
  filled_data :: "nat \<Rightarrow> go_any option"
  filled_offsets :: "nat \<Rightarrow> 64 word list option"

record ('w, 'h) tiledb_queries =
  NewQuery :: "'h \<Rightarrow> 'h \<Rightarrow> ('w, 'h) io"
  SetLayout :: "'h \<Rightarrow> tdb_layout \<Rightarrow> ('w, unit) io"
  NewSubarray :: "'h \<Rightarrow> ('w, 'h) io"
  SetSubArray :: "'h \<Rightarrow> int list \<Rightarrow> ('w, unit) io"
  SetSubarray :: "'h \<Rightarrow> 'h \<Rightarrow> ('w, unit) io"
  SetDataBuffer :: "'h \<Rightarrow> string \<Rightarrow> nat \<Rightarrow> go_any \<Rightarrow> ('w, unit) io"
  SetOffsetsBuffer :: "'h \<Rightarrow> string \<Rightarrow> nat \<Rightarrow> 64 word list \<Rightarrow> ('w, unit) io"
  EstimateBufferElements :: "'h \<Rightarrow> ('w, buffer_elements) io"
  Submit :: "'h \<Rightarrow> ('w, filled) io"
  ResultBufferElements :: "'h \<Rightarrow> ('w, buffer_elements) io"

record ('w, 'h) tiledb =
  objs :: "('w, 'h) tiledb_objects"
  schs :: "('w, 'h) tiledb_schemas"
  qrys :: "('w, 'h) tiledb_queries"

end
