(* ===== verification/TileDb_Store.thy ===== *)
theory TileDb_Store
  imports TileDb_Api Payload_Attributes
begin

section \<open>TileDB event store: arrays\<close>

text \<open>
  \<^verbatim>\<open>tiledb_store.go\<close>: connecting, creating arrays, writing and reading them, over the TileDB
  package as a record of functions.
\<close>

subsection \<open>Types and layouts\<close>

definition eventStoreType2TileDbType :: "ARRAY_TYPE \<Rightarrow> tdb_array_type" where
  "eventStoreType2TileDbType t = (case t of ARRAY_DENSE \<Rightarrow> TILEDB_DENSE | ARRAY_SPARSE \<Rightarrow> TILEDB_SPARSE)"

definition getArrayType :: "tdb_array_type \<Rightarrow> ARRAY_TYPE res" where
  "getArrayType at = (case at of
     TILEDB_DENSE \<Rightarrow> Ok ARRAY_DENSE
   | TILEDB_SPARSE \<Rightarrow> Ok ARRAY_SPARSE
   | OtherArrayType s \<Rightarrow> Err (Errorf ''invalid array type: %v'' [s]))"

definition eventStoreOrder2TileDbOrder :: "LAYOUT_ORDER \<Rightarrow> tdb_layout" where
  "eventStoreOrder2TileDbOrder l = (case l of
     ROWMAJOR \<Rightarrow> TILEDB_ROW_MAJOR | COLMAJOR \<Rightarrow> TILEDB_COL_MAJOR | UNORDERED \<Rightarrow> TILEDB_UNORDERED)"

definition CcStoreDimensionType2TileDbType :: "DIMENSION_TYPE \<Rightarrow> tdb_datatype" where
  "CcStoreDimensionType2TileDbType t = (case t of DIMENSION_INT \<Rightarrow> TILEDB_INT64 | DIMENSION_STRING \<Rightarrow> TILEDB_INT32)"

definition ccAttr2TiledbAttrMap :: "ATTR_TYPE \<Rightarrow> tdb_datatype option" where
  "ccAttr2TiledbAttrMap t = (case t of
     ATTR_UINT8 \<Rightarrow> Some TILEDB_UINT8
   | ATTR_INT8 \<Rightarrow> Some TILEDB_INT8
   | ATTR_INT16 \<Rightarrow> Some TILEDB_INT16
   | ATTR_INT32 \<Rightarrow> Some TILEDB_INT32
   | ATTR_INT64 \<Rightarrow> Some TILEDB_INT64
   | ATTR_FLOAT32 \<Rightarrow> Some TILEDB_FLOAT32
   | ATTR_FLOAT64 \<Rightarrow> Some TILEDB_FLOAT64
   | ATTR_STRING \<Rightarrow> Some TILEDB_STRING_ASCII
   | OtherAttr _ \<Rightarrow> None)"

text \<open>The reverse lookup ranges over the map; its values are distinct.\<close>

definition tileDbType2CcTypeLookup :: "tdb_datatype \<Rightarrow> ATTR_TYPE option" where
  "tileDbType2CcTypeLookup value = find (\<lambda>k. ccAttr2TiledbAttrMap k = Some value)
     [ATTR_UINT8, ATTR_INT8, ATTR_INT16, ATTR_INT32, ATTR_INT64, ATTR_FLOAT32, ATTR_FLOAT64, ATTR_STRING]"

lemma tileDbType2CcTypeLookup_inverse:
  "tileDbType2CcTypeLookup d = Some t \<longleftrightarrow> ccAttr2TiledbAttrMap t = Some d"
  by (cases d; cases t; simp add: tileDbType2CcTypeLookup_def ccAttr2TiledbAttrMap_def)

subsection \<open>Creating arrays\<close>

record 'h TileDbEventStore =
  tdb_context :: 'h
  tdb_uri :: string

definition create_dimension :: "('w, 'h) tiledb \<Rightarrow> 'h TileDbEventStore \<Rightarrow> nat \<Rightarrow> ArrayDimension \<Rightarrow> ('w, 'h) io" where
  "create_dimension td tdb i dimension = (case ad_DimensionType dimension of
     DIMENSION_STRING \<Rightarrow> NewStringDimension (objs td) (tdb_context tdb) (ad_Name dimension)
   | DIMENSION_INT \<Rightarrow> NewDimension (objs td) (tdb_context tdb) (ad_Name dimension)
       (CcStoreDimensionType2TileDbType (ad_DimensionType dimension)) (ad_Domain dimension) (ad_TileExtent dimension))"

definition create_attribute :: "('w, 'h) tiledb \<Rightarrow> 'h TileDbEventStore \<Rightarrow> nat \<Rightarrow> ArrayAttribute \<Rightarrow> ('w, 'h) io" where
  "create_attribute td tdb i attribute = (case ccAttr2TiledbAttrMap (aa_DataType attribute) of
     Some tiledbAttr \<Rightarrow>
       io_bind (NewAttribute (objs td) (tdb_context tdb) (aa_Name attribute) tiledbAttr) (\<lambda>attr.
         if tiledbAttr = TILEDB_STRING_ASCII
         then io_bind (SetCellValVar (objs td) attr) (\<lambda>_. io_return attr)
         else io_return attr)
   | None \<Rightarrow> io_err (Errorf ''unsupported attribute type'' []))"

definition CreateArray :: "('w, 'h) tiledb \<Rightarrow> 'h TileDbEventStore \<Rightarrow> CreateArrayInput \<Rightarrow> ('w, unit) io" where
  "CreateArray td tdb input =
     io_bind (NewDomain (objs td) (tdb_context tdb)) (\<lambda>domain.
     io_bind (io_each (create_dimension td tdb) 0 (ca_Dimensions input)) (\<lambda>tiledbDims.
     io_bind (AddDimensions (objs td) domain tiledbDims) (\<lambda>_.
     io_bind (io_each (create_attribute td tdb) 0 (ca_Attributes input)) (\<lambda>tiledbAttrs.
     io_bind (NewArraySchema (objs td) (tdb_context tdb) (eventStoreType2TileDbType (ca_ArrayType input))) (\<lambda>arraySchema.
     io_bind (SetDomain (objs td) arraySchema domain) (\<lambda>_.
     io_bind (AddAttributes (objs td) arraySchema tiledbAttrs) (\<lambda>_.
     io_bind (io_ignore (SetCellOrder (objs td) arraySchema (eventStoreOrder2TileDbOrder (ca_CellLayout input)))) (\<lambda>_.
     io_bind (io_ignore (SetTileOrder (objs td) arraySchema (eventStoreOrder2TileDbOrder (ca_TileLayout input)))) (\<lambda>_.
     io_bind (NewArray (objs td) (tdb_context tdb) (tdb_uri tdb @ ''/'' @ ca_ArrayPath input)) (\<lambda>array.
     io_defer (ArrayClose (objs td) array) (ArrayCreate (objs td) array arraySchema)))))))))))"

definition determineTileExtent :: "int list \<Rightarrow> int" where
  "determineTileExtent dims =
     fold (\<lambda>dimSize tileExtent. if dimSize < tileExtent then dimSize else tileExtent) dims defaultTileExtent"

record CreateSimpleArrayInput =
  cs_DataType :: ATTR_TYPE
  cs_Dims :: "int list"
  cs_ArrayPath :: string
  cs_CellLayout :: LAYOUT_ORDER
  cs_TileLayout :: LAYOUT_ORDER
  cs_TileExtent :: "int list"

definition defaultAttrName :: string where
  "defaultAttrName = ''a''"

definition simple_array_input :: "CreateSimpleArrayInput \<Rightarrow> CreateArrayInput" where
  "simple_array_input input =
     \<lparr>ca_Attributes = [\<lparr>aa_Name = defaultAttrName, aa_DataType = cs_DataType input\<rparr>],
      ca_Dimensions = map (\<lambda>i. \<lparr>ad_Name = show_nat i, ad_DimensionType = DIMENSION_INT,
        ad_Domain = [1, cs_Dims input ! i], ad_TileExtent = determineTileExtent (cs_Dims input)\<rparr>)
        [0..<length (cs_Dims input)],
      ca_ArrayPath = cs_ArrayPath input, ca_ArrayType = ARRAY_DENSE,
      ca_CellLayout = cs_CellLayout input, ca_TileLayout = cs_TileLayout input\<rparr>"

definition createSimpleArray :: "('w, 'h) tiledb \<Rightarrow> 'h TileDbEventStore \<Rightarrow> CreateSimpleArrayInput \<Rightarrow> ('w, unit) io" where
  "createSimpleArray td tdb input = CreateArray td tdb (simple_array_input input)"

subsection \<open>Writing\<close>

definition put_buffer :: "('w, 'h) tiledb \<Rightarrow> 'h \<Rightarrow> nat \<Rightarrow> PutArrayBuffer \<Rightarrow> ('w, unit) io" where
  "put_buffer td query i buffer =
     io_bind (SetDataBuffer (qrys td) query (pb_AttrName buffer) i (pb_Buffer buffer)) (\<lambda>_.
       case pb_Offsets buffer of
         Some offsets \<Rightarrow> SetOffsetsBuffer (qrys td) query (pb_AttrName buffer) i offsets
       | None \<Rightarrow> io_return ())"

definition put_range :: "('w, 'h) tiledb \<Rightarrow> 'h \<Rightarrow> 'h \<Rightarrow> int list \<Rightarrow> ('w, unit) io" where
  "put_range td array query br =
     io_bind (NewSubarray (qrys td) array) (\<lambda>subarray.
     io_bind (SetSubArray (qrys td) subarray br) (\<lambda>_. SetSubarray (qrys td) query subarray))"

definition PutArray :: "('w, 'h) tiledb \<Rightarrow> 'h TileDbEventStore \<Rightarrow> PutArrayInput \<Rightarrow> ('w, unit) io" where
  "PutArray td tdb input =
     io_bind (NewArray (objs td) (tdb_context tdb) (tdb_uri tdb @ ''/'' @ pa_DataPath input)) (\<lambda>array.
     io_bind (ArrayOpen (objs td) array TILEDB_WRITE) (\<lambda>_.
     io_bind (NewQuery (qrys td) (tdb_context tdb) array) (\<lambda>query.
     io_bind (if pa_ArrayType input = ARRAY_DENSE then
         io_bind (SetLayout (qrys td) query (eventStoreOrder2TileDbOrder (pa_PutLayout input))) (\<lambda>_.
           put_range td array query (pa_BufferRange input))
       else SetLayout (qrys td) query TILEDB_UNORDERED) (\<lambda>_.
     io_bind (io_each (put_buffer td query) 0 (pa_Buffers input)) (\<lambda>_.
     io_bind (Submit (qrys td) query) (\<lambda>_. io_return ()))))))"

record PutSimpleArrayInput =
  ps_Buffer :: go_any
  ps_Dims :: "int list"
  ps_DataPath :: string
  ps_CellLayout :: LAYOUT_ORDER
  ps_TileLayout :: LAYOUT_ORDER
  ps_PutLayout :: LAYOUT_ORDER
  ps_TileExtent :: "int list"

text \<open>\<^verbatim>\<open>xs[i] = x\<close>\<close>

definition go_set :: "'a list \<Rightarrow> int \<Rightarrow> 'a \<Rightarrow> 'a list res" where
  "go_set xs i x = res_bind (go_index xs i) (\<lambda>_. Ok (xs[nat i := x]))"

text \<open>\<^verbatim>\<open>for i := 0; i <= len(dims); i += 2\<close>: the indices that are visited, then the loop.\<close>

definition range_indices :: "int list \<Rightarrow> int list" where
  "range_indices dims = map (\<lambda>k. 2 * int k) [0..<length dims div 2 + 1]"

fun simple_range_loop :: "int list \<Rightarrow> int list \<Rightarrow> int list \<Rightarrow> int list res" where
  "simple_range_loop dims [] br = Ok br"
| "simple_range_loop dims (i # is) br =
     res_bind (go_set br i 1) (\<lambda>br.
     res_bind (go_index dims (i div 2)) (\<lambda>d.
     res_bind (go_set br (i + 1) d) (\<lambda>br. simple_range_loop dims is br)))"

definition simple_range :: "int list \<Rightarrow> int list res" where
  "simple_range dims = simple_range_loop dims (range_indices dims) (replicate (length dims * 2) 0)"

text \<open>The buffer may be given by pointer; it is what the pointer refers to.\<close>

definition PutSimpleArray :: "('w, 'h) tiledb \<Rightarrow> 'h TileDbEventStore \<Rightarrow> PutSimpleArrayInput \<Rightarrow> ('w, unit) io" where
  "PutSimpleArray td tdb input =
     io_bind (ObjectInvalid (objs td) (tdb_context tdb) (tdb_uri tdb @ ''/'' @ ps_DataPath input)) (\<lambda>absent.
     io_bind (if absent then
         (case ps_Buffer input of
            AnySlice k _ \<Rightarrow> (case Golang2AttrTypeMap k of
                Some newType \<Rightarrow> createSimpleArray td tdb \<lparr>cs_DataType = newType, cs_Dims = ps_Dims input,
                  cs_ArrayPath = ps_DataPath input, cs_CellLayout = ps_CellLayout input,
                  cs_TileLayout = ps_TileLayout input, cs_TileExtent = ps_TileExtent input\<rparr>
              | None \<Rightarrow> io_err (Errorf ''invalid simple array type'' []))
          | AnyCell _ \<Rightarrow> io_err (Errorf ''invalid simple array type'' [])
          | AnyNil \<Rightarrow> io_res Panic)
       else io_return ()) (\<lambda>_.
     io_bind (if ps_Buffer input = AnyNil then io_res Panic else io_return ()) (\<lambda>_.
     io_bind (io_res (simple_range (ps_Dims input))) (\<lambda>br.
       PutArray td tdb
         \<lparr>pa_Buffers = [\<lparr>pb_AttrName = defaultAttrName, pb_Buffer = ps_Buffer input, pb_Offsets = None\<rparr>],
          pa_BufferRange = br, pa_DataPath = ps_DataPath input, pa_ArrayType = ARRAY_DENSE, pa_Coords = [],
          pa_PutLayout = ps_PutLayout input\<rparr>))))"

subsection \<open>The schema of an array\<close>

definition int64_cell :: "cell \<Rightarrow> int" where
  "int64_cell c = (case c of CInt64 w \<Rightarrow> sint w | _ \<Rightarrow> 0)"

text \<open>The ranges and names of the dimensions; an error ends the loop and is only logged.\<close>

fun domain_loop ::
    "('w, 'h) tiledb \<Rightarrow> 'h \<Rightarrow> nat \<Rightarrow> nat \<Rightarrow> int list \<Rightarrow> string list \<Rightarrow> ('w, int list \<times> string list) io" where
  "domain_loop td d i 0 brange dnames = io_return (brange, dnames)"
| "domain_loop td d i (Suc n) brange dnames =
     io_bind (io_catch (DimensionFromIndex (schs td) d i)) (\<lambda>dim. case dim of
       Inl _ \<Rightarrow> io_return (brange, dnames)
     | Inr dim \<Rightarrow>
         io_bind (io_catch (DimensionName (schs td) dim)) (\<lambda>dname. case dname of
           Inl _ \<Rightarrow> io_return (brange, dnames)
         | Inr dname \<Rightarrow>
             let dnames = dnames[i := dname] in
             io_bind (io_catch (DimensionDomain (schs td) dim)) (\<lambda>domain. case domain of
               Inl _ \<Rightarrow> io_return (brange, dnames)
             | Inr domain \<Rightarrow>
                 (case domain of
                    AnySlice Int64 cs \<Rightarrow>
                      io_bind (io_res (go_index cs 0)) (\<lambda>lo. io_bind (io_res (go_index cs 1)) (\<lambda>hi.
                        domain_loop td d (Suc i) n (brange[2 * i := int64_cell lo, 2 * i + 1 := int64_cell hi]) dnames))
                  | _ \<Rightarrow> domain_loop td d (Suc i) n brange dnames))))"

definition schema_attribute :: "('w, 'h) tiledb \<Rightarrow> nat \<Rightarrow> 'h \<Rightarrow> ('w, string \<times> ATTR_TYPE) io" where
  "schema_attribute td i attr =
     io_bind (AttributeName (schs td) attr) (\<lambda>name.
     io_bind (AttributeType (schs td) attr) (\<lambda>typ.
       case tileDbType2CcTypeLookup typ of
         Some cctype \<Rightarrow> io_return (name, cctype)
       | None \<Rightarrow> io_err (Errorf ''Invalid CC Event Store Type'' [])))"

definition schema_domain :: "('w, 'h) tiledb \<Rightarrow> 'h \<Rightarrow> ('w, int list \<times> string list) io" where
  "schema_domain td schema =
     io_bind (io_catch (SchemaDomain (schs td) schema)) (\<lambda>d. case d of
       Inl _ \<Rightarrow> io_return ([], [])
     | Inr d \<Rightarrow> io_bind (io_catch (NDim (schs td) d)) (\<lambda>ndim. case ndim of
         Inl _ \<Rightarrow> io_return ([], [])
       | Inr ndim \<Rightarrow> domain_loop td d 0 ndim (replicate (ndim * 2) 0) (replicate ndim [])))"

definition getArraySchema :: "('w, 'h) tiledb \<Rightarrow> 'h \<Rightarrow> ('w, ArraySchema) io" where
  "getArraySchema td array =
     io_bind (Schema (schs td) array) (\<lambda>schema.
     io_bind (SchemaType (schs td) schema) (\<lambda>tiledbArrayType.
     io_bind (io_res (getArrayType tiledbArrayType)) (\<lambda>ccArrayType.
     io_bind (SchemaAttributes (schs td) schema) (\<lambda>attributes.
     io_bind (io_each (schema_attribute td) 0 attributes) (\<lambda>attrs.
     io_bind (schema_domain td schema) (\<lambda>(brange, dnames).
       io_return \<lparr>as_AttributeNames = map fst attrs, as_AttributeTypes = map snd attrs, as_Domain = brange,
         as_DomainNames = dnames, as_ArrayType = ccArrayType\<rparr>))))))"

subsection \<open>Reading\<close>

fun op_range_loop :: "int list \<Rightarrow> int list \<Rightarrow> nat \<Rightarrow> int list res" where
  "op_range_loop [] domain i = Ok []"
| "op_range_loop (b # br) domain i =
     res_bind (if b = 0 then go_index domain (int i) else Ok b) (\<lambda>x.
     res_bind (op_range_loop br domain (Suc i)) (\<lambda>obr. Ok (x # obr)))"

definition getOpBufferRange :: "int list \<Rightarrow> int list \<Rightarrow> int list res" where
  "getOpBufferRange br domain = (if br = [] then Ok domain else op_range_loop br domain 0)"

fun cell_size :: "go_kind \<Rightarrow> nat" where
  "cell_size Float32 = 4" | "cell_size Float64 = 8" | "cell_size Uint8 = 1" | "cell_size Int8 = 1"
| "cell_size Int16 = 2" | "cell_size Int32 = 4" | "cell_size Int64 = 8" | "cell_size StringKind = 16"
| "cell_size Bytes = 24" | "cell_size (OtherKind _) = 8"

fun zero_cell :: "go_kind \<Rightarrow> cell" where
  "zero_cell Float32 = CFloat32 0" | "zero_cell Float64 = CFloat64 0" | "zero_cell Uint8 = CUint8 0"
| "zero_cell Int8 = CInt8 0" | "zero_cell Int16 = CInt16 0" | "zero_cell Int32 = CInt32 0"
| "zero_cell Int64 = CInt64 0" | "zero_cell StringKind = CString []" | "zero_cell Bytes = CBytes []"
| "zero_cell (OtherKind k) = COther k []"

text \<open>\<^verbatim>\<open>make([]T, n)\<close>\<close>

definition go_make :: "go_kind \<Rightarrow> 64 word \<Rightarrow> go_any res" where
  "go_make k n = (if unat n * cell_size k > 2 ^ 48 then Panic else Ok (AnySlice k (replicate (unat n) (zero_cell k))))"

definition make_offsets :: "64 word \<Rightarrow> 64 word list res" where
  "make_offsets n = (if unat n * 8 > 2 ^ 48 then Panic else Ok (replicate (unat n) 0))"

fun attr_kind_of :: "ATTR_TYPE \<Rightarrow> go_kind option" where
  "attr_kind_of ATTR_UINT8 = Some Uint8" | "attr_kind_of ATTR_INT8 = Some Int8"
| "attr_kind_of ATTR_INT16 = Some Int16" | "attr_kind_of ATTR_INT32 = Some Int32"
| "attr_kind_of ATTR_INT64 = Some Int64" | "attr_kind_of ATTR_FLOAT32 = Some Float32"
| "attr_kind_of ATTR_FLOAT64 = Some Float64" | "attr_kind_of _ = None"

definition createBuffer ::
    "('w, 'h) tiledb \<Rightarrow> string \<Rightarrow> nat \<Rightarrow> ATTR_TYPE \<Rightarrow> buffer_elements \<Rightarrow> 'h \<Rightarrow> ('w, go_any \<times> 64 word list) io" where
  "createBuffer td attrName i attrType bufferElems query =
     (case bufferElems attrName of (e0, e1, e2) \<Rightarrow>
       if e0 = 0 then
         (case attr_kind_of attrType of
            Some k \<Rightarrow> io_bind (io_res (go_make k e1)) (\<lambda>data. io_return (data, []))
          | None \<Rightarrow> io_return (AnyNil, []))
       else
         io_bind (io_res (make_offsets e0)) (\<lambda>offsets.
         io_bind (io_ignore (SetOffsetsBuffer (qrys td) query attrName i offsets)) (\<lambda>_.
         io_bind (io_res (go_make Uint8 (e0 * e1))) (\<lambda>data. io_return (data, offsets)))))"

definition get_buffer ::
    "('w, 'h) tiledb \<Rightarrow> ArraySchema \<Rightarrow> buffer_elements \<Rightarrow> 'h \<Rightarrow> nat \<Rightarrow> string \<Rightarrow> ('w, go_any \<times> 64 word list) io" where
  "get_buffer td schema bufferElems query i attr =
     io_bind (io_res (GetType schema attr)) (\<lambda>attrtype.
     io_bind (createBuffer td attr i attrtype bufferElems query) (\<lambda>(data, offsets).
     io_bind (SetDataBuffer (qrys td) query attr i data) (\<lambda>_.
     io_bind (if offsets \<noteq> [] then SetOffsetsBuffer (qrys td) query attr i offsets else io_return ()) (\<lambda>_.
       io_return (data, offsets)))))"

definition domain_buffer ::
    "('w, 'h) tiledb \<Rightarrow> nat \<Rightarrow> buffer_elements \<Rightarrow> 'h \<Rightarrow> nat \<Rightarrow> string \<Rightarrow> ('w, go_any) io" where
  "domain_buffer td base bufferElems query i domain =
     io_bind (io_res (go_make Int64 (fst (snd (bufferElems domain))))) (\<lambda>data.
     io_bind (SetDataBuffer (qrys td) query domain (base + i) data) (\<lambda>_. io_return data))"

text \<open>What a buffer holds once the query has run.\<close>

definition filled_or :: "(nat \<Rightarrow> 'a option) \<Rightarrow> nat \<Rightarrow> 'a \<Rightarrow> 'a" where
  "filled_or f i old = (case f i of Some x \<Rightarrow> x | None \<Rightarrow> old)"

definition byte_cells :: "cell list \<Rightarrow> byte list" where
  "byte_cells cs = map (\<lambda>c. case c of CUint8 b \<Rightarrow> b | _ \<Rightarrow> 0) cs"

definition variable_result ::
    "('w, 'h) tiledb \<Rightarrow> 'h \<Rightarrow> nat \<Rightarrow> string \<times> go_any \<times> 64 word list \<Rightarrow> ('w, go_any) io" where
  "variable_result td query i = (\<lambda>(attr, data, offsets).
     if offsets \<noteq> [] then
       (case data of
          AnySlice Uint8 cs \<Rightarrow>
            io_bind (io_catch (ResultBufferElements (qrys td) query)) (\<lambda>elements.
            let (e0, e1, e2) = (case elements of Inr e \<Rightarrow> e attr | Inl _ \<Rightarrow> (0, 0, 0)) in
            io_bind (io_res (handleVariableResults (byte_cells cs) (e0, e1) offsets)) (\<lambda>vr.
              io_return (AnySlice Bytes (map CBytes vr))))
        | _ \<Rightarrow> io_res Panic)
     else io_return data)"

definition GetArray :: "('w, 'h) tiledb \<Rightarrow> 'h TileDbEventStore \<Rightarrow> GetArrayInput \<Rightarrow> ('w, ArrayResult) io" where
  "GetArray td tdb input =
     io_bind (NewArray (objs td) (tdb_context tdb) (tdb_uri tdb @ ''/'' @ ga_DataPath input)) (\<lambda>array.
     io_bind (ArrayOpen (objs td) array TILEDB_READ) (\<lambda>_.
     io_bind (getArraySchema td array) (\<lambda>schema.
     io_bind (NewQuery (qrys td) (tdb_context tdb) array) (\<lambda>query.
     io_bind (NewSubarray (qrys td) array) (\<lambda>subarray.
     io_bind (io_res (getOpBufferRange (ga_BufferRange input) (as_Domain schema))) (\<lambda>br.
     io_bind (SetSubArray (qrys td) subarray br) (\<lambda>_.
     io_bind (SetSubarray (qrys td) query subarray) (\<lambda>_.
     io_bind (SetLayout (qrys td) query (eventStoreOrder2TileDbOrder (ga_SearchOrder input))) (\<lambda>_.
     io_bind (EstimateBufferElements (qrys td) query) (\<lambda>bufferElems.
     io_bind (io_each (get_buffer td schema bufferElems query) 0 (ga_Attrs input)) (\<lambda>buffers.
     io_bind (if as_ArrayType schema = ARRAY_SPARSE
       then io_each (domain_buffer td (length (ga_Attrs input)) bufferElems query) 0 (as_DomainNames schema)
       else io_return []) (\<lambda>domains.
     io_bind (Submit (qrys td) query) (\<lambda>f.
     let buffers = map (\<lambda>(i, attr, data, offsets). (attr, filled_or (filled_data f) i data,
           if offsets = [] then [] else filled_or (filled_offsets f) i offsets))
           (enumerate 0 (zip (ga_Attrs input) buffers));
         domains = map (\<lambda>(i, d). filled_or (filled_data f) (length (ga_Attrs input) + i) d) (enumerate 0 domains) in
     io_bind (io_each (variable_result td query) 0 buffers) (\<lambda>data.
       io_return \<lparr>ar_Range = br, ar_Data = data, ar_Domains = domains, ar_Schema = schema, ar_row = 0,
         ar_Attrs = ga_Attrs input\<rparr>))))))))))))))"

record GetSimpleArrayInput =
  gs_DataPath :: string
  gs_XRange :: "int list"
  gs_YRange :: "int list"
  gs_SearchOrder :: LAYOUT_ORDER

definition simple_get_range :: "GetSimpleArrayInput \<Rightarrow> int list" where
  "simple_get_range input =
     (if length (gs_XRange input) = 2 \<or> length (gs_YRange input) = 2 then
        (if length (gs_YRange input) = 2 then gs_YRange input else [0, 0]) @
        (if length (gs_XRange input) = 2 then gs_XRange input else [0, 0])
      else [])"

definition GetSimpleArray :: "('w, 'h) tiledb \<Rightarrow> 'h TileDbEventStore \<Rightarrow> GetSimpleArrayInput \<Rightarrow> ('w, ArrayResult) io" where
  "GetSimpleArray td tdb input = GetArray td tdb
     \<lparr>ga_Attrs = [defaultAttrName], ga_DataPath = gs_DataPath input, ga_BufferRange = simple_get_range input,
      ga_SearchOrder = gs_SearchOrder input\<rparr>"

subsection \<open>Ranges\<close>

definition whole_range :: "int list \<Rightarrow> int list" where
  "whole_range dims = concat (map (\<lambda>d. [1, d]) dims)"

lemma length_whole_range [simp]: "length (whole_range dims) = 2 * length dims"
  by (induction dims) (simp_all add: whole_range_def)

lemma whole_range_append: "whole_range (xs @ ys) = whole_range xs @ whole_range ys"
  by (simp add: whole_range_def)

text \<open>The range after the first \<open>k\<close> dimensions have been stored.\<close>

definition filled_range :: "int list \<Rightarrow> nat \<Rightarrow> int list" where
  "filled_range dims k = whole_range (take k dims) @ replicate (2 * (length dims - k)) 0"

lemma filled_range_step:
  assumes "k < length dims"
  shows "simple_range_loop dims (2 * int k # is) (filled_range dims k) = simple_range_loop dims is (filled_range dims (Suc k))"
proof -
  have rest: "replicate (2 * (length dims - k)) (0::int) = 0 # 0 # replicate (2 * (length dims - Suc k)) 0"
    using assms by (cases "length dims - k") (auto simp: Suc_diff_Suc)
  have len: "length (whole_range (take k dims)) = 2 * k"
    using assms by simp
  have eq: "filled_range dims k = whole_range (take k dims) @ 0 # 0 # replicate (2 * (length dims - Suc k)) 0"
    unfolding filled_range_def rest ..
  have "go_set (filled_range dims k) (2 * int k) 1 = Ok (whole_range (take k dims) @ 1 # 0 # replicate (2 * (length dims - Suc k)) 0)"
    using len unfolding eq by (simp add: go_set_def go_index_def nat_mult_distrib list_update_append)
  moreover have "go_set (whole_range (take k dims) @ 1 # 0 # replicate (2 * (length dims - Suc k)) 0) (2 * int k + 1) (dims ! k)
      = Ok (filled_range dims (Suc k))"
    using len assms
    by (simp add: go_set_def go_index_def nat_mult_distrib nat_add_distrib list_update_append filled_range_def
        take_Suc_conv_app_nth whole_range_append) (simp add: whole_range_def)
  ultimately show ?thesis
    using assms by (simp add: go_index_def)
qed

lemma simple_range_loop_steps:
  "k \<le> j \<Longrightarrow> j \<le> length dims \<Longrightarrow>
     simple_range_loop dims (map (\<lambda>k. 2 * int k) [k..<j]) (filled_range dims k) = Ok (filled_range dims j)"
proof (induction "j - k" arbitrary: k)
  case (Suc n)
  then show ?case
    using filled_range_step [of k dims] by (simp add: upt_conv_Cons)
qed simp

lemma simple_range_closed:
  assumes "dims \<noteq> []"
  shows "simple_range dims = Ok (filled_range dims (length dims div 2 + 1))"
proof -
  have "length dims div 2 + 1 \<le> length dims"
    using assms by (cases dims) auto
  then show ?thesis
    using simple_range_loop_steps [of 0 "length dims div 2 + 1" dims]
    by (simp add: simple_range_def range_indices_def filled_range_def whole_range_def mult.commute del: upt_Suc)
qed

text \<open>C31. A simple array is written over its whole range exactly when it has one or two dimensions. With
  three or more, the last dimensions keep the range from 0 to 0, which no array has; with none,
  the write panics.\<close>

theorem simple_range_whole:
  "(simple_range dims = Ok (whole_range dims) \<longleftrightarrow> length dims \<in> {1, 2}) \<and>
   (dims = [] \<longrightarrow> simple_range dims = Panic) \<and>
   (length dims > 2 \<longrightarrow> (\<exists>br. simple_range dims = Ok br \<and> drop (2 * length dims - 2) br = [0, 0]))"
proof -
  let ?m = "length dims div 2 + 1"
  have nil: "simple_range [] = Panic"
    by (simp add: simple_range_def range_indices_def go_set_def go_index_def)
  have big: "drop (2 * length dims - 2) (filled_range dims ?m) = [0, 0]" if "length dims > 2"
  proof -
    have m: "?m < length dims"
      using that by simp
    have "k < n \<Longrightarrow> 2 * (n - k) - (2 * n - 2 - 2 * k) = 2 \<and> 2 * k \<le> 2 * n - 2" for k n :: nat
      by arith
    from this [OF m] have "2 * (length dims - ?m) - (2 * length dims - 2 - 2 * ?m) = 2" "2 * ?m \<le> 2 * length dims - 2"
      by blast+
    moreover have "length (whole_range (take ?m dims)) = 2 * ?m"
      using m by simp
    ultimately show ?thesis
      unfolding filled_range_def by (simp only: drop_append drop_all drop_replicate append_Nil) (simp add: numeral_2_eq_2)
  qed
  show ?thesis
  proof (cases "dims = []")
    case False
    then have "whole_range dims = whole_range (butlast dims) @ [1, last dims]"
      by (metis append_butlast_last_id whole_range_append list.simps(8,9) concat.simps append_Nil2 whole_range_def)
    then have "drop (2 * length dims - 2) (whole_range dims) \<noteq> [0, 0]"
      by (simp add: diff_mult_distrib2)
    then have "length dims > 2 \<Longrightarrow> filled_range dims ?m \<noteq> whole_range dims"
      using big by (metis (no_types))
    moreover have "length dims \<in> {1, 2} \<Longrightarrow> filled_range dims ?m = whole_range dims"
      by (auto simp: filled_range_def)
    moreover have "0 < length dims"
      using False by simp
    then have "length dims = 1 \<or> length dims = 2 \<or> length dims > 2"
      by linarith
    ultimately have "filled_range dims ?m = whole_range dims \<longleftrightarrow> length dims \<in> {1, 2}"
      by auto
    then show ?thesis
      using False big simple_range_closed [OF False] by simp
  qed (simp add: nil)
qed

text \<open>A read over two dimensions: a range that is given is the one that is read, one that is not is the whole
  domain, and so is a bound that is zero. When neither is given the domain is read whatever its
  number of dimensions; with one given, a domain of fewer dimensions panics.\<close>

theorem simple_get_range_op:
  "(length (gs_XRange input) \<noteq> 2 \<longrightarrow> length (gs_YRange input) \<noteq> 2 \<longrightarrow>
      getOpBufferRange (simple_get_range input) domain = Ok domain) \<and>
   (domain = [a, b, c, d] \<longrightarrow> length (gs_YRange input) = 2 \<or> length (gs_XRange input) = 2 \<longrightarrow>
      getOpBufferRange (simple_get_range input) domain =
        Ok (map2 (\<lambda>given dom. if given = 0 then dom else given)
          ((if length (gs_YRange input) = 2 then gs_YRange input else [0, 0]) @
           (if length (gs_XRange input) = 2 then gs_XRange input else [0, 0])) domain)) \<and>
   (gs_YRange input = [y0, y1] \<longrightarrow> length (gs_XRange input) \<noteq> 2 \<longrightarrow> length domain = 2 \<longrightarrow>
      getOpBufferRange (simple_get_range input) domain = Panic)"
proof -
  have two: "length xs = 2 \<Longrightarrow> \<exists>x y. xs = [x, y]" for xs :: "int list"
    by (auto simp: numeral_2_eq_2 length_Suc_conv)
  show ?thesis
    using two [of "gs_XRange input"] two [of "gs_YRange input"] two [of domain]
    by (intro conjI impI)
       (auto simp: getOpBufferRange_def simple_get_range_def go_index_def)
qed

subsection \<open>Instances\<close>

theorem simple_range_whole_witness:
  "simple_range [4, 7] = Ok [1, 4, 1, 7] \<and> simple_range [] = Panic \<and>
   (case simple_range [4, 7, 9] of Ok br \<Rightarrow> drop 4 br = [0, 0] | _ \<Rightarrow> False)"
proof (intro conjI)
  show "simple_range [4, 7] = Ok [1, 4, 1, 7]"
    using simple_range_whole [of "[4, 7]"] by (simp add: whole_range_def)
  show "simple_range [] = Panic"
    using simple_range_whole [of "[]"] by simp
  show "case simple_range [4, 7, 9] of Ok br \<Rightarrow> drop 4 br = [0, 0] | _ \<Rightarrow> False"
    using simple_range_whole [of "[4, 7, 9]"] by auto
qed

theorem simple_get_range_op_witness:
  "getOpBufferRange (simple_get_range \<lparr>gs_DataPath = ''p'', gs_XRange = [2, 0], gs_YRange = [], gs_SearchOrder = ROWMAJOR\<rparr>) [1, 4, 1, 7]
     = Ok [1, 4, 2, 7] \<and>
   getOpBufferRange (simple_get_range \<lparr>gs_DataPath = ''p'', gs_XRange = [], gs_YRange = [2, 3], gs_SearchOrder = ROWMAJOR\<rparr>) [1, 4] = Panic"
  using simple_get_range_op [of "\<lparr>gs_DataPath = ''p'', gs_XRange = [2, 0], gs_YRange = [], gs_SearchOrder = ROWMAJOR\<rparr>" "[1, 4, 1, 7]" 1 4 1 7 0 0]
    simple_get_range_op [of "\<lparr>gs_DataPath = ''p'', gs_XRange = [], gs_YRange = [2, 3], gs_SearchOrder = ROWMAJOR\<rparr>" "[1, 4]" 0 0 0 0 2 3]
  by simp

end
