(* ===== verification/TileDb_Metadata.thy ===== *)
theory TileDb_Metadata
  imports TileDb_Store
begin

section \<open>TileDB event store: connection and metadata\<close>

text \<open>
  The rest of \<^verbatim>\<open>tiledb_store.go\<close>: \<open>Connect\<close>, the array that carries the metadata, and the
  metadata operations. A value is put under its key; a list of strings is put as its bytes and its
  offsets under two keys derived from it (the format meets the contract \<open>string_codec\<close>).
\<close>

subsection \<open>Connecting\<close>

definition defaultMetadataPath :: string where
  "defaultMetadataPath = ''/scalars''"

definition createAttributeArray :: "('w, 'h) tiledb \<Rightarrow> 'h TileDbEventStore \<Rightarrow> ('w, unit) io" where
  "createAttributeArray td tdb =
     (let uri = tdb_uri tdb @ defaultMetadataPath; ctx = tdb_context tdb; o' = objs td in
      io_bind (ObjectInvalid o' ctx uri) (\<lambda>absent.
      if \<not> absent then io_return () else
      io_bind (NewDomain o' ctx) (\<lambda>domain.
      io_bind (NewDimension o' ctx ''rows'' TILEDB_INT32 [1, 1] 1) (\<lambda>dim.
      io_bind (AddDimensions o' domain [dim]) (\<lambda>_.
      io_bind (NewArraySchema o' ctx TILEDB_DENSE) (\<lambda>schema.
      io_bind (SetDomain o' schema domain) (\<lambda>_.
      io_bind (SetCellOrder o' schema TILEDB_ROW_MAJOR) (\<lambda>_.
      io_bind (SetTileOrder o' schema TILEDB_ROW_MAJOR) (\<lambda>_.
      io_bind (NewAttribute o' ctx defaultAttrName TILEDB_INT32) (\<lambda>a.
      io_bind (AddAttributes o' schema [a]) (\<lambda>_.
      io_bind (NewArray o' ctx uri) (\<lambda>array.
      io_defer (ArrayClose o' array) (ArrayCreate o' array schema)))))))))))))"

text \<open>\<^verbatim>\<open>^(https?):\/\/(.*)$\<close>: the protocol and what follows, up to no line break.\<close>

definition webProtocol :: "string \<Rightarrow> (string \<times> string) option" where
  "webProtocol s =
     (let rest_ok = (\<lambda>p. map_option (Pair p) (case strip_prefix (p @ ''://'') s of
         Some rest \<Rightarrow> if CHR 0x0A \<in> set rest then None else Some rest | None \<Rightarrow> None)) in
      case rest_ok ''https'' of Some m \<Rightarrow> Some m | None \<Rightarrow> rest_ok ''http'')"

fun config_sets :: "('w, 'h) tiledb \<Rightarrow> 'h \<Rightarrow> (string \<times> string) list \<Rightarrow> ('w, unit) io" where
  "config_sets td config [] = io_return ()"
| "config_sets td config ((k, v) # kvs) =
     io_bind (io_ignore (ConfigSet (objs td) config k v)) (\<lambda>_. config_sets td config kvs)"

definition TileDb_GetSession :: "'h TileDbEventStore \<Rightarrow> 'h" where
  "TileDb_GetSession tdb = tdb_context tdb"

text \<open>\<^verbatim>\<open>strconv.Itoa(5*1024*1024)\<close> is written out.\<close>

definition Connect ::
    "('w, 'h) tiledb \<Rightarrow> cast_fns \<Rightarrow> go_env \<Rightarrow> 's DataStore \<Rightarrow> ('w, 'h TileDbEventStore) io" where
  "Connect td cs env ds =
     io_bind (io_res (GetStringOrFail cs (st_Parameters ds) ''root'')) (\<lambda>root.
     let rootPath = (case root of VString s \<Rightarrow> s | _ \<Rightarrow> []);
         var = (\<lambda>name. getenv env (st_DsProfile ds @ ''_'' @ name));
         endpoint = var ''AWS_ENDPOINT'';
         uri = ''s3://'' @ var ''AWS_S3_BUCKET'' @ ''/'' @ rootPath @ ''/eventdb'' in
     io_bind (NewConfig (objs td)) (\<lambda>config.
     io_bind (config_sets td config
       [(''vfs.s3.region'', var ''AWS_DEFAULT_REGION''),
        (''vfs.s3.aws_access_key_id'', var ''AWS_ACCESS_KEY_ID''),
        (''vfs.s3.aws_secret_access_key'', var ''AWS_SECRET_ACCESS_KEY''),
        (''vfs.s3.multipart_part_size'', ''5242880''),
        (''vfs.s3.max_parallel_ops'', ''2'')]) (\<lambda>_.
     io_bind (if endpoint \<noteq> [] then
         (case webProtocol endpoint of
            Some (protocol, hostAndPath) \<Rightarrow> config_sets td config
              [(''vfs.s3.scheme'', protocol), (''vfs.s3.endpoint_override'', hostAndPath),
               (''vfs.s3.use_virtual_addressing'', ''false'')]
          | None \<Rightarrow> io_res Exit)
       else io_return ()) (\<lambda>_.
     io_bind (NewContext (objs td) config) (\<lambda>context.
     let tdb = \<lparr>tdb_context = context, tdb_uri = uri\<rparr> in
     io_bind (createAttributeArray td tdb) (\<lambda>_. io_return tdb))))))"

definition NewTiledbEventStore ::
    "('w, 'h) tiledb \<Rightarrow> cast_fns \<Rightarrow> go_env \<Rightarrow> string \<Rightarrow> string \<Rightarrow> ('w, 'h TileDbEventStore) io" where
  "NewTiledbEventStore td cs env eventPath profile = Connect td cs env
     \<lparr>st_Name = [], st_ID = None, st_StoreType = [], st_DsProfile = profile,
      st_Parameters = [(''root'', VString eventPath)], st_Session = (None :: unit option)\<rparr>"

subsection \<open>Lists of strings as metadata\<close>

text \<open>The same loop as for a column of strings; the offsets are \<^verbatim>\<open>int64\<close>.\<close>

definition computeStringSliceMetadataComponents :: "string list \<Rightarrow> byte list \<times> 64 word list" where
  "computeStringSliceMetadataComponents vals = concat_strings 0 vals"

definition string_slice_values :: "byte list \<Rightarrow> 64 word list \<Rightarrow> string list res" where
  "string_slice_values data offsets =
     (let ends = offsets @ [of_nat (length data)] in
      res_map (\<lambda>i. res_bind (go_index ends (int i)) (\<lambda>lo. res_bind (go_index ends (int (i + 1))) (\<lambda>hi.
        res_bind (go_slice data (sint lo) (sint hi)) (\<lambda>bs. Ok (string_of_bytes bs))))) [0..<length offsets])"

definition offsetkey :: "string \<Rightarrow> string" where
  "offsetkey key = ''__strslc_'' @ ''_offset_'' @ key"

definition datakey :: "string \<Rightarrow> string" where
  "datakey key = ''__strslc_'' @ ''_data_'' @ key"

subsection \<open>Metadata operations\<close>

record ('w, 'h) tiledb_metadata =
  ArrayPutMetadata :: "'h \<Rightarrow> string \<Rightarrow> go_any \<Rightarrow> ('w, unit) io"
  ArrayGetMetadata :: "'h \<Rightarrow> string \<Rightarrow> ('w, go_any) io"
  ArrayDeleteMetadata :: "'h \<Rightarrow> string \<Rightarrow> ('w, unit) io"

text \<open>Every operation opens the metadata array and closes it when it returns.\<close>

definition with_metadata ::
    "('w, 'h) tiledb \<Rightarrow> 'h TileDbEventStore \<Rightarrow> tdb_mode \<Rightarrow> ('h \<Rightarrow> ('w, 'a) io) \<Rightarrow> ('w, 'a) io" where
  "with_metadata td tdb mode body =
     io_bind (NewArray (objs td) (tdb_context tdb) (tdb_uri tdb @ defaultMetadataPath)) (\<lambda>array.
     io_bind (ArrayOpen (objs td) array mode) (\<lambda>_.
       io_defer (ArrayClose (objs td) array) (body array)))"

definition put_value :: "('w, 'h) tiledb_metadata \<Rightarrow> string \<Rightarrow> go_any \<Rightarrow> 'h \<Rightarrow> ('w, unit) io" where
  "put_value md key val array = (case val of
       AnySlice StringKind cs \<Rightarrow>
         (let (data, offsets) = computeStringSliceMetadataComponents (map value_String cs) in
          io_bind (ArrayPutMetadata md array (datakey key) (AnySlice Uint8 (map CUint8 data))) (\<lambda>_.
            ArrayPutMetadata md array (offsetkey key) (AnySlice Int64 (map CInt64 offsets))))
     | _ \<Rightarrow> ArrayPutMetadata md array key val)"

definition PutMetadata ::
    "('w, 'h) tiledb \<Rightarrow> ('w, 'h) tiledb_metadata \<Rightarrow> 'h TileDbEventStore \<Rightarrow> string \<Rightarrow> go_any \<Rightarrow> ('w, unit) io" where
  "PutMetadata td md tdb key val = with_metadata td tdb TILEDB_WRITE (put_value md key val)"

text \<open>The type of a value, nil having none; a type that is not a pointer is \<open>NotPointer\<close>.\<close>

datatype go_type = SliceOf go_kind | TypeOf go_kind

datatype dest_type = NotPointer | PointerTo go_type

definition type_of_any :: "go_any \<Rightarrow> go_type option" where
  "type_of_any v = (case v of AnyNil \<Rightarrow> None | AnySlice k _ \<Rightarrow> Some (SliceOf k) | AnyCell c \<Rightarrow> Some (TypeOf (kind_of c)))"

definition type_Name :: "go_type \<Rightarrow> string" where
  "type_Name t = (case t of SliceOf _ \<Rightarrow> [] | TypeOf k \<Rightarrow> kind_string k)"

text \<open>The value that is stored through \<^verbatim>\<open>dest\<close>.\<close>

definition get_plain :: "go_any \<Rightarrow> go_type \<Rightarrow> go_any res" where
  "get_plain val destType = (case type_of_any val of
     None \<Rightarrow> Panic
   | Some valType \<Rightarrow>
       if destType \<noteq> valType
       then Err (Errorf ''dest type mismatch. expected %s got %s'' [type_Name destType, type_Name valType])
       else Ok val)"

definition get_strings :: "('w, 'h) tiledb_metadata \<Rightarrow> string \<Rightarrow> 'h \<Rightarrow> ('w, go_any) io" where
  "get_strings md key array =
     io_bind (ArrayGetMetadata md array (datakey key)) (\<lambda>dataval.
     io_bind (ArrayGetMetadata md array (offsetkey key)) (\<lambda>offsetval.
       case (dataval, offsetval) of
         (AnySlice Uint8 ds, AnySlice Int64 os) \<Rightarrow>
           io_bind (io_res (string_slice_values (byte_cells ds) (map (word_of_int \<circ> int64_cell) os))) (\<lambda>metadata.
             io_return (AnySlice StringKind (map CString metadata)))
       | _ \<Rightarrow> io_err (Errorf ''invalid offset or data types for %s'' [key])))"

definition get_value :: "('w, 'h) tiledb_metadata \<Rightarrow> string \<Rightarrow> dest_type \<Rightarrow> 'h \<Rightarrow> ('w, go_any) io" where
  "get_value md key dest array = (case dest of
     NotPointer \<Rightarrow> io_err (Errorf ''dest type must be a pointer'' [])
   | PointerTo destType \<Rightarrow>
       if destType = SliceOf StringKind then get_strings md key array
       else io_bind (ArrayGetMetadata md array key) (\<lambda>val. io_res (get_plain val destType)))"

definition GetMetadata ::
    "('w, 'h) tiledb \<Rightarrow> ('w, 'h) tiledb_metadata \<Rightarrow> 'h TileDbEventStore \<Rightarrow> string \<Rightarrow> dest_type \<Rightarrow> ('w, go_any) io" where
  "GetMetadata td md tdb key dest = with_metadata td tdb TILEDB_READ (get_value md key dest)"

text \<open>\<^verbatim>\<open>GetMetadataOld\<close> reads the value before it looks at the type of the destination.\<close>

definition GetMetadataOld ::
    "('w, 'h) tiledb \<Rightarrow> ('w, 'h) tiledb_metadata \<Rightarrow> 'h TileDbEventStore \<Rightarrow> string \<Rightarrow> dest_type \<Rightarrow> ('w, go_any) io" where
  "GetMetadataOld td md tdb key dest = with_metadata td tdb TILEDB_READ (\<lambda>array.
     io_bind (ArrayGetMetadata md array key) (\<lambda>val.
       case dest of
         NotPointer \<Rightarrow> io_err (Errorf ''dest type must be a pointer'' [])
       | PointerTo destType \<Rightarrow> io_res (get_plain val destType)))"

definition DeleteMetadata ::
    "('w, 'h) tiledb \<Rightarrow> ('w, 'h) tiledb_metadata \<Rightarrow> 'h TileDbEventStore \<Rightarrow> string \<Rightarrow> ('w, unit) io" where
  "DeleteMetadata td md tdb key = with_metadata td tdb TILEDB_WRITE (\<lambda>array. ArrayDeleteMetadata md array key)"

subsection \<open>The format of a list of strings\<close>

lemma sint_of_nat_small: "n < 2 ^ 63 \<Longrightarrow> sint (of_nat n :: 64 word) = int n"
  by (simp add: sint_uint signed_take_bit_int_eq_self uint_nat unat_of_nat_small)

lemma string_slice_values_ok:
  assumes "total_length ss \<le> 2 ^ 48"
  shows "string_slice_values (bytes_of (concat ss)) (map of_nat (starts ss)) = Ok ss"
proof -
  let ?ends = "map of_nat (starts ss) @ [of_nat (total_length ss)] :: 64 word list"
  have ends: "j \<le> length ss \<Longrightarrow> go_index ?ends (int j) = Ok (of_nat (start_at ss j))" for j
    by (rule go_index_ends)
  have slice: "res_bind (go_index ?ends (int i)) (\<lambda>lo. res_bind (go_index ?ends (int (i + 1))) (\<lambda>hi.
      res_bind (go_slice (bytes_of (concat ss)) (sint lo) (sint hi)) (\<lambda>bs. Ok (string_of_bytes bs)))) = Ok (ss ! i)"
    if i: "i < length ss" for i
  proof -
    have b: "start_at ss i + length (ss ! i) \<le> total_length ss" "start_at ss (Suc i) = start_at ss i + length (ss ! i)"
      using start_at_total [of "Suc i" ss] i start_at_Suc [OF i] by simp_all
    then have s: "sint (of_nat (start_at ss i) :: 64 word) = int (start_at ss i)"
      "sint (of_nat (start_at ss (Suc i)) :: 64 word) = int (start_at ss (Suc i))"
      using assms by (intro sint_of_nat_small; simp)+
    have "go_slice (bytes_of (concat ss)) (int (start_at ss i)) (int (start_at ss (Suc i))) = Ok (bytes_of (ss ! i))"
      using go_slice_nat [of "start_at ss i" "start_at ss (Suc i)" "bytes_of (concat ss)"] b string_at_start [OF i]
      by (simp add: length_concat_total bytes_of_def take_map drop_map)
    then show ?thesis
      using i ends [of i] ends [of "Suc i"] by (simp add: s)
  qed
  have "res_map (\<lambda>i. res_bind (go_index ?ends (int i)) (\<lambda>lo. res_bind (go_index ?ends (int (i + 1))) (\<lambda>hi.
      res_bind (go_slice (bytes_of (concat ss)) (sint lo) (sint hi)) (\<lambda>bs. Ok (string_of_bytes bs))))) [0..<length ss]
    = Ok (map ((!) ss) [0..<length ss])"
    by (rule res_map_pure) (rule slice, simp)
  then show ?thesis
    by (simp add: string_slice_values_def Let_def length_concat_total map_nth)
qed

interpretation metadata_codec: string_codec computeStringSliceMetadataComponents
  "\<lambda>(data, offsets). string_slice_values data offsets" fits_memory
proof
  fix ss assume "fits_memory ss"
  then show "(case computeStringSliceMetadataComponents ss of (data, offsets) \<Rightarrow> string_slice_values data offsets) = Ok ss"
    by (simp add: fits_memory_def computeStringSliceMetadataComponents_def concat_strings_eq string_slice_values_ok)
qed

subsection \<open>What is put is got\<close>

text \<open>
  The documented behaviour of an array's metadata: a map from keys to values, \<open>meta\<close>, that
  opening and closing leave alone, in a service that is up. \<open>ok\<close> holds of the handles of the
  metadata array.
\<close>

definition metadata_laws ::
    "('w, 'h) tiledb \<Rightarrow> ('w, 'h) tiledb_metadata \<Rightarrow> 'h TileDbEventStore \<Rightarrow> ('h \<Rightarrow> bool) \<Rightarrow>
     ('w world \<Rightarrow> string \<Rightarrow> go_any option) \<Rightarrow> bool" where
  "metadata_laws td md tdb ok meta \<longleftrightarrow>
     (\<forall>w. does (NewArray (objs td) (tdb_context tdb) (tdb_uri tdb @ defaultMetadataPath)) w (\<lambda>h w'. ok h \<and> meta w' = meta w)) \<and>
     (\<forall>h mode w. ok h \<longrightarrow> does (ArrayOpen (objs td) h mode) w (\<lambda>_ w'. meta w' = meta w)) \<and>
     (\<forall>h w. ok h \<longrightarrow> does (ArrayClose (objs td) h) w (\<lambda>_ w'. meta w' = meta w)) \<and>
     (\<forall>h k v w. ok h \<longrightarrow> does (ArrayPutMetadata md h k v) w (\<lambda>_ w'. meta w' = (meta w)(k \<mapsto> v))) \<and>
     (\<forall>h k v w. ok h \<longrightarrow> meta w k = Some v \<longrightarrow> does (ArrayGetMetadata md h k) w (\<lambda>x w'. x = v \<and> meta w' = meta w)) \<and>
     (\<forall>h k w. ok h \<longrightarrow> does (ArrayDeleteMetadata md h k) w (\<lambda>_ w'. meta w' = (meta w)(k := None)))"

lemma metadata_lawsD:
  assumes "metadata_laws td md tdb ok meta"
  shows "does (NewArray (objs td) (tdb_context tdb) (tdb_uri tdb @ defaultMetadataPath)) w (\<lambda>h w'. ok h \<and> meta w' = meta w)"
    and "ok h \<Longrightarrow> does (ArrayOpen (objs td) h mode) w (\<lambda>_ w'. meta w' = meta w)"
    and "ok h \<Longrightarrow> does (ArrayClose (objs td) h) w (\<lambda>_ w'. meta w' = meta w)"
    and "ok h \<Longrightarrow> does (ArrayPutMetadata md h k v) w (\<lambda>_ w'. meta w' = (meta w)(k \<mapsto> v))"
    and "ok h \<Longrightarrow> meta w k = Some v \<Longrightarrow> does (ArrayGetMetadata md h k) w (\<lambda>x w'. x = v \<and> meta w' = meta w)"
    and "ok h \<Longrightarrow> does (ArrayDeleteMetadata md h k) w (\<lambda>_ w'. meta w' = (meta w)(k := None))"
  using assms unfolding metadata_laws_def by blast+

lemma does_with_metadata:
  assumes laws: "metadata_laws td md tdb ok meta"
    and body: "\<And>h w1. ok h \<Longrightarrow> meta w1 = meta w \<Longrightarrow> does (body h) w1 (\<lambda>x w2. Q x (meta w2))"
  shows "does (with_metadata td tdb mode body) w (\<lambda>x w3. Q x (meta w3))"
  unfolding with_metadata_def
proof (rule does_bind, rule does_mono [OF metadata_lawsD(1) [OF laws]], elim conjE)
  fix h w1 assume h: "ok h" "meta w1 = meta w"
  show "does (io_bind (ArrayOpen (objs td) h mode) (\<lambda>_. io_defer (ArrayClose (objs td) h) (body h))) w1 (\<lambda>x w3. Q x (meta w3))"
  proof (rule does_bind, rule does_mono [OF metadata_lawsD(2) [OF laws h(1)]])
    fix w2 assume "meta w2 = meta w1"
    then have "does (body h) w2 (\<lambda>x w3. Q x (meta w3))"
      using body [OF h(1)] h(2) by simp
    then show "does (io_defer (ArrayClose (objs td) h) (body h)) w2 (\<lambda>x w3. Q x (meta w3))"
      by (intro does_defer) (auto elim!: does_mono intro: does_mono [OF metadata_lawsD(3) [OF laws h(1)]])
  qed
qed

abbreviation strings_any :: "string list \<Rightarrow> go_any" where
  "strings_any ss \<equiv> AnySlice StringKind (map CString ss)"

text \<open>The two entries a list of strings is kept in.\<close>

definition string_entries :: "string \<Rightarrow> string list \<Rightarrow> (string \<Rightarrow> go_any option) \<Rightarrow> bool" where
  "string_entries key ss m \<longleftrightarrow>
     m (datakey key) = Some (AnySlice Uint8 (map CUint8 (bytes_of (concat ss)))) \<and>
     m (offsetkey key) = Some (AnySlice Int64 (map (\<lambda>n. CInt64 (of_nat n)) (starts ss)))"

lemma length_keys: "length (datakey key) = length key + 15" "length (offsetkey key) = length key + 17"
  by (simp_all add: datakey_def offsetkey_def)

lemma keys_differ: "datakey key \<noteq> offsetkey key'" "key \<noteq> datakey key" "key \<noteq> offsetkey key"
proof -
  show "datakey key \<noteq> offsetkey key'"
    by (simp add: datakey_def offsetkey_def)
  show "key \<noteq> datakey key" "key \<noteq> offsetkey key"
    using length_keys [of key] by (metis add_eq_self_zero zero_neq_numeral)+
qed

lemma value_String_CString [simp]: "value_String (CString s) = s"
  by (simp add: value_String_def)

lemma PutMetadata_strings:
  assumes "metadata_laws td md tdb ok meta"
  shows "does (PutMetadata td md tdb key (strings_any ss)) w (\<lambda>_ w1. string_entries key ss (meta w1) \<and>
    (\<forall>k. k \<noteq> datakey key \<longrightarrow> k \<noteq> offsetkey key \<longrightarrow> meta w1 k = meta w k))"
  unfolding PutMetadata_def
proof (rule does_with_metadata [OF assms])
  fix h w1 assume h: "ok h" "meta w1 = meta w"
  have vs: "map (value_String \<circ> CString) ss = ss"
    by (simp add: map_idI)
  show "does (put_value md key (strings_any ss) h) w1
    (\<lambda>x w2. string_entries key ss (meta w2) \<and> (\<forall>k. k \<noteq> datakey key \<longrightarrow> k \<noteq> offsetkey key \<longrightarrow> meta w2 k = meta w k))"
    using h keys_differ(1) [of key key]
    by (auto simp: put_value_def computeStringSliceMetadataComponents_def concat_strings_eq vs does_bind_iff string_entries_def comp_def
        intro!: does_mono [OF metadata_lawsD(4) [OF assms h(1)]])
qed

lemma GetMetadata_strings:
  assumes "metadata_laws td md tdb ok meta" and "fits_memory ss" and "string_entries key ss (meta w)"
  shows "does (GetMetadata td md tdb key (PointerTo (SliceOf StringKind))) w (\<lambda>v w1. v = strings_any ss \<and> meta w1 = meta w)"
  unfolding GetMetadata_def
proof (rule does_with_metadata [OF assms(1)])
  fix h w1 assume h: "ok h" "meta w1 = meta w"
  let ?data = "AnySlice Uint8 (map CUint8 (bytes_of (concat ss)))"
    and ?offs = "AnySlice Int64 (map (\<lambda>n. CInt64 (of_nat n)) (starts ss))"
  have bytes: "byte_cells (map CUint8 bs) = bs" for bs
    by (simp add: byte_cells_def comp_def)
  have offs: "map (word_of_int \<circ> int64_cell) (map (\<lambda>n. CInt64 (of_nat n)) xs) = (map of_nat xs :: 64 word list)" for xs
    by (simp add: int64_cell_def comp_def scast_id)
  have vals: "string_slice_values (byte_cells (map CUint8 (bytes_of (concat ss))))
      (map (word_of_int \<circ> int64_cell) (map (\<lambda>n. CInt64 (of_nat n)) (starts ss))) = Ok ss"
    unfolding bytes offs using string_slice_values_ok assms(2) by (simp add: fits_memory_def)
  have get: "does (ArrayGetMetadata md h k) w2 (\<lambda>x w3. x = v \<and> meta w3 = meta w)"
    if "meta w2 = meta w" "meta w k = Some v" for w2 k v
    using metadata_lawsD(5) [OF assms(1) h(1), of w2 k v] that by simp
  have d: "does (ArrayGetMetadata md h (datakey key)) w1 (\<lambda>x w2. x = ?data \<and> meta w2 = meta w)"
    "\<And>w2. meta w2 = meta w \<Longrightarrow> does (ArrayGetMetadata md h (offsetkey key)) w2 (\<lambda>x w3. x = ?offs \<and> meta w3 = meta w)"
    using assms(3) h(2) by (auto simp: string_entries_def intro!: get)
  show "does (get_value md key (PointerTo (SliceOf StringKind)) h) w1
    (\<lambda>v w2. v = strings_any ss \<and> meta w2 = meta w)"
    by (simp add: get_value_def get_strings_def does_bind_iff, rule does_mono [OF d(1)], clarsimp simp del: map_map, rule does_mono [OF d(2)])
       (auto simp: vals does_bind_iff simp del: map_map intro!: does_res)
qed

lemma put_value_plain:
  "type_of_any v = Some t \<Longrightarrow> t \<noteq> SliceOf StringKind \<Longrightarrow> put_value md key v h = ArrayPutMetadata md h key v"
  by (auto simp: put_value_def type_of_any_def split: go_any.splits go_kind.splits)

lemma PutMetadata_plain:
  assumes "metadata_laws td md tdb ok meta" and "type_of_any v = Some t" and "t \<noteq> SliceOf StringKind"
  shows "does (PutMetadata td md tdb key v) w (\<lambda>_ w1. meta w1 = (meta w)(key \<mapsto> v))"
  unfolding PutMetadata_def
proof (rule does_with_metadata [OF assms(1)])
  fix h w1 assume "ok h" "meta w1 = meta w"
  then show "does (put_value md key v h) w1 (\<lambda>_ w2. meta w2 = (meta w)(key \<mapsto> v))"
    using metadata_lawsD(4) [OF assms(1), of h key v w1] by (simp add: put_value_plain [OF assms(2,3)])
qed

lemma GetMetadata_plain:
  assumes "metadata_laws td md tdb ok meta" and "type_of_any v = Some t" and "t \<noteq> SliceOf StringKind"
    and "meta w key = Some v"
  shows "does (GetMetadata td md tdb key (PointerTo t)) w (\<lambda>x w1. x = v \<and> meta w1 = meta w)"
  unfolding GetMetadata_def
proof (rule does_with_metadata [OF assms(1)])
  fix h w1 assume h: "ok h" "meta w1 = meta w"
  then have "does (ArrayGetMetadata md h key) w1 (\<lambda>x w2. x = v \<and> meta w2 = meta w)"
    using metadata_lawsD(5) [OF assms(1) h(1), of w1 key v] assms(4) by simp
  then show "does (get_value md key (PointerTo t) h) w1 (\<lambda>x w2. x = v \<and> meta w2 = meta w)"
    using assms(2,3) by (auto simp: get_value_def does_bind_iff get_plain_def intro!: does_res elim!: does_mono)
qed



subsection \<open>An instance\<close>

text \<open>A metadata array in memory; the other functions of the package are not called.\<close>

definition stub :: "('w, 'a) io" where
  "stub = io_err (External ''not used'')"

definition mem_objects :: "((string \<times> go_any) list, unit) tiledb_objects" where
  "mem_objects = \<lparr>NewConfig = stub, ConfigSet = \<lambda>_ _ _. stub, NewContext = \<lambda>_. stub, ObjectInvalid = \<lambda>_ _. stub,
     NewDomain = \<lambda>_. stub, NewStringDimension = \<lambda>_ _. stub, NewDimension = \<lambda>_ _ _ _ _. stub, AddDimensions = \<lambda>_ _. stub,
     NewAttribute = \<lambda>_ _ _. stub, SetCellValVar = \<lambda>_. stub, NewArraySchema = \<lambda>_ _. stub, SetDomain = \<lambda>_ _. stub,
     AddAttributes = \<lambda>_ _. stub, SetCellOrder = \<lambda>_ _. stub, SetTileOrder = \<lambda>_ _. stub, NewArray = \<lambda>_ _. io_return (),
     ArrayCreate = \<lambda>_ _. stub, ArrayOpen = \<lambda>_ _. io_return (), ArrayClose = \<lambda>_. io_return ()\<rparr>"

definition mem_schemas :: "('w, 'h) tiledb_schemas" where
  "mem_schemas = \<lparr>Schema = \<lambda>_. stub, SchemaType = \<lambda>_. stub, SchemaAttributes = \<lambda>_. stub, AttributeName = \<lambda>_. stub,
     AttributeType = \<lambda>_. stub, SchemaDomain = \<lambda>_. stub, NDim = \<lambda>_. stub, DimensionFromIndex = \<lambda>_ _. stub,
     DimensionName = \<lambda>_. stub, DimensionDomain = \<lambda>_. stub\<rparr>"

definition mem_queries :: "('w, 'h) tiledb_queries" where
  "mem_queries = \<lparr>NewQuery = \<lambda>_ _. stub, SetLayout = \<lambda>_ _. stub, NewSubarray = \<lambda>_. stub, SetSubArray = \<lambda>_ _. stub,
     SetSubarray = \<lambda>_ _. stub, SetDataBuffer = \<lambda>_ _ _ _. stub, SetOffsetsBuffer = \<lambda>_ _ _ _. stub,
     EstimateBufferElements = \<lambda>_. stub, Submit = \<lambda>_. stub, ResultBufferElements = \<lambda>_. stub\<rparr>"

definition mem_tiledb :: "((string \<times> go_any) list, unit) tiledb" where
  "mem_tiledb = \<lparr>objs = mem_objects, schs = mem_schemas, qrys = mem_queries\<rparr>"

definition mem_metadata :: "((string \<times> go_any) list, unit) tiledb_metadata" where
  "mem_metadata =
     \<lparr>ArrayPutMetadata = \<lambda>_ k v w. Some (Ok (), w \<lparr>remote := AList.update k v (remote w)\<rparr>),
      ArrayGetMetadata = \<lambda>_ k w. Some (case map_of (remote w) k of Some v \<Rightarrow> Ok v | None \<Rightarrow> Err (External ''no metadata''), w),
      ArrayDeleteMetadata = \<lambda>_ k w. Some (Ok (), w \<lparr>remote := AList.delete k (remote w)\<rparr>)\<rparr>"

definition mem_tdb :: "unit TileDbEventStore" where
  "mem_tdb = \<lparr>tdb_context = (), tdb_uri = ''s3://b/eventdb''\<rparr>"

lemma mem_metadata_laws: "metadata_laws mem_tiledb mem_metadata mem_tdb (\<lambda>_. True) (\<lambda>w. map_of (remote w))"
  by (simp add: metadata_laws_def mem_tiledb_def mem_objects_def mem_metadata_def does_def io_return_def
      update_conv' delete_conv')

definition no_metadata :: "(string \<times> go_any) list world" where
  "no_metadata = \<lparr>disk = \<lparr>fs_files = [], fs_dirs = []\<rparr>, remote = []\<rparr>"



end
