(* ===== verification/Dense_Arrays.thy ===== *)
theory Dense_Arrays
  imports Event_Store
begin

section \<open>Dense arrays\<close>

text \<open>
  The contents of a dense array as a client of \<^verbatim>\<open>event_store.go\<close> sees them: columns of cells or strings
  in row-major order, and the box of a column that a range of every dimension selects.
\<close>

subsection \<open>Columns\<close>

text \<open>A column of an array: cells of one kind, or strings; how it is written and how it is read.\<close>

datatype array_column = Cells go_kind "cell list" | Strings "string list"

fun column_buffer :: "string \<times> array_column \<Rightarrow> PutArrayBuffer" where
  "column_buffer (name, Cells k cs) = \<lparr>pb_AttrName = name, pb_Buffer = AnySlice k cs, pb_Offsets = None\<rparr>"
| "column_buffer (name, Strings ss) = \<lparr>pb_AttrName = name,
     pb_Buffer = AnySlice Uint8 (map CUint8 (bytes_of (concat ss))), pb_Offsets = Some (map of_nat (starts ss))\<rparr>"

fun column_read :: "array_column \<Rightarrow> go_any" where
  "column_read (Cells k cs) = AnySlice k cs"
| "column_read (Strings ss) = AnySlice Bytes (map (\<lambda>s. CBytes (bytes_of s)) ss)"

text \<open>A column of \<open>n\<close> values that an attribute can hold and that a read can allocate buffers for.\<close>

fun column_fits :: "nat \<Rightarrow> ATTR_TYPE \<Rightarrow> array_column \<Rightarrow> bool" where
  "column_fits n t (Cells k cs) \<longleftrightarrow> length cs = n \<and> list_all (\<lambda>c. kind_of c = k) cs \<and> k \<noteq> StringKind \<and>
     Golang2AttrTypeMap k = Some t \<and> n * 8 \<le> 2 ^ 48"
| "column_fits n t (Strings ss) \<longleftrightarrow> length ss = n \<and> t = ATTR_STRING \<and> n * 8 \<le> 2 ^ 48 \<and>
     n * length (concat ss) \<le> 2 ^ 48"

definition columns_fit :: "nat \<Rightarrow> ArrayAttribute list \<Rightarrow> (string \<times> array_column) list \<Rightarrow> bool" where
  "columns_fit n attrs cols \<longleftrightarrow> n > 0 \<and> attrs \<noteq> [] \<and> distinct (map aa_Name attrs) \<and>
     list_all2 (\<lambda>a (name, c). name = aa_Name a \<and> column_fits n (aa_DataType a) c) attrs cols"

definition fixed_size :: "array_column \<Rightarrow> bool" where
  "fixed_size c = (case c of Cells k cs \<Rightarrow> True | Strings ss \<Rightarrow> False)"

subsection \<open>Boxes\<close>

text \<open>
  The elements of a row-major array of sizes \<open>ns\<close> whose i-th index is in the i-th half-open range,
  counted from zero, in row-major order.
\<close>

fun box :: "nat list \<Rightarrow> (nat \<times> nat) list \<Rightarrow> 'a list \<Rightarrow> 'a list" where
  "box [] [] xs = xs"
| "box (n # ns) ((lo, hi) # rs) xs =
     concat (map (\<lambda>i. box ns rs (take (prod_list ns) (drop (i * prod_list ns) xs))) [lo..<hi])"
| "box ns rs xs = []"

definition box_ok :: "nat list \<Rightarrow> (nat \<times> nat) list \<Rightarrow> bool" where
  "box_ok ns rs \<longleftrightarrow> list_all2 (\<lambda>n (lo, hi). lo < hi \<and> hi \<le> n) ns rs"

definition whole :: "nat list \<Rightarrow> (nat \<times> nat) list" where
  "whole ns = map (\<lambda>n. (0, n)) ns"

definition box_size :: "(nat \<times> nat) list \<Rightarrow> nat" where
  "box_size rs = prod_list (map (\<lambda>(lo, hi). hi - lo) rs)"

text \<open>A box as the store writes it: inclusive ranges counted from one, one after the other.\<close>

definition range_ints :: "(nat \<times> nat) list \<Rightarrow> int list" where
  "range_ints rs = concat (map (\<lambda>(lo, hi). [int lo + 1, int hi]) rs)"

text \<open>The range of a read: none is the whole array, and a bound that is zero is that of the array.\<close>

definition asks_for :: "nat list \<Rightarrow> int list \<Rightarrow> (nat \<times> nat) list \<Rightarrow> bool" where
  "asks_for ns br rs \<longleftrightarrow> br = [] \<and> rs = whole ns \<or> length br = 2 * length ns \<and>
     map2 (\<lambda>given dim. if given = 0 then dim else given) br (range_ints (whole ns)) = range_ints rs"

fun column_box :: "nat list \<Rightarrow> (nat \<times> nat) list \<Rightarrow> array_column \<Rightarrow> array_column" where
  "column_box ns rs (Cells k cs) = Cells k (box ns rs cs)"
| "column_box ns rs (Strings ss) = Strings (box ns rs ss)"

lemma box_ok_simps [simp]:
  "box_ok [] rs \<longleftrightarrow> rs = []"
  "box_ok (n # ns) (r # rs) \<longleftrightarrow> fst r < snd r \<and> snd r \<le> n \<and> box_ok ns rs"
  "box_ok (n # ns) [] \<longleftrightarrow> False"
  by (auto simp: box_ok_def split_beta)

lemma box_ok_Cons: "box_ok (n # ns) rs \<longleftrightarrow> (\<exists>lo hi rs'. rs = (lo, hi) # rs' \<and> lo < hi \<and> hi \<le> n \<and> box_ok ns rs')"
  by (cases rs) auto

lemma box_size_simps [simp]: "box_size [] = 1" "box_size (r # rs) = (snd r - fst r) * box_size rs"
  by (simp_all add: box_size_def split_beta)

lemma whole_simps [simp]: "whole [] = []" "whole (n # ns) = (0, n) # whole ns" "box_size (whole ns) = prod_list ns"
  by (simp_all add: whole_def box_size_def comp_def)

lemma range_ints_simps [simp]:
  "range_ints [] = []" "range_ints (r # rs) = [int (fst r) + 1, int (snd r)] @ range_ints rs"
  by (simp_all add: range_ints_def split_beta)

lemma length_range_ints [simp]: "length (range_ints rs) = 2 * length rs"
  by (simp add: range_ints_def length_concat comp_def split_beta sum_list_triv)

lemma length_whole [simp]: "length (whole ns) = length ns"
  by (simp add: whole_def)

lemma whole_ok: "list_all (\<lambda>n. 0 < n) ns \<Longrightarrow> box_ok ns (whole ns)"
  by (induction ns) auto

lemma box_ok_positive: "box_ok ns rs \<Longrightarrow> list_all (\<lambda>n. 0 < n) ns"
  by (induction ns arbitrary: rs) (auto simp: box_ok_Cons)

lemma box_size_bounds: "box_ok ns rs \<Longrightarrow> 0 < box_size rs \<and> box_size rs \<le> prod_list ns"
proof (induction ns arbitrary: rs)
  case (Cons n ns)
  then obtain lo hi rs' where rs: "rs = (lo, hi) # rs'" "lo < hi" "hi \<le> n" "box_ok ns rs'"
    by (auto simp: box_ok_Cons)
  then show ?case
    using Cons.IH [of rs'] by (auto intro: mult_le_mono)
qed simp

lemma prod_list_positive: "0 < prod_list (ns :: nat list) \<longleftrightarrow> list_all (\<lambda>n. 0 < n) ns"
  by (induction ns) auto

lemma prod_list_ge: "n \<in> set ns \<Longrightarrow> list_all (\<lambda>n. 0 < n) ns \<Longrightarrow> n \<le> prod_list (ns :: nat list)"
proof (induction ns)
  case (Cons m ns)
  then have "0 < m" "0 < prod_list ns" "n = m \<or> n \<le> prod_list ns"
    by (auto simp: prod_list_positive)
  then show ?case
    using mult_le_mono [of 1 m n "prod_list ns"] mult_le_mono2 [of 1 "prod_list ns" m] by auto
qed simp

text \<open>Chunks of a list, and the whole of it.\<close>

lemma chunks: "length xs = n * m \<Longrightarrow> concat (map (\<lambda>i. take m (drop (i * m) xs)) [0..<n]) = xs"
proof (induction n arbitrary: xs)
  case (Suc n)
  have "concat (map (\<lambda>i. take m (drop (i * m) (drop m xs))) [0..<n]) = drop m xs"
    using Suc.prems by (intro Suc.IH) simp
  moreover have "map (\<lambda>i. take m (drop (i * m) xs)) [Suc 0..<Suc n] = map (\<lambda>i. take m (drop (i * m) (drop m xs))) [0..<n]"
    by (simp add: map_Suc_upt [symmetric] comp_def add.commute del: upt_Suc)
  ultimately have "concat (map (\<lambda>i. take m (drop (i * m) xs)) [Suc 0..<Suc n]) = drop m xs"
    by simp
  then show ?case
    by (simp add: upt_conv_Cons del: upt_Suc)
qed simp

lemma length_chunk: "length xs = n * m \<Longrightarrow> i < n \<Longrightarrow> length (take m (drop (i * m) xs)) = m"
proof -
  assume "length xs = n * m" "i < n"
  then have "Suc i * m \<le> length xs"
    using mult_le_mono1 [of "Suc i" n m] by simp
  then show ?thesis by simp
qed

lemma box_whole: "length xs = prod_list ns \<Longrightarrow> box ns (whole ns) xs = xs"
proof (induction ns arbitrary: xs)
  case (Cons n ns)
  then have "box ns (whole ns) (take (prod_list ns) (drop (i * prod_list ns) xs)) = take (prod_list ns) (drop (i * prod_list ns) xs)"
    if "i < n" for i
    using that length_chunk [of xs n "prod_list ns" i] by simp
  then have "map (\<lambda>i. box ns (whole ns) (take (prod_list ns) (drop (i * prod_list ns) xs))) [0..<n]
      = map (\<lambda>i. take (prod_list ns) (drop (i * prod_list ns) xs)) [0..<n]"
    by simp
  then show ?case
    using chunks [of xs n "prod_list ns"] Cons.prems by (simp only: whole_simps box.simps prod_list.Cons)
qed simp

lemma length_box: "box_ok ns rs \<Longrightarrow> length xs = prod_list ns \<Longrightarrow> length (box ns rs xs) = box_size rs"
proof (induction ns arbitrary: rs xs)
  case (Cons n ns)
  then obtain lo hi rs' where rs: "rs = (lo, hi) # rs'" "lo < hi" "hi \<le> n" "box_ok ns rs'"
    by (auto simp: box_ok_Cons)
  have "length (box ns rs' (take (prod_list ns) (drop (i * prod_list ns) xs))) = box_size rs'" if "i < hi" for i
    using Cons.IH [OF rs(4)] length_chunk [of xs n "prod_list ns" i] Cons.prems(2) that rs(3) by simp
  then have "map (\<lambda>i. length (box ns rs' (take (prod_list ns) (drop (i * prod_list ns) xs)))) [lo..<hi] = map (\<lambda>_. box_size rs') [lo..<hi]"
    by simp
  then show ?case
    unfolding rs(1) box.simps length_concat map_map comp_def by (simp only: sum_list_triv) simp
qed simp

lemma set_box: "set (box ns rs xs) \<subseteq> set xs"
proof (induction ns rs xs rule: box.induct)
  case (2 n ns lo hi rs xs)
  have "set (box ns rs (take (prod_list ns) (drop (i * prod_list ns) xs))) \<subseteq> set xs" if "i \<in> set [lo..<hi]" for i
    using 2 [OF that] by (meson in_set_dropD in_set_takeD subset_iff)
  then show ?case
    unfolding box.simps set_concat set_map by blast
qed auto

lemma map_box: "map f (box ns rs xs) = box ns rs (map f xs)"
proof (induction ns rs xs rule: box.induct)
  case (2 n ns lo hi rs xs)
  then have "map (\<lambda>i. map f (box ns rs (take (prod_list ns) (drop (i * prod_list ns) xs)))) [lo..<hi]
      = map (\<lambda>i. box ns rs (take (prod_list ns) (drop (i * prod_list ns) (map f xs)))) [lo..<hi]"
    by (simp add: take_map drop_map)
  then show ?case
    by (simp only: box.simps map_concat map_map comp_def)
qed simp_all

text \<open>In one dimension a box is a slice; in two, the parts of the rows.\<close>

lemma slice_nth: "hi \<le> length xs \<Longrightarrow> concat (map (\<lambda>i. take 1 (drop i xs)) [lo..<hi]) = take (hi - lo) (drop lo xs)"
proof (induction "hi - lo" arbitrary: lo)
  case (Suc n)
  then have "concat (map (\<lambda>i. take 1 (drop i xs)) [Suc lo..<hi]) = take (hi - Suc lo) (drop (Suc lo) xs)" "lo < length xs" "lo < hi"
    by simp_all
  moreover have "drop lo xs = xs ! lo # drop (Suc lo) xs"
    using \<open>lo < length xs\<close> by (rule Cons_nth_drop_Suc [symmetric])
  moreover have "hi - lo = Suc (hi - Suc lo)"
    using \<open>lo < hi\<close> by simp
  ultimately show ?case
    by (simp add: upt_conv_Cons)
qed simp

lemma box_row: "hi \<le> length xs \<Longrightarrow> box [n] [(lo, hi)] xs = take (hi - lo) (drop lo xs)"
  using slice_nth [of hi xs lo] by simp

lemma box_matrix:
  assumes "length xs = r * c" and "b \<le> r" and "y \<le> c"
  shows "box [r, c] [(a, b), (x, y)] xs = concat (map (\<lambda>i. take (y - x) (drop (i * c + x) xs)) [a..<b])"
proof -
  have "box [c] [(x, y)] (take c (drop (i * c) xs)) = take (y - x) (drop (i * c + x) xs)" if "i < b" for i
  proof -
    have "y \<le> length (take c (drop (i * c) xs))"
      using length_chunk [OF assms(1), of i] that assms(2,3) by simp
    from box_row [OF this] have "box [c] [(x, y)] (take c (drop (i * c) xs)) = take (y - x) (drop x (take c (drop (i * c) xs)))" .
    also have "\<dots> = take (y - x) (drop (x + i * c) xs)"
      using assms(3) by (simp only: drop_take drop_drop take_take) (simp add: min_def)
    finally show ?thesis by (simp add: add.commute)
  qed
  then have "map (\<lambda>i. box [c] [(x, y)] (take c (drop (i * c) xs))) [a..<b] = map (\<lambda>i. take (y - x) (drop (i * c + x) xs)) [a..<b]"
    by (simp del: box.simps)
  then show ?thesis
    by (simp only: box.simps(2) [of r "[c]"] prod_list.Cons prod_list.Nil mult_1_right)
qed

text \<open>What holds of the columns of an array holds of a box of them.\<close>

lemma columns_fit_box:
  assumes "columns_fit (prod_list ns) attrs cols" and "box_ok ns rs" and "list_all (\<lambda>(name, c). fixed_size c) cols"
  shows "columns_fit (box_size rs) attrs (map (\<lambda>(name, c). (name, column_box ns rs c)) cols)"
proof -
  have "column_fits (box_size rs) t (column_box ns rs c)" if c: "column_fits (prod_list ns) t c" "fixed_size c" for t c
  proof (cases c)
    case (Cells k cs)
    then show ?thesis
      using c length_box [OF assms(2), of cs] set_box [of ns rs cs] box_size_bounds [OF assms(2)] by (auto simp: list_all_iff)
  qed (use c in \<open>simp add: fixed_size_def\<close>)
  then show ?thesis
    using assms box_size_bounds [OF assms(2)]
    by (auto simp: columns_fit_def list_all2_conv_all_nth list_all_length split_beta)
qed

lemma columns_box_whole:
  assumes "columns_fit (prod_list ns) attrs cols"
  shows "map (\<lambda>(name, c). (name, column_box ns (whole ns) c)) cols = cols"
proof (rule map_idI)
  fix x assume "x \<in> set cols"
  then obtain j where j: "j < length cols" "x = cols ! j"
    by (auto simp: in_set_conv_nth)
  obtain name c where x: "x = (name, c)" by (cases x)
  have "column_fits (prod_list ns) (aa_DataType (attrs ! j)) c"
    using assms j(1) j(2) [symmetric] x unfolding columns_fit_def list_all2_conv_all_nth
    by (auto simp: split_beta dest!: spec [of _ j])
  then show "(case x of (name, c) \<Rightarrow> (name, column_box ns (whole ns) c)) = x"
    by (cases c) (simp_all add: x box_whole)
qed

lemma columns_fit_size: "columns_fit m attrs cols \<Longrightarrow> m * 8 \<le> 2 ^ 48"
proof -
  assume fit: "columns_fit m attrs cols"
  then obtain a x where "attrs \<noteq> []" "cols \<noteq> []" "column_fits m (aa_DataType (hd attrs)) (snd (hd cols))"
    by (cases attrs; cases cols) (auto simp: columns_fit_def)
  then show ?thesis
    by (cases "snd (hd cols)") simp_all
qed

lemma columns_fit_boxed:
  assumes "columns_fit (prod_list ns) attrs cols" and "box_ok ns rs" and "rs = whole ns \<or> list_all (\<lambda>(name, c). fixed_size c) cols"
  shows "columns_fit (box_size rs) attrs (map (\<lambda>(name, c). (name, column_box ns rs c)) cols)"
  using assms columns_fit_box [OF assms(1,2)] columns_box_whole [OF assms(1)] by auto

text \<open>The shape of a dense array: one \<^verbatim>\<open>int64\<close> dimension, counted from one, for each size.\<close>

definition good_dim :: "ArrayDimension \<Rightarrow> nat \<Rightarrow> bool" where
  "good_dim d n \<longleftrightarrow> ad_DimensionType d = DIMENSION_INT \<and> ad_Domain d = [1, int n] \<and> 0 < ad_TileExtent d \<and> ad_TileExtent d \<le> int n"

definition dense_dims :: "CreateArrayInput \<Rightarrow> nat list \<Rightarrow> bool" where
  "dense_dims input ns \<longleftrightarrow> ca_ArrayType input = ARRAY_DENSE \<and> ns \<noteq> [] \<and> list_all2 good_dim (ca_Dimensions input) ns"

end
