(* ===== verification/Recordset.thy ===== *)
theory Recordset
  imports Dense_Arrays Io_Calls
begin

section \<open>Recordsets\<close>

text \<open>
  The \<^verbatim>\<open>Recordset\<close> of \<^verbatim>\<open>event_store.go\<close>: records kept in an array of a store that is found by name.
  What it relies on, the \<^verbatim>\<open>MultiDimensionalArrayStore\<close> interface with the behaviour it promises
  for dense arrays, is the locale \<open>array_store\<close>; inside it, records that are
  created, written and read are the records that are scanned.
\<close>

subsection \<open>The interface and the recordset\<close>

record 'w mds =
  mds_CreateArray :: "CreateArrayInput \<Rightarrow> ('w, unit) io"
  mds_PutArray :: "PutArrayInput \<Rightarrow> ('w, unit) io"
  mds_GetArray :: "GetArrayInput \<Rightarrow> ('w, ArrayResult) io"

text \<open>The plugin manager is the IO manager its stores are looked up in; \<^verbatim>\<open>ArrayType\<close> and \<^verbatim>\<open>ArrayOrder\<close> are not read.\<close>

record 's Recordset =
  rs_buffer :: "cell list list"
  rs_bds :: ArrayAttrSet
  rs_storename :: string
  rs_datapath :: string
  rs_pm :: "'s IOManager"

definition NewEventStoreRecordset ::
    "'s IOManager \<Rightarrow> struct_field list \<Rightarrow> cell list list \<Rightarrow> string \<Rightarrow> string \<Rightarrow> 's Recordset res" where
  "NewEventStoreRecordset pm flds buffer storename datapath =
     res_bind (StructSliceToArrayConfig flds buffer) (\<lambda>buffData.
       Ok \<lparr>rs_buffer = buffer, rs_bds = buffData, rs_storename = storename, rs_datapath = datapath, rs_pm = pm\<rparr>)"

text \<open>The store's session as a \<^verbatim>\<open>MultiDimensionalArrayStore\<close>: \<open>as_mds\<close> is the type assertion.\<close>

definition recordset_store ::
    "('s \<Rightarrow> 'w mds option) \<Rightarrow> 's heap \<Rightarrow> 's Recordset \<Rightarrow> ('w mds \<Rightarrow> ('w, 'a) io) \<Rightarrow> ('w, 'a) io" where
  "recordset_store as_mds h rs use =
     io_bind (io_lift (GetStore h (rs_pm rs) (rs_storename rs))) (\<lambda>tdb.
       case Option.bind (st_Session tdb) as_mds of
         Some mds \<Rightarrow> use mds
       | None \<Rightarrow> io_err (Errorf ''store does not support multi dimesional arrays'' []))"

definition rs_Create :: "('s \<Rightarrow> 'w mds option) \<Rightarrow> 's heap \<Rightarrow> 's Recordset \<Rightarrow> ('w, unit) io" where
  "rs_Create as_mds h rs = recordset_store as_mds h rs (\<lambda>mds.
     io_bind (io_lift (Some (BuildCreateArrayInput (rs_bds rs) (rs_datapath rs)))) (mds_CreateArray mds))"

text \<open>The records to write are an argument that is not used: what is written is what the recordset was made of.\<close>

definition rs_Write :: "('s \<Rightarrow> 'w mds option) \<Rightarrow> 's heap \<Rightarrow> 's Recordset \<Rightarrow> cell list list \<Rightarrow> ('w, unit) io" where
  "rs_Write as_mds h rs buff = recordset_store as_mds h rs (\<lambda>mds.
     io_bind (io_lift (Some (BuildPutArrayInput (rs_bds rs) (rs_datapath rs) ARRAY_DENSE))) (mds_PutArray mds))"

definition rs_Read :: "('s \<Rightarrow> 'w mds option) \<Rightarrow> 's heap \<Rightarrow> 's Recordset \<Rightarrow> int list \<Rightarrow> ('w, ArrayResult) io" where
  "rs_Read as_mds h rs recrange = recordset_store as_mds h rs (\<lambda>mds.
     mds_GetArray mds \<lparr>ga_Attrs = AttributNames (rs_bds rs), ga_DataPath = rs_datapath rs,
       ga_BufferRange = (case recrange of [a, b] \<Rightarrow> [a, b] | _ \<Rightarrow> []), ga_SearchOrder = ROWMAJOR\<rparr>)"

subsection \<open>The columns of records\<close>

definition record_column :: "cell list list \<Rightarrow> nat \<times> string \<times> go_kind \<Rightarrow> string \<times> array_column" where
  "record_column data = (\<lambda>(i, t, k). let cells = map (\<lambda>v. v ! i) data in
     (t, if k = StringKind then Strings (map value_String cells) else Cells k cells))"

definition record_attr :: "nat \<times> string \<times> go_kind \<Rightarrow> ArrayAttribute" where
  "record_attr = (\<lambda>(i, t, k). \<lparr>aa_Name = t, aa_DataType = the (Golang2AttrTypeMap k)\<rparr>)"

text \<open>Records whose buffers a read can allocate.\<close>

definition records_fit :: "struct_field list \<Rightarrow> cell list list \<Rightarrow> bool" where
  "records_fit flds data \<longleftrightarrow> data \<noteq> [] \<and> tagged flds \<noteq> [] \<and> length data * 8 \<le> 2 ^ 48 \<and>
     (\<forall>(i, t, k) \<in> set (tagged flds). k = StringKind \<longrightarrow>
        length data * length (concat (map (\<lambda>v. value_String (v ! i)) data)) \<le> 2 ^ 48)"

lemma column_buffer_record:
  "column_buffer (record_column data p) = \<lparr>pb_AttrName = at_AttrName (column data p), pb_Buffer = at_Buffer (column data p),
     pb_Offsets = at_Offsets (column data p)\<rparr>"
  by (cases p) (simp add: record_column_def column_def raw_column_def Let_def)

lemma column_read_record: "column_read (snd (record_column data p)) = read_column data p"
  by (cases p) (simp add: record_column_def read_column_def Let_def comp_def)

lemma record_attr_column:
  "storable flds \<Longrightarrow> p \<in> set (tagged flds) \<Longrightarrow>
     \<lparr>aa_Name = at_AttrName (column data p), aa_DataType = at_AttrType (column data p)\<rparr> = record_attr p"
  by (cases p) (auto simp: column_def raw_column_def Let_def record_attr_def Golang2AttrTypeMap_def)

lemma record_attr_simps [simp]:
  "aa_Name (record_attr p) = tag_of p" "fst (record_column data p) = tag_of p" "at_AttrName (column data p) = tag_of p"
  by (cases p; simp add: record_attr_def record_column_def column_def raw_column_def Let_def)+

lemma BuildCreateArrayInput_records:
  assumes "storable flds" and "records_fit flds data"
  shows "BuildCreateArrayInput (map (column data) (tagged flds)) path =
    Ok \<lparr>ca_Attributes = map record_attr (tagged flds),
        ca_Dimensions = [\<lparr>ad_Name = ''d1'', ad_DimensionType = DIMENSION_INT, ad_Domain = [1, int (length data)],
          ad_TileExtent = min 256 (int (length data))\<rparr>],
        ca_ArrayPath = path, ca_ArrayType = ARRAY_DENSE, ca_CellLayout = ROWMAJOR, ca_TileLayout = ROWMAJOR\<rparr>"
proof -
  obtain p ps where ps: "tagged flds = p # ps"
    using assms(2) by (cases "tagged flds") (auto simp: records_fit_def)
  have "map (\<lambda>p. \<lparr>aa_Name = at_AttrName (column data p), aa_DataType = at_AttrType (column data p)\<rparr>) (tagged flds)
      = map record_attr (tagged flds)"
    using record_attr_column [OF assms(1)] by (intro map_cong refl)
  then show ?thesis
    using assms(2) getBufferLen_column [of data p]
    by (simp add: BuildCreateArrayInput_def ps go_index_def Let_def comp_def records_fit_def defaultTileExtent_def min_def)
qed

lemma BuildPutArrayInput_records:
  assumes "records_fit flds data"
  shows "BuildPutArrayInput (map (column data) (tagged flds)) path ARRAY_DENSE =
    Ok \<lparr>pa_Buffers = map column_buffer (map (record_column data) (tagged flds)), pa_BufferRange = [1, int (length data)],
        pa_DataPath = path, pa_ArrayType = ARRAY_DENSE, pa_Coords = [], pa_PutLayout = ROWMAJOR\<rparr>"
proof -
  obtain p ps where ps: "tagged flds = p # ps"
    using assms by (cases "tagged flds") (auto simp: records_fit_def)
  show ?thesis
    using getBufferLen_column [of data p]
    by (simp add: BuildPutArrayInput_def ps go_index_def Let_def comp_def column_buffer_record)
qed

lemma columns_fit_records:
  assumes "storable flds" and "records_fit flds data" and "distinct_tags flds" and "list_all (has_type flds) data"
  shows "columns_fit (length data) (map record_attr (tagged flds)) (map (record_column data) (tagged flds))"
proof -
  have "column_fits (length data) (aa_DataType (record_attr p)) (snd (record_column data p))" if p: "p \<in> set (tagged flds)" for p
  proof -
    obtain i t k where ik: "p = (i, t, k)" by (cases p)
    have k: "kind_of (v ! i) = k" if "v \<in> set data" for v
      using that assms(4) p has_type_nth [of flds v i] tagged_pos [of i t k flds] by (auto simp: ik list_all_iff)
    have "Golang2AttrTypeMap k \<noteq> None"
      using assms(1) p by (auto simp: storable_def ik)
    then show ?thesis
      using assms(2) p k string_type_iff [of k]
      by (auto simp: ik record_attr_def record_column_def Let_def records_fit_def list_all_iff comp_def)
  qed
  then show ?thesis
    using assms(2,3)
    by (auto simp: columns_fit_def records_fit_def distinct_tags_def comp_def list_all2_conv_all_nth split_beta)
qed

lemma recordset_store_found:
  "GetStore h (rs_pm rs) (rs_storename rs) = Some (Ok store) \<Longrightarrow> Option.bind (st_Session store) as_mds = Some S \<Longrightarrow>
     recordset_store as_mds h rs use = use S"
  by (simp add: recordset_store_def io_bind_def io_lift_def fun_eq_iff)

text \<open>A recordset of these records, whose store is found and is an array store.\<close>

definition recordset_ok ::
    "('s \<Rightarrow> 'w mds option) \<Rightarrow> 's heap \<Rightarrow> 'w mds \<Rightarrow> 's Recordset \<Rightarrow> struct_field list \<Rightarrow> cell list list \<Rightarrow> bool" where
  "recordset_ok as_mds h S rs flds data \<longleftrightarrow>
     (\<exists>store. GetStore h (rs_pm rs) (rs_storename rs) = Some (Ok store) \<and> Option.bind (st_Session store) as_mds = Some S) \<and>
     NewEventStoreRecordset (rs_pm rs) flds data (rs_storename rs) (rs_datapath rs) = Ok rs \<and>
     distinct_tags flds \<and> list_all (has_type flds) data \<and> records_fit flds data"

lemma recordset_okD:
  assumes "recordset_ok as_mds h S rs flds data"
  shows "rs_bds rs = map (column data) (tagged flds)"
    and "recordset_store as_mds h rs use = use S"
    and "storable flds" and "distinct_tags flds" and "list_all (has_type flds) data" and "records_fit flds data"
    and "int (length data) < 2 ^ 63"
proof -
  note ok = assms [unfolded recordset_ok_def]
  show "recordset_store as_mds h rs use = use S"
    using ok recordset_store_found by blast
  show typed: "list_all (has_type flds) data" and "distinct_tags flds" and fit: "records_fit flds data"
    using ok by simp_all
  then show "int (length data) < 2 ^ 63"
    by (simp add: records_fit_def)
  obtain bds where bds: "StructSliceToArrayConfig flds data = Ok bds" "rs_bds rs = bds"
    using ok by (auto simp: NewEventStoreRecordset_def res_bind_eq_Ok dest: arg_cong [where f = rs_bds])
  show storable: "storable flds"
  proof (rule ccontr)
    assume "\<not> storable flds"
    then have "find (\<lambda>(i, t, k). Golang2AttrTypeMap k = None) (tagged flds) \<noteq> None"
      by (auto simp: storable_def find_None_iff) blast
    then show False
      using bds(1) StructSliceToArrayConfig_bad by (metis not_None_eq res.distinct(1))
  qed
  show "rs_bds rs = map (column data) (tagged flds)"
    using bds StructSliceToArrayConfig_columns [OF storable typed] by simp
qed

subsection \<open>The records of a range\<close>

text \<open>
  Records are read as a whole, with the empty range or the whole one, or, when none of their fields
  is a string, from record \<open>lo + 1\<close> to record \<open>hi\<close>.
\<close>

definition reads_records :: "int list \<Rightarrow> struct_field list \<Rightarrow> cell list list \<Rightarrow> nat \<Rightarrow> nat \<Rightarrow> bool" where
  "reads_records rng flds data lo hi \<longleftrightarrow> lo < hi \<and> hi \<le> length data \<and>
     (rng = [int lo + 1, int hi] \<or> rng = [] \<and> lo = 0 \<and> hi = length data) \<and>
     (lo = 0 \<and> hi = length data \<or> list_all (\<lambda>(i, t, k). k \<noteq> StringKind) (tagged flds))"

lemma record_column_fixed: "fixed_size (snd (record_column data p)) \<longleftrightarrow> snd (snd p) \<noteq> StringKind"
  by (cases p) (simp add: record_column_def fixed_size_def Let_def)

lemma record_column_box:
  "hi \<le> length data \<Longrightarrow> column_box [length data] [(lo, hi)] (snd (record_column data p))
     = snd (record_column (take (hi - lo) (drop lo data)) p)"
  by (cases p) (simp add: record_column_def Let_def box_row take_map drop_map del: box.simps)

subsection \<open>The contract of an array store\<close>

locale array_store =
  fixes S :: "'w mds"
    and ready :: "'w world \<Rightarrow> bool"
    and shape :: "'w world \<Rightarrow> string \<Rightarrow> (ArrayAttribute list \<times> nat list) option"
    and content :: "'w world \<Rightarrow> string \<Rightarrow> (string \<times> array_column) list"
  assumes create: "ready w \<Longrightarrow> dense_dims input ns \<Longrightarrow> shape w (ca_ArrayPath input) = None \<Longrightarrow>
      list_all (\<lambda>a. \<exists>k. Golang2AttrTypeMap k = Some (aa_DataType a)) (ca_Attributes input) \<Longrightarrow>
      ca_Attributes input \<noteq> [] \<Longrightarrow> distinct (map aa_Name (ca_Attributes input)) \<Longrightarrow>
      ca_CellLayout input = ROWMAJOR \<Longrightarrow> ca_TileLayout input = ROWMAJOR \<Longrightarrow>
      does (mds_CreateArray S input) w (\<lambda>_ w'. ready w' \<and> shape w' (ca_ArrayPath input) = Some (ca_Attributes input, ns))"
    and put: "ready w \<Longrightarrow> shape w p = Some (attrs, ns) \<Longrightarrow> columns_fit (prod_list ns) attrs cols \<Longrightarrow>
      does (mds_PutArray S \<lparr>pa_Buffers = map column_buffer cols, pa_BufferRange = range_ints (whole ns), pa_DataPath = p,
          pa_ArrayType = ARRAY_DENSE, pa_Coords = [], pa_PutLayout = ROWMAJOR\<rparr>) w
        (\<lambda>_ w'. ready w' \<and> shape w' p = shape w p \<and> content w' p = cols)"
    and get: "ready w \<Longrightarrow> shape w p = Some (attrs, ns) \<Longrightarrow> columns_fit (prod_list ns) attrs cols \<Longrightarrow> content w p = cols \<Longrightarrow>
      box_ok ns rs \<Longrightarrow> asks_for ns br rs \<Longrightarrow>
      rs = whole ns \<or> list_all (\<lambda>(name, c). fixed_size c) cols \<Longrightarrow>
      does (mds_GetArray S \<lparr>ga_Attrs = map aa_Name attrs, ga_DataPath = p, ga_BufferRange = br, ga_SearchOrder = ROWMAJOR\<rparr>) w
        (\<lambda>ar w'. ready w' \<and> shape w' p = shape w p \<and> content w' p = cols \<and> ar_row ar = 0 \<and>
          ar_Attrs ar = map aa_Name attrs \<and> ar_Data ar = map (\<lambda>(name, c). column_read (column_box ns rs c)) cols \<and>
          as_AttributeNames (ar_Schema ar) = map aa_Name attrs \<and>
          as_AttributeTypes (ar_Schema ar) = map aa_DataType attrs)"

begin

lemma rs_Create_ok:
  assumes "recordset_ok as_mds h S rs flds data" and "ready w" and "shape w (rs_datapath rs) = None"
  shows "does (rs_Create as_mds h rs) w (\<lambda>_ w1. ready w1 \<and>
    shape w1 (rs_datapath rs) = Some (map record_attr (tagged flds), [length data]))"
proof -
  let ?input = "\<lparr>ca_Attributes = map record_attr (tagged flds), ca_Dimensions = [\<lparr>ad_Name = ''d1'',
      ad_DimensionType = DIMENSION_INT, ad_Domain = [1, int (length data)], ad_TileExtent = min 256 (int (length data))\<rparr>],
      ca_ArrayPath = rs_datapath rs, ca_ArrayType = ARRAY_DENSE, ca_CellLayout = ROWMAJOR, ca_TileLayout = ROWMAJOR\<rparr>"
  have "list_all (\<lambda>a. \<exists>k. Golang2AttrTypeMap k = Some (aa_DataType a)) (map record_attr (tagged flds))"
    using recordset_okD(3) [OF assms(1)] by (fastforce simp: list_all_iff storable_def record_attr_def)
  then have "does (mds_CreateArray S ?input) w
      (\<lambda>_ w1. ready w1 \<and> shape w1 (rs_datapath rs) = Some (map record_attr (tagged flds), [length data]))"
    using create [OF assms(2), of ?input "[length data]"] assms(3) recordset_okD(6) [OF assms(1)]
      recordset_okD(4) [OF assms(1)]
    by (simp add: dense_dims_def good_dim_def records_fit_def distinct_tags_def comp_def)
  then show ?thesis
    unfolding rs_Create_def recordset_okD(2) [OF assms(1)]
    by (simp add: recordset_okD(1) [OF assms(1)] does_bind_iff does_lift
        BuildCreateArrayInput_records [OF recordset_okD(3,6) [OF assms(1)]])
qed

lemma rs_Write_ok:
  assumes "recordset_ok as_mds h S rs flds data" and "ready w"
    and "shape w (rs_datapath rs) = Some (map record_attr (tagged flds), [length data])"
  shows "does (rs_Write as_mds h rs buff) w (\<lambda>_ w1. ready w1 \<and> shape w1 (rs_datapath rs) = shape w (rs_datapath rs) \<and>
    content w1 (rs_datapath rs) = map (record_column data) (tagged flds))"
  unfolding rs_Write_def recordset_okD(2) [OF assms(1)]
  using put [OF assms(2,3), of "map (record_column data) (tagged flds)"] columns_fit_records [OF recordset_okD(3,6,4,5) [OF assms(1)]]
  by (simp add: range_ints_def recordset_okD(1) [OF assms(1)] does_bind_iff does_lift
      BuildPutArrayInput_records [OF recordset_okD(6) [OF assms(1)]])

lemma rs_Read_ok:
  assumes rs: "recordset_ok as_mds h S rs flds data" and w: "ready w"
      "shape w (rs_datapath rs) = Some (map record_attr (tagged flds), [length data])"
      "content w (rs_datapath rs) = map (record_column data) (tagged flds)"
    and rng: "reads_records rng flds data lo hi"
  shows "does (rs_Read as_mds h rs rng) w (\<lambda>ar w1. holds_records flds (take (hi - lo) (drop lo data)) ar \<and> ar_row ar = 0)"
proof -
  have names: "AttributNames (rs_bds rs) = map aa_Name (map record_attr (tagged flds))"
    by (simp add: recordset_okD(1) [OF rs] AttributNames_def comp_def)
  have "list_all (\<lambda>(name, c). fixed_size c) (map (record_column data) (tagged flds))"
    if "list_all (\<lambda>(i, t, k). k \<noteq> StringKind) (tagged flds)"
    using that record_column_fixed [of data] by (simp add: list_all_iff split_beta)
  then have rng': "(case rng of [a, b] \<Rightarrow> [a, b] | _ \<Rightarrow> []) = rng" "box_ok [length data] [(lo, hi)]"
    "asks_for [length data] rng [(lo, hi)]"
    "[(lo, hi)] = whole [length data] \<or> list_all (\<lambda>(name, c). fixed_size c) (map (record_column data) (tagged flds))"
    using rng unfolding reads_records_def by (auto simp: asks_for_def range_ints_def)
  have "columns_fit (prod_list [length data]) (map record_attr (tagged flds)) (map (record_column data) (tagged flds))"
    using columns_fit_records [OF recordset_okD(3,6,4,5) [OF rs]] by simp
  note get = get [OF w(1,2) this w(3) rng'(2,3,4)]
  have "map (\<lambda>(name, c). column_read (column_box [length data] [(lo, hi)] c)) (map (record_column data) (tagged flds))
      = map (read_column (take (hi - lo) (drop lo data))) (tagged flds)"
    using record_column_box [of hi data lo] rng by (simp add: split_beta column_read_record reads_records_def del: column_box.simps)
  then show ?thesis
    unfolding rs_Read_def recordset_okD(2) [OF rs] names rng'(1)
    by (intro does_mono [OF get]) (auto simp: holds_records_def record_attr_def split_beta comp_def)
qed

text \<open>Records that are created, written and read are scanned, whatever order the map of tags is visited in.\<close>

lemma recordset_lifecycle:
  assumes rs: "recordset_ok as_mds h S rs flds data" and w: "ready w" "shape w (rs_datapath rs) = None"
    and rng: "reads_records rng flds data lo hi"
    and scan: "has_type flds zero" "\<And>n m. mset (ord n m) = mset m"
  shows "does (rs_Create as_mds h rs) w (\<lambda>_ w1. does (rs_Write as_mds h rs buff) w1 (\<lambda>_ w2.
    does (rs_Read as_mds h rs rng) w2 (\<lambda>ar w3.
      scan_all ord flds zero (hi - lo) ar = Ok (map (\<lambda>row. tagged_part flds row zero) (take (hi - lo) (drop lo data))))))"
proof (rule does_mono [OF rs_Create_ok [OF rs w]], elim conjE)
  fix w1 assume w1: "ready w1" "shape w1 (rs_datapath rs) = Some (map record_attr (tagged flds), [length data])"
  have part: "list_all (has_type flds) (take (hi - lo) (drop lo data))" "length (take (hi - lo) (drop lo data)) = hi - lo"
    "int (length (take (hi - lo) (drop lo data))) < 2 ^ 63"
    using recordset_okD(5,7) [OF rs] rng by (auto simp: list_all_iff reads_records_def dest!: in_set_takeD in_set_dropD)
  have "scan_all ord flds zero (hi - lo) ar = Ok (map (\<lambda>row. tagged_part flds row zero) (take (hi - lo) (drop lo data)))"
    if "holds_records flds (take (hi - lo) (drop lo data)) ar \<and> ar_row ar = 0" for ar
    using scan_all_from [OF recordset_okD(3,4) [OF rs] part(1,3) scan(2,1), of ar 0 "hi - lo"] that part(2) by simp
  then have read: "does (rs_Read as_mds h rs rng) w2 (\<lambda>ar w3.
      scan_all ord flds zero (hi - lo) ar = Ok (map (\<lambda>row. tagged_part flds row zero) (take (hi - lo) (drop lo data))))"
    if "ready w2" "shape w2 (rs_datapath rs) = shape w1 (rs_datapath rs)"
      "content w2 (rs_datapath rs) = map (record_column data) (tagged flds)" for w2
    using that w1(2) by (intro does_mono [OF rs_Read_ok [OF rs _ _ _ rng]]) simp_all
  show "does (rs_Write as_mds h rs buff) w1 (\<lambda>_ w2. does (rs_Read as_mds h rs rng) w2 (\<lambda>ar w3.
      scan_all ord flds zero (hi - lo) ar = Ok (map (\<lambda>row. tagged_part flds row zero) (take (hi - lo) (drop lo data)))))"
    by (rule does_mono [OF rs_Write_ok [OF rs w1]]) (use read in blast)
qed

end

end
