(* ===== verification/TileDb_Laws.thy ===== *)
theory TileDb_Laws
  imports TileDb_Store Recordset
begin

section \<open>What the TileDB package promises\<close>

text \<open>
  The documented behaviour of the TileDB package as far as arrays of \<^verbatim>\<open>tiledb_store.go\<close> rest on it, over
  two views of the world: what each handle stands for (\<open>obj\<close>) and what is stored under each URI
  (\<open>arr\<close>). Two assumptions are the code's own: calls that are used as documented succeed, and the
  estimate of the buffer sizes is exact (\<open>counts\<close>) when a whole array is read or a part of columns of
  a fixed size; \<open>handleVariableResults_long_offsets\<close> says what happens when it is not. Of errors it is
  assumed that an array that is absent cannot be opened and that one that exists cannot be created.
  \<open>TileDb_Memory\<close> is a package that meets all of it.
\<close>

subsection \<open>What handles stand for\<close>

datatype tdb_obj =
    OAttr string tdb_datatype bool
  | ODim string int int
  | ODomain "(string \<times> int \<times> int) list"
  | OSchema tdb_array_type "(string \<times> int \<times> int) list" "(string \<times> tdb_datatype \<times> bool) list"
  | OArray string "tdb_mode option"
  | OSubarray "int list"
  | OQuery string tdb_mode "int list" "(nat \<times> string \<times> go_any) list" "(string \<times> nat \<times> 64 word list) list"

record stored_array =
  sa_type :: tdb_array_type
  sa_dims :: "(string \<times> int \<times> int) list"
  sa_attrs :: "(string \<times> tdb_datatype \<times> bool) list"
  sa_columns :: "(string \<times> array_column) list"

type_synonym ('w, 'h) obj_view = "'w world \<Rightarrow> 'h \<Rightarrow> tdb_obj option"
type_synonym 'w arr_view = "'w world \<Rightarrow> string \<Rightarrow> stored_array option"

text \<open>A call that returns a new handle, one that changes what a handle stands for, one that only answers.\<close>

definition makes :: "('w, 'h) obj_view \<Rightarrow> 'w arr_view \<Rightarrow> ('w, 'h) io \<Rightarrow> 'w world \<Rightarrow> tdb_obj \<Rightarrow> bool" where
  "makes obj arr m w x \<longleftrightarrow> does m w (\<lambda>h w'. obj w h = None \<and> obj w \<subseteq>\<^sub>m obj w' \<and> obj w' h = Some x \<and> arr w' = arr w)"

definition sets :: "('w, 'h) obj_view \<Rightarrow> 'w arr_view \<Rightarrow> ('w, unit) io \<Rightarrow> 'w world \<Rightarrow> 'h \<Rightarrow> tdb_obj \<Rightarrow> bool" where
  "sets obj arr m w h x \<longleftrightarrow> does m w (\<lambda>_ w'. obj w' = (obj w)(h \<mapsto> x) \<and> arr w' = arr w)"

definition tells :: "('w, 'h) obj_view \<Rightarrow> 'w arr_view \<Rightarrow> ('w, 'a) io \<Rightarrow> 'w world \<Rightarrow> ('a \<Rightarrow> bool) \<Rightarrow> bool" where
  "tells obj arr m w P \<longleftrightarrow> does m w (\<lambda>x w'. P x \<and> obj w' = obj w \<and> arr w' = arr w)"

text \<open>A call that returns an error and changes nothing.\<close>

definition refuses :: "('w, 'h) obj_view \<Rightarrow> 'w arr_view \<Rightarrow> ('w, 'a) io \<Rightarrow> 'w world \<Rightarrow> bool" where
  "refuses obj arr m w \<longleftrightarrow> fails m w (\<lambda>w'. obj w' = obj w \<and> arr w' = arr w)"

text \<open>A list of handles, and what they stand for.\<close>

definition stand_for :: "('w, 'h) obj_view \<Rightarrow> 'w world \<Rightarrow> 'h list \<Rightarrow> tdb_obj list \<Rightarrow> bool" where
  "stand_for obj w hs xs \<longleftrightarrow> list_all2 (\<lambda>h x. obj w h = Some x) hs xs"

fun attr_obj :: "string \<times> tdb_datatype \<times> bool \<Rightarrow> tdb_obj" where
  "attr_obj (n, t, v) = OAttr n t v"

fun dim_obj :: "string \<times> int \<times> int \<Rightarrow> tdb_obj" where
  "dim_obj (n, lo, hi) = ODim n lo hi"

subsection \<open>Documented behaviour\<close>

definition create_laws :: "('w, 'h) tiledb_objects \<Rightarrow> 'h \<Rightarrow> ('w, 'h) obj_view \<Rightarrow> 'w arr_view \<Rightarrow> bool" where
  "create_laws o' ctx obj arr \<longleftrightarrow>
     (\<forall>w. makes obj arr (NewDomain o' ctx) w (ODomain [])) \<and>
     (\<forall>w name lo hi ext. lo \<le> hi \<longrightarrow> 0 < ext \<longrightarrow> ext \<le> hi - lo + 1 \<longrightarrow>
        makes obj arr (NewDimension o' ctx name TILEDB_INT64 [lo, hi] ext) w (ODim name lo hi)) \<and>
     (\<forall>w d ds hs dims. obj w d = Some (ODomain ds) \<longrightarrow> stand_for obj w hs (map dim_obj dims) \<longrightarrow>
        sets obj arr (AddDimensions o' d hs) w d (ODomain (ds @ dims))) \<and>
     (\<forall>w name t. makes obj arr (NewAttribute o' ctx name t) w (OAttr name t False)) \<and>
     (\<forall>w a name t v. obj w a = Some (OAttr name t v) \<longrightarrow> sets obj arr (SetCellValVar o' a) w a (OAttr name t True)) \<and>
     (\<forall>w at. makes obj arr (NewArraySchema o' ctx at) w (OSchema at [] [])) \<and>
     (\<forall>w s at ds ds' as d. obj w s = Some (OSchema at ds' as) \<longrightarrow> obj w d = Some (ODomain ds) \<longrightarrow>
        sets obj arr (SetDomain o' s d) w s (OSchema at ds as)) \<and>
     (\<forall>w s at ds as hs attrs. obj w s = Some (OSchema at ds as) \<longrightarrow>
        stand_for obj w hs (map attr_obj attrs) \<longrightarrow>
        sets obj arr (AddAttributes o' s hs) w s (OSchema at ds (as @ attrs))) \<and>
     (\<forall>w s at ds as. obj w s = Some (OSchema at ds as) \<longrightarrow>
        tells obj arr (SetCellOrder o' s TILEDB_ROW_MAJOR) w (\<lambda>_. True) \<and>
        tells obj arr (SetTileOrder o' s TILEDB_ROW_MAJOR) w (\<lambda>_. True))"

definition array_laws :: "('w, 'h) tiledb_objects \<Rightarrow> 'h \<Rightarrow> ('w, 'h) obj_view \<Rightarrow> 'w arr_view \<Rightarrow> bool" where
  "array_laws o' ctx obj arr \<longleftrightarrow>
     (\<forall>w uri. makes obj arr (NewArray o' ctx uri) w (OArray uri None)) \<and>
     (\<forall>w a s uri at ds as. obj w a = Some (OArray uri None) \<longrightarrow> obj w s = Some (OSchema at ds as) \<longrightarrow> ds \<noteq> [] \<longrightarrow> as \<noteq> [] \<longrightarrow>
        distinct (map fst as) \<longrightarrow> arr w uri = None \<longrightarrow>
        does (ArrayCreate o' a s) w (\<lambda>_ w'. obj w' = obj w \<and>
          arr w' = (arr w)(uri \<mapsto> \<lparr>sa_type = at, sa_dims = ds, sa_attrs = as, sa_columns = []\<rparr>))) \<and>
     (\<forall>w a uri mode. obj w a = Some (OArray uri None) \<longrightarrow> arr w uri \<noteq> None \<longrightarrow>
        sets obj arr (ArrayOpen o' a mode) w a (OArray uri (Some mode))) \<and>
     (\<forall>w a uri m. obj w a = Some (OArray uri m) \<longrightarrow> sets obj arr (ArrayClose o' a) w a (OArray uri None)) \<and>
     (\<forall>w uri. tells obj arr (ObjectInvalid o' ctx uri) w (\<lambda>x. x = (arr w uri = None))) \<and>
     (\<forall>w a uri mode. obj w a = Some (OArray uri None) \<longrightarrow> arr w uri = None \<longrightarrow> refuses obj arr (ArrayOpen o' a mode) w) \<and>
     (\<forall>w a s uri x. obj w a = Some (OArray uri None) \<longrightarrow> obj w s = Some x \<longrightarrow> arr w uri \<noteq> None \<longrightarrow> refuses obj arr (ArrayCreate o' a s) w)"

text \<open>What a loaded array says of its schema: the dimensions with their domains, and the attributes.\<close>

definition schema_laws :: "('w, 'h) tiledb_schemas \<Rightarrow> ('w, 'h) obj_view \<Rightarrow> 'w arr_view \<Rightarrow> bool" where
  "schema_laws s' obj arr \<longleftrightarrow>
     (\<forall>w a uri m sa. obj w a = Some (OArray uri (Some m)) \<longrightarrow> arr w uri = Some sa \<longrightarrow>
        makes obj arr (Schema s' a) w (OSchema (sa_type sa) (sa_dims sa) (sa_attrs sa))) \<and>
     (\<forall>w s at ds as. obj w s = Some (OSchema at ds as) \<longrightarrow> tells obj arr (SchemaType s' s) w (\<lambda>x. x = at)) \<and>
     (\<forall>w s at ds as. obj w s = Some (OSchema at ds as) \<longrightarrow>
        does (SchemaAttributes s' s) w (\<lambda>hs w'. obj w \<subseteq>\<^sub>m obj w' \<and> arr w' = arr w \<and>
          stand_for obj w' hs (map attr_obj as))) \<and>
     (\<forall>w h n t v. obj w h = Some (OAttr n t v) \<longrightarrow>
        tells obj arr (AttributeName s' h) w (\<lambda>x. x = n) \<and> tells obj arr (AttributeType s' h) w (\<lambda>x. x = t)) \<and>
     (\<forall>w s at ds as. obj w s = Some (OSchema at ds as) \<longrightarrow> makes obj arr (SchemaDomain s' s) w (ODomain ds)) \<and>
     (\<forall>w d ds. obj w d = Some (ODomain ds) \<longrightarrow> tells obj arr (NDim s' d) w (\<lambda>x. x = length ds)) \<and>
     (\<forall>w d ds i. obj w d = Some (ODomain ds) \<longrightarrow> i < length ds \<longrightarrow>
        makes obj arr (DimensionFromIndex s' d i) w (dim_obj (ds ! i))) \<and>
     (\<forall>w h n lo hi. obj w h = Some (ODim n lo hi) \<longrightarrow>
        tells obj arr (DimensionName s' h) w (\<lambda>x. x = n) \<and>
        tells obj arr (DimensionDomain s' h) w (\<lambda>x. x = AnySlice Int64 [CInt64 (word_of_int lo), CInt64 (word_of_int hi)]))"

text \<open>The size of a column as a query reports it, and a buffer once the column has been read into it.\<close>

fun counts :: "array_column \<Rightarrow> 64 word \<times> 64 word \<times> 64 word" where
  "counts (Cells k cs) = (0, of_nat (length cs), 0)"
| "counts (Strings ss) = (of_nat (length ss), of_nat (length (concat ss)), 0)"

fun column_cells :: "array_column \<Rightarrow> go_kind \<times> cell list" where
  "column_cells (Cells k cs) = (k, cs)"
| "column_cells (Strings ss) = (Uint8, map CUint8 (bytes_of (concat ss)))"

fun column_offsets :: "array_column \<Rightarrow> 64 word list option" where
  "column_offsets (Cells k cs) = None"
| "column_offsets (Strings ss) = Some (map of_nat (starts ss))"

text \<open>
  A query over a box of a dense array whose dimensions are counted from one; and the columns a
  read of it concerns: of the whole array any columns, of a part of it columns of cells of a fixed
  size, since what the package estimates for a part of a column of strings is no more than an
  estimate. Cells are in row-major order.
\<close>

definition sa_sizes :: "stored_array \<Rightarrow> nat list" where
  "sa_sizes sa = map (\<lambda>(d, lo, hi). nat hi) (sa_dims sa)"

definition range_query :: "'w arr_view \<Rightarrow> 'w world \<Rightarrow> string \<Rightarrow> int list \<Rightarrow> stored_array \<Rightarrow> (nat \<times> nat) list \<Rightarrow> bool" where
  "range_query arr w uri rng sa rs \<longleftrightarrow> arr w uri = Some sa \<and> sa_type sa = TILEDB_DENSE \<and>
     list_all (\<lambda>(d, lo, hi). lo = 1) (sa_dims sa) \<and> box_ok (sa_sizes sa) rs \<and> rng = range_ints rs"

definition range_read :: "'w arr_view \<Rightarrow> 'w world \<Rightarrow> string \<Rightarrow> int list \<Rightarrow> (string \<times> array_column) list \<Rightarrow> bool" where
  "range_read arr w uri rng cols \<longleftrightarrow> (\<exists>sa rs. range_query arr w uri rng sa rs \<and>
     (rs = whole (sa_sizes sa) \<or> list_all (\<lambda>(name, c). fixed_size c) (sa_columns sa)) \<and>
     cols = map (\<lambda>(name, c). (name, column_box (sa_sizes sa) rs c)) (sa_columns sa))"

text \<open>The buffers of a write are these columns, one for every attribute.\<close>

definition writes_columns ::
    "(nat \<times> string \<times> go_any) list \<Rightarrow> (string \<times> nat \<times> 64 word list) list \<Rightarrow> stored_array \<Rightarrow> (string \<times> array_column) list \<Rightarrow> bool" where
  "writes_columns data offs sa cols \<longleftrightarrow>
     map (\<lambda>(i, name, b). (name, b)) data = map (\<lambda>(name, c). (name, case column_cells c of (k, cs) \<Rightarrow> AnySlice k cs)) cols \<and>
     list_all (\<lambda>(name, c). map_option snd (map_of offs name) = column_offsets c) cols \<and>
     map fst cols = map fst (sa_attrs sa) \<and> list_all (\<lambda>(name, c). case c of
       Cells k cs \<Rightarrow> length cs = prod_list (sa_sizes sa)
     | Strings ss \<Rightarrow> length ss = prod_list (sa_sizes sa) \<and> fits_memory ss) cols"

text \<open>The buffers of a read have room for the columns they are named after.\<close>

definition reads_columns ::
    "(nat \<times> string \<times> go_any) list \<Rightarrow> (string \<times> nat \<times> 64 word list) list \<Rightarrow> (string \<times> array_column) list \<Rightarrow> bool" where
  "reads_columns data offs cols \<longleftrightarrow> distinct (map fst data) \<and>
     list_all (\<lambda>(i, name, b). \<exists>c k cs bs. map_of cols name = Some c \<and> column_cells c = (k, cs) \<and> b = AnySlice k bs \<and>
        length cs \<le> length bs \<and>
        (case column_offsets c of None \<Rightarrow> map_of offs name = None
         | Some os \<Rightarrow> (\<exists>buf. map_of offs name = Some (i, buf) \<and> length os \<le> length buf))) data"

definition read_fills ::
    "(nat \<times> string \<times> go_any) list \<Rightarrow> (string \<times> nat \<times> 64 word list) list \<Rightarrow> (string \<times> array_column) list \<Rightarrow> filled \<Rightarrow> bool" where
  "read_fills data offs cols f \<longleftrightarrow> (\<forall>(i, name, b) \<in> set data. \<forall>c k cs bs. map_of cols name = Some c \<longrightarrow>
     column_cells c = (k, cs) \<longrightarrow> b = AnySlice k bs \<longrightarrow>
     filled_data f i = Some (AnySlice k (cs @ drop (length cs) bs)) \<and>
     (\<forall>os buf. column_offsets c = Some os \<longrightarrow> map_of offs name = Some (i, buf) \<longrightarrow>
        filled_offsets f i = Some (os @ drop (length os) buf)))"

definition query_laws :: "('w, 'h) tiledb_queries \<Rightarrow> 'h \<Rightarrow> ('w, 'h) obj_view \<Rightarrow> 'w arr_view \<Rightarrow> bool" where
  "query_laws q' ctx obj arr \<longleftrightarrow>
     (\<forall>w a uri m. obj w a = Some (OArray uri (Some m)) \<longrightarrow> makes obj arr (NewQuery q' ctx a) w (OQuery uri m [] [] [])) \<and>
     (\<forall>w a uri m. obj w a = Some (OArray uri (Some m)) \<longrightarrow> makes obj arr (NewSubarray q' a) w (OSubarray [])) \<and>
     (\<forall>w s r0 r. obj w s = Some (OSubarray r0) \<longrightarrow> sets obj arr (SetSubArray q' s r) w s (OSubarray r)) \<and>
     (\<forall>w q s uri m r0 r ds os. obj w q = Some (OQuery uri m r0 ds os) \<longrightarrow> obj w s = Some (OSubarray r) \<longrightarrow>
        sets obj arr (SetSubarray q' q s) w q (OQuery uri m r ds os)) \<and>
     (\<forall>w q uri m r ds os. obj w q = Some (OQuery uri m r ds os) \<longrightarrow> tells obj arr (SetLayout q' q TILEDB_ROW_MAJOR) w (\<lambda>_. True)) \<and>
     (\<forall>w q uri m r ds os name i b. obj w q = Some (OQuery uri m r ds os) \<longrightarrow> name \<notin> (fst \<circ> snd) ` set ds \<longrightarrow>
        sets obj arr (SetDataBuffer q' q name i b) w q (OQuery uri m r (ds @ [(i, name, b)]) os)) \<and>
     (\<forall>w q uri m r ds os name i b. obj w q = Some (OQuery uri m r ds os) \<longrightarrow>
        sets obj arr (SetOffsetsBuffer q' q name i b) w q (OQuery uri m r ds (AList.update name (i, b) os)))"

definition submit_laws :: "('w, 'h) tiledb_queries \<Rightarrow> ('w, 'h) obj_view \<Rightarrow> 'w arr_view \<Rightarrow> bool" where
  "submit_laws q' obj arr \<longleftrightarrow>
     (\<forall>w q uri r ds os sa cols. obj w q = Some (OQuery uri TILEDB_WRITE r ds os) \<longrightarrow> range_query arr w uri r sa (whole (sa_sizes sa)) \<longrightarrow>
        writes_columns ds os sa cols \<longrightarrow>
        does (Submit q' q) w (\<lambda>_ w'. obj w' = obj w \<and> arr w' = (arr w)(uri \<mapsto> sa \<lparr>sa_columns := cols\<rparr>))) \<and>
     (\<forall>w q uri r ds os cols. obj w q = Some (OQuery uri TILEDB_READ r ds os) \<longrightarrow> range_read arr w uri r cols \<longrightarrow>
        tells obj arr (EstimateBufferElements q' q) w (\<lambda>f. \<forall>name c. map_of cols name = Some c \<longrightarrow> f name = counts c)) \<and>
     (\<forall>w q uri r ds os cols. obj w q = Some (OQuery uri TILEDB_READ r ds os) \<longrightarrow> range_read arr w uri r cols \<longrightarrow>
        reads_columns ds os cols \<longrightarrow>
        tells obj arr (Submit q' q) w (read_fills ds os cols) \<and>
        tells obj arr (ResultBufferElements q' q) w (\<lambda>f. \<forall>name c. map_of cols name = Some c \<longrightarrow> f name = counts c))"

definition tiledb_laws :: "('w, 'h) tiledb \<Rightarrow> 'h \<Rightarrow> ('w, 'h) obj_view \<Rightarrow> 'w arr_view \<Rightarrow> bool" where
  "tiledb_laws td ctx obj arr \<longleftrightarrow> create_laws (objs td) ctx obj arr \<and> array_laws (objs td) ctx obj arr \<and>
     schema_laws (schs td) obj arr \<and> query_laws (qrys td) ctx obj arr \<and> submit_laws (qrys td) obj arr"

subsection \<open>Rules for the three kinds of call\<close>

lemma does_makes:
  assumes "makes obj arr m w x"
    and "\<And>h w'. obj w h = None \<Longrightarrow> obj w \<subseteq>\<^sub>m obj w' \<Longrightarrow> obj w' h = Some x \<Longrightarrow> arr w' = arr w \<Longrightarrow> P h w'"
  shows "does m w P"
  using assms unfolding makes_def by (auto elim!: does_mono)

lemma does_sets:
  assumes "sets obj arr m w h x" and "\<And>w'. obj w' = (obj w)(h \<mapsto> x) \<Longrightarrow> arr w' = arr w \<Longrightarrow> P () w'"
  shows "does m w P"
  using assms unfolding sets_def by (auto elim!: does_mono)

lemma does_tells:
  assumes "tells obj arr m w Q" and "\<And>x w'. Q x \<Longrightarrow> obj w' = obj w \<Longrightarrow> arr w' = arr w \<Longrightarrow> P x w'"
  shows "does m w P"
  using assms unfolding tells_def by (auto elim!: does_mono)

lemma map_leD: "m \<subseteq>\<^sub>m m' \<Longrightarrow> m x = Some y \<Longrightarrow> m' x = Some y"
  by (auto simp: map_le_def dom_def)

lemma map_le_fresh: "m h = None \<Longrightarrow> m \<subseteq>\<^sub>m m' \<Longrightarrow> m \<subseteq>\<^sub>m m'(h \<mapsto> x)"
  by (auto simp: map_le_def dom_def)

text \<open>Handles stay what they are, beside the one that is set.\<close>

lemma stand_for_le: "stand_for obj w hs xs \<Longrightarrow> obj w \<subseteq>\<^sub>m obj w' \<Longrightarrow> stand_for obj w' hs xs"
  unfolding stand_for_def by (erule list_all2_mono) (auto dest: map_leD)

lemma stand_for_set:
  "stand_for obj w hs xs \<Longrightarrow> obj w' = (obj w)(h \<mapsto> x) \<Longrightarrow> obj w h = Some y \<Longrightarrow> y \<notin> set xs \<Longrightarrow> stand_for obj w' hs xs"
  unfolding stand_for_def by (auto simp: list_all2_conv_all_nth)

lemma stand_for_snoc: "stand_for obj w hs xs \<Longrightarrow> obj w h = Some x \<Longrightarrow> stand_for obj w (hs @ [h]) (xs @ [x])"
  unfolding stand_for_def by (simp add: list_all2_appendI)

lemma does_each_makes:
  assumes "\<And>k w1. k < length xs \<Longrightarrow> makes obj arr (f (i + k) (xs ! k)) w1 (g (xs ! k))"
    and "\<And>hs w'. obj w \<subseteq>\<^sub>m obj w' \<Longrightarrow> arr w' = arr w \<Longrightarrow> stand_for obj w' hs (map g xs) \<Longrightarrow> P hs w'"
  shows "does (io_each f i xs) w P"
proof (rule does_each [where I = "\<lambda>hs w'. obj w \<subseteq>\<^sub>m obj w' \<and> arr w' = arr w \<and> stand_for obj w' hs (map g (take (length hs) xs))"])
  fix k w1 and ys :: "'c list"
  assume k: "k < length xs" "length ys = k" and I: "obj w \<subseteq>\<^sub>m obj w1 \<and> arr w1 = arr w \<and> stand_for obj w1 ys (map g (take (length ys) xs))"
  show "does (f (i + k) (xs ! k)) w1 (\<lambda>y w2. obj w \<subseteq>\<^sub>m obj w2 \<and> arr w2 = arr w \<and>
      stand_for obj w2 (ys @ [y]) (map g (take (length (ys @ [y])) xs)))"
  proof (rule does_makes [OF assms(1) [OF k(1)]], intro conjI)
    fix h w2 assume h: "obj w1 \<subseteq>\<^sub>m obj w2" "obj w2 h = Some (g (xs ! k))" "arr w2 = arr w1"
    show "obj w \<subseteq>\<^sub>m obj w2" "arr w2 = arr w"
      using I h by (auto intro: map_le_trans)
    show "stand_for obj w2 (ys @ [h]) (map g (take (length (ys @ [h])) xs))"
      using stand_for_snoc [OF stand_for_le [OF _ h(1)] h(2)] I k by (simp add: take_Suc_conv_app_nth)
  qed
qed (use assms(2) in \<open>auto simp: stand_for_def\<close>)

subsection \<open>The laws one by one\<close>

lemma create_lawsD:
  assumes "create_laws o' ctx obj arr"
  shows "makes obj arr (NewDomain o' ctx) w (ODomain [])"
    and "lo \<le> hi \<Longrightarrow> 0 < ext \<Longrightarrow> ext \<le> hi - lo + 1 \<Longrightarrow>
      makes obj arr (NewDimension o' ctx name TILEDB_INT64 [lo, hi] ext) w (ODim name lo hi)"
    and "obj w d = Some (ODomain ds) \<Longrightarrow> stand_for obj w hs (map dim_obj dims) \<Longrightarrow>
      sets obj arr (AddDimensions o' d hs) w d (ODomain (ds @ dims))"
    and "makes obj arr (NewAttribute o' ctx name t) w (OAttr name t False)"
    and "obj w a = Some (OAttr name t v) \<Longrightarrow> sets obj arr (SetCellValVar o' a) w a (OAttr name t True)"
    and "makes obj arr (NewArraySchema o' ctx at) w (OSchema at [] [])"
    and "obj w s = Some (OSchema at ds' as) \<Longrightarrow> obj w d = Some (ODomain ds) \<Longrightarrow>
      sets obj arr (SetDomain o' s d) w s (OSchema at ds as)"
    and "obj w s = Some (OSchema at ds as) \<Longrightarrow> stand_for obj w hs (map attr_obj attrs) \<Longrightarrow>
      sets obj arr (AddAttributes o' s hs) w s (OSchema at ds (as @ attrs))"
    and "obj w s = Some (OSchema at ds as) \<Longrightarrow> tells obj arr (SetCellOrder o' s TILEDB_ROW_MAJOR) w (\<lambda>_. True)"
    and "obj w s = Some (OSchema at ds as) \<Longrightarrow> tells obj arr (SetTileOrder o' s TILEDB_ROW_MAJOR) w (\<lambda>_. True)"
  using assms unfolding create_laws_def by (elim conjE; simp)+

lemma array_lawsD:
  assumes "array_laws o' ctx obj arr"
  shows "makes obj arr (NewArray o' ctx uri) w (OArray uri None)"
    and "obj w a = Some (OArray uri None) \<Longrightarrow> obj w s = Some (OSchema at ds as) \<Longrightarrow> ds \<noteq> [] \<Longrightarrow> as \<noteq> [] \<Longrightarrow>
      distinct (map fst as) \<Longrightarrow> arr w uri = None \<Longrightarrow>
      does (ArrayCreate o' a s) w (\<lambda>_ w'. obj w' = obj w \<and>
        arr w' = (arr w)(uri \<mapsto> \<lparr>sa_type = at, sa_dims = ds, sa_attrs = as, sa_columns = []\<rparr>))"
    and "obj w a = Some (OArray uri None) \<Longrightarrow> arr w uri \<noteq> None \<Longrightarrow>
      sets obj arr (ArrayOpen o' a mode) w a (OArray uri (Some mode))"
    and "obj w a = Some (OArray uri m) \<Longrightarrow> sets obj arr (ArrayClose o' a) w a (OArray uri None)"
    and "tells obj arr (ObjectInvalid o' ctx uri) w (\<lambda>x. x = (arr w uri = None))"
    and "obj w a = Some (OArray uri None) \<Longrightarrow> arr w uri = None \<Longrightarrow> refuses obj arr (ArrayOpen o' a mode) w"
    and "obj w a = Some (OArray uri None) \<Longrightarrow> obj w s = Some x \<Longrightarrow> arr w uri \<noteq> None \<Longrightarrow> refuses obj arr (ArrayCreate o' a s) w"
  using assms unfolding array_laws_def by (elim conjE; simp)+

lemma schema_lawsD:
  assumes "schema_laws s' obj arr"
  shows "obj w a = Some (OArray uri (Some m)) \<Longrightarrow> arr w uri = Some sa \<Longrightarrow>
      makes obj arr (Schema s' a) w (OSchema (sa_type sa) (sa_dims sa) (sa_attrs sa))"
    and "obj w s = Some (OSchema at ds as) \<Longrightarrow> tells obj arr (SchemaType s' s) w (\<lambda>x. x = at)"
    and "obj w s = Some (OSchema at ds as) \<Longrightarrow> does (SchemaAttributes s' s) w (\<lambda>hs w'. obj w \<subseteq>\<^sub>m obj w' \<and>
      arr w' = arr w \<and> stand_for obj w' hs (map attr_obj as))"
    and "obj w h = Some (OAttr n t v) \<Longrightarrow> tells obj arr (AttributeName s' h) w (\<lambda>x. x = n)"
    and "obj w h = Some (OAttr n t v) \<Longrightarrow> tells obj arr (AttributeType s' h) w (\<lambda>x. x = t)"
    and "obj w s = Some (OSchema at ds as) \<Longrightarrow> makes obj arr (SchemaDomain s' s) w (ODomain ds)"
    and "obj w d = Some (ODomain ds) \<Longrightarrow> tells obj arr (NDim s' d) w (\<lambda>x. x = length ds)"
    and "obj w d = Some (ODomain ds) \<Longrightarrow> i < length ds \<Longrightarrow> makes obj arr (DimensionFromIndex s' d i) w (dim_obj (ds ! i))"
    and "obj w h = Some (ODim n lo hi) \<Longrightarrow> tells obj arr (DimensionName s' h) w (\<lambda>x. x = n)"
    and "obj w h = Some (ODim n lo hi) \<Longrightarrow> tells obj arr (DimensionDomain s' h) w
      (\<lambda>x. x = AnySlice Int64 [CInt64 (word_of_int lo), CInt64 (word_of_int hi)])"
  using assms unfolding schema_laws_def by (elim conjE; simp)+

lemma query_lawsD:
  assumes "query_laws q' ctx obj arr"
  shows "obj w a = Some (OArray uri (Some m)) \<Longrightarrow> makes obj arr (NewQuery q' ctx a) w (OQuery uri m [] [] [])"
    and "obj w a = Some (OArray uri (Some m)) \<Longrightarrow> makes obj arr (NewSubarray q' a) w (OSubarray [])"
    and "obj w s = Some (OSubarray r0) \<Longrightarrow> sets obj arr (SetSubArray q' s r) w s (OSubarray r)"
    and "obj w q = Some (OQuery uri m r0 ds os) \<Longrightarrow> obj w s = Some (OSubarray r) \<Longrightarrow>
      sets obj arr (SetSubarray q' q s) w q (OQuery uri m r ds os)"
    and "obj w q = Some (OQuery uri m r ds os) \<Longrightarrow> tells obj arr (SetLayout q' q TILEDB_ROW_MAJOR) w (\<lambda>_. True)"
    and "obj w q = Some (OQuery uri m r ds os) \<Longrightarrow> name \<notin> (fst \<circ> snd) ` set ds \<Longrightarrow>
      sets obj arr (SetDataBuffer q' q name i b) w q (OQuery uri m r (ds @ [(i, name, b)]) os)"
    and "obj w q = Some (OQuery uri m r ds os) \<Longrightarrow>
      sets obj arr (SetOffsetsBuffer q' q name i b') w q (OQuery uri m r ds (AList.update name (i, b') os))"
  using assms unfolding query_laws_def by (elim conjE; simp)+

lemma submit_lawsD:
  assumes "submit_laws q' obj arr"
  shows "obj w q = Some (OQuery uri TILEDB_WRITE r ds os) \<Longrightarrow> range_query arr w uri r sa (whole (sa_sizes sa)) \<Longrightarrow> writes_columns ds os sa cols \<Longrightarrow>
      does (Submit q' q) w (\<lambda>_ w'. obj w' = obj w \<and> arr w' = (arr w)(uri \<mapsto> sa \<lparr>sa_columns := cols\<rparr>))"
    and "obj w q = Some (OQuery uri TILEDB_READ r ds os) \<Longrightarrow> range_read arr w uri r cols \<Longrightarrow>
      tells obj arr (EstimateBufferElements q' q) w (\<lambda>f. \<forall>name c. map_of cols name = Some c \<longrightarrow> f name = counts c)"
    and "obj w q = Some (OQuery uri TILEDB_READ r ds os) \<Longrightarrow> range_read arr w uri r cols \<Longrightarrow> reads_columns ds os cols \<Longrightarrow>
      tells obj arr (Submit q' q) w (read_fills ds os cols)"
    and "obj w q = Some (OQuery uri TILEDB_READ r ds os) \<Longrightarrow> range_read arr w uri r cols \<Longrightarrow> reads_columns ds os cols \<Longrightarrow>
      tells obj arr (ResultBufferElements q' q) w (\<lambda>f. \<forall>name c. map_of cols name = Some c \<longrightarrow> f name = counts c)"
  using assms unfolding submit_laws_def by (elim conjE; simp)+

lemma tiledb_lawsD:
  assumes "tiledb_laws td ctx obj arr"
  shows "create_laws (objs td) ctx obj arr" and "array_laws (objs td) ctx obj arr" and "schema_laws (schs td) obj arr"
    and "query_laws (qrys td) ctx obj arr" and "submit_laws (qrys td) obj arr"
  using assms unfolding tiledb_laws_def by simp_all

end
