(* ===== verification/TileDb_Create.thy ===== *)
theory TileDb_Create
  imports TileDb_Laws
begin

section \<open>TileDB event store: creating an array\<close>

text \<open>
  What \<open>CreateArray\<close> of \<^verbatim>\<open>tiledb_store.go\<close> stores for a dense array, when the TileDB
  package behaves as documented (\<open>tiledb_laws\<close>), and how a stored array is seen by a client: its
  attributes and size (\<open>tdb_shape\<close>) and its columns (\<open>tdb_content\<close>).
\<close>

definition attr_entry :: "ArrayAttribute \<Rightarrow> string \<times> tdb_datatype \<times> bool" where
  "attr_entry a = (aa_Name a, the (ccAttr2TiledbAttrMap (aa_DataType a)), aa_DataType a = ATTR_STRING)"

lemma create_attribute_makes:
  assumes "create_laws (objs td) (tdb_context tdb) obj arr" and "ccAttr2TiledbAttrMap (aa_DataType a) \<noteq> None"
  shows "makes obj arr (create_attribute td tdb i a) w (attr_obj (attr_entry a))"
proof -
  obtain t where t: "ccAttr2TiledbAttrMap (aa_DataType a) = Some t"
    using assms(2) by auto
  have str: "t = TILEDB_STRING_ASCII \<longleftrightarrow> aa_DataType a = ATTR_STRING"
    using t by (auto simp: ccAttr2TiledbAttrMap_def split: ATTR_TYPE.splits)
  show ?thesis
    unfolding makes_def create_attribute_def t option.simps
  proof (rule does_bind, rule does_makes [OF create_lawsD(4) [OF assms(1)]])
    fix h w1 assume h: "obj w h = None" "obj w \<subseteq>\<^sub>m obj w1" "obj w1 h = Some (OAttr (aa_Name a) t False)" "arr w1 = arr w"
    show "does (if t = TILEDB_STRING_ASCII then io_bind (SetCellValVar (objs td) h) (\<lambda>_. io_return h) else io_return h) w1
      (\<lambda>h w'. obj w h = None \<and> obj w \<subseteq>\<^sub>m obj w' \<and> obj w' h = Some (attr_obj (attr_entry a)) \<and> arr w' = arr w)"
      using h str t by (auto simp: attr_entry_def map_le_fresh intro!: does_bind does_sets [OF create_lawsD(5) [OF assms(1) h(3)]])
  qed
qed

text \<open>The array a path names, and its attributes and size when it is one the contract speaks of.\<close>

definition tdb_path :: "'h TileDbEventStore \<Rightarrow> string \<Rightarrow> string" where
  "tdb_path tdb p = tdb_uri tdb @ ''/'' @ p"

definition entry_attr :: "string \<times> tdb_datatype \<times> bool \<Rightarrow> ArrayAttribute" where
  "entry_attr = (\<lambda>(n, t, v). \<lparr>aa_Name = n, aa_DataType = the (tileDbType2CcTypeLookup t)\<rparr>)"

definition entry_ok :: "string \<times> tdb_datatype \<times> bool \<Rightarrow> bool" where
  "entry_ok = (\<lambda>(n, t, v). tileDbType2CcTypeLookup t \<noteq> None \<and> (v \<longleftrightarrow> t = TILEDB_STRING_ASCII))"

definition tdb_shape :: "'w arr_view \<Rightarrow> 'h TileDbEventStore \<Rightarrow> 'w world \<Rightarrow> string \<Rightarrow> (ArrayAttribute list \<times> nat list) option" where
  "tdb_shape arr tdb w p = (case arr w (tdb_path tdb p) of
     None \<Rightarrow> None
   | Some sa \<Rightarrow>
       if sa_type sa = TILEDB_DENSE \<and> list_all (\<lambda>(d, lo, hi). lo = 1 \<and> 0 < hi) (sa_dims sa) \<and> list_all entry_ok (sa_attrs sa)
       then Some (map entry_attr (sa_attrs sa), sa_sizes sa) else Some ([], []))"

definition tdb_content :: "'w arr_view \<Rightarrow> 'h TileDbEventStore \<Rightarrow> 'w world \<Rightarrow> string \<Rightarrow> (string \<times> array_column) list" where
  "tdb_content arr tdb w p = (case arr w (tdb_path tdb p) of None \<Rightarrow> [] | Some sa \<Rightarrow> sa_columns sa)"

lemma storable_type: "Golang2AttrTypeMap k = Some t \<Longrightarrow> ccAttr2TiledbAttrMap t \<noteq> None"
  by (auto simp: Golang2AttrTypeMap_def ccAttr2TiledbAttrMap_def split: go_kind.splits)

lemma entry_attr_entry:
  assumes "ccAttr2TiledbAttrMap (aa_DataType a) \<noteq> None"
  shows "entry_attr (attr_entry a) = a" and "entry_ok (attr_entry a)"
proof -
  obtain t where t: "ccAttr2TiledbAttrMap (aa_DataType a) = Some t"
    using assms by auto
  then have "tileDbType2CcTypeLookup t = Some (aa_DataType a)"
    by (simp add: tileDbType2CcTypeLookup_inverse)
  moreover have "aa_DataType a = ATTR_STRING \<longleftrightarrow> t = TILEDB_STRING_ASCII"
    using t by (auto simp: ccAttr2TiledbAttrMap_def split: ATTR_TYPE.splits)
  ultimately show "entry_attr (attr_entry a) = a" and "entry_ok (attr_entry a)"
    by (simp_all add: entry_attr_def attr_entry_def entry_ok_def t)
qed

text \<open>The first half of \<open>CreateArray\<close>: the schema, with its domain and its attributes.\<close>

definition dim_entry :: "ArrayDimension \<Rightarrow> string \<times> int \<times> int" where
  "dim_entry d = (ad_Name d, ad_Domain d ! 0, ad_Domain d ! 1)"

lemma create_dimensions:
  assumes laws: "create_laws (objs td) (tdb_context tdb) obj arr" and dims: "list_all2 good_dim ds ns"
    and P: "\<And>hs w'. obj w \<subseteq>\<^sub>m obj w' \<Longrightarrow> arr w' = arr w \<Longrightarrow> stand_for obj w' hs (map dim_obj (map dim_entry ds)) \<Longrightarrow> P hs w'"
  shows "does (io_each (create_dimension td tdb) 0 ds) w P"
proof (rule does_each_makes [where g = "dim_obj \<circ> dim_entry"])
  fix k w1 assume k: "k < length ds"
  then obtain n where "good_dim (ds ! k) n"
    using dims by (auto simp: list_all2_conv_all_nth)
  then show "makes obj arr (create_dimension td tdb (0 + k) (ds ! k)) w1 ((dim_obj \<circ> dim_entry) (ds ! k))"
    using create_lawsD(2) [OF laws, of 1 "int n" "ad_TileExtent (ds ! k)"]
    by (simp add: good_dim_def dim_entry_def create_dimension_def CcStoreDimensionType2TileDbType_def)
qed (simp_all add: P)

lemma good_dims_sizes: "list_all2 good_dim ds ns \<Longrightarrow> map (\<lambda>(d, lo, hi). nat hi) (map dim_entry ds) = ns"
  by (induction rule: list_all2_induct) (auto simp: good_dim_def dim_entry_def)

lemma good_dims_ok: "list_all2 good_dim ds ns \<Longrightarrow> list_all (\<lambda>(d, lo, hi). lo = 1 \<and> 0 < hi) (map dim_entry ds)"
  by (induction rule: list_all2_induct) (auto simp: good_dim_def dim_entry_def)

lemma create_attributes:
  assumes laws: "create_laws (objs td) (tdb_context tdb) obj arr" and attrs: "list_all (\<lambda>a. ccAttr2TiledbAttrMap (aa_DataType a) \<noteq> None) as"
    and P: "\<And>hs w'. obj w \<subseteq>\<^sub>m obj w' \<Longrightarrow> arr w' = arr w \<Longrightarrow> stand_for obj w' hs (map attr_obj (map attr_entry as)) \<Longrightarrow> P hs w'"
  shows "does (io_each (create_attribute td tdb) 0 as) w P"
proof (rule does_each_makes [where g = "attr_obj \<circ> attr_entry"])
  show "makes obj arr (create_attribute td tdb (0 + k) (as ! k)) w1 ((attr_obj \<circ> attr_entry) (as ! k))"
    if "k < length as" for k w1
    using create_attribute_makes [OF laws, of "as ! k"] that attrs by (auto simp: list_all_length)
qed (simp_all add: P)

lemma create_schema:
  assumes laws: "create_laws (objs td) (tdb_context tdb) obj arr"
    and dims: "list_all2 good_dim ds ns" and attrs: "list_all (\<lambda>a. ccAttr2TiledbAttrMap (aa_DataType a) \<noteq> None) as"
    and f: "\<And>domain hs w1. arr w1 = arr w \<Longrightarrow> obj w1 domain = Some (ODomain (map dim_entry ds)) \<Longrightarrow>
      stand_for obj w1 hs (map attr_obj (map attr_entry as)) \<Longrightarrow> ends (f domain hs) w1 P"
  shows "ends (io_bind (NewDomain (objs td) (tdb_context tdb)) (\<lambda>domain.
     io_bind (io_each (create_dimension td tdb) 0 ds) (\<lambda>tiledbDims.
     io_bind (AddDimensions (objs td) domain tiledbDims) (\<lambda>_.
     io_bind (io_each (create_attribute td tdb) 0 as) (\<lambda>tiledbAttrs. f domain tiledbAttrs))))) w P"
proof (rule ends_bind, rule does_makes [OF create_lawsD(1) [OF laws]], rule ends_bind,
    rule create_dimensions [OF laws dims], rule ends_bind)
  fix domain w1 hs w2
  assume w: "obj w1 domain = Some (ODomain [])" "arr w1 = arr w" "obj w1 \<subseteq>\<^sub>m obj w2" "arr w2 = arr w1"
    "stand_for obj w2 hs (map dim_obj (map dim_entry ds))"
  show "does (AddDimensions (objs td) domain hs) w2
     (\<lambda>_ w3. ends (io_bind (io_each (create_attribute td tdb) 0 as) (\<lambda>tiledbAttrs. f domain tiledbAttrs)) w3 P)"
  proof (rule does_sets [OF create_lawsD(3) [OF laws map_leD [OF w(3,1)] w(5)]], rule ends_bind, rule create_attributes [OF laws attrs])
    fix w3 hs' w4 assume w3: "obj w3 = (obj w2)(domain \<mapsto> ODomain ([] @ map dim_entry ds))" "arr w3 = arr w2"
      and w4: "obj w3 \<subseteq>\<^sub>m obj w4" "arr w4 = arr w3" "stand_for obj w4 hs' (map attr_obj (map attr_entry as))"
    then have "obj w4 domain = Some (ODomain (map dim_entry ds))"
      using map_leD [OF w4(1), of domain] by simp
    then show "ends (f domain hs') w4 P"
      using f w w3(2) w4 by simp
  qed
qed

text \<open>The second half: the array with this schema.\<close>

lemma new_schema:
  assumes laws: "create_laws (objs td) (tdb_context tdb) obj arr"
    and domain: "obj w domain = Some (ODomain dims)" and hs: "stand_for obj w hs (map attr_obj attrs)"
    and f: "\<And>s w'. obj w' s = Some (OSchema at dims attrs) \<Longrightarrow> arr w' = arr w \<Longrightarrow> ends (f s) w' P"
  shows "ends (io_bind (NewArraySchema (objs td) (tdb_context tdb) at) (\<lambda>s.
     io_bind (SetDomain (objs td) s domain) (\<lambda>_. io_bind (AddAttributes (objs td) s hs) (\<lambda>_. f s)))) w P"
proof (rule ends_bind, rule does_makes [OF create_lawsD(6) [OF laws]], rule ends_bind)
  fix s w1 assume w1: "obj w \<subseteq>\<^sub>m obj w1" "obj w1 s = Some (OSchema at [] [])" "arr w1 = arr w"
  have "OSchema at [] [] \<notin> set (map attr_obj attrs)"
    by auto
  note hs2 = stand_for_set [OF stand_for_le [OF hs w1(1)] _ w1(2) this]
  show "does (SetDomain (objs td) s domain) w1 (\<lambda>_ w2. ends (io_bind (AddAttributes (objs td) s hs) (\<lambda>_. f s)) w2 P)"
  proof (rule does_sets [OF create_lawsD(7) [OF laws w1(2) map_leD [OF w1(1) domain]]], rule ends_bind)
    fix w2 assume w2: "obj w2 = (obj w1)(s \<mapsto> OSchema at dims [])" "arr w2 = arr w1"
    then have "obj w2 s = Some (OSchema at dims [])"
      by simp
    from does_sets [OF create_lawsD(8) [OF laws this hs2 [OF w2(1)]]]
    show "does (AddAttributes (objs td) s hs) w2 (\<lambda>_ w3. ends (f s) w3 P)"
      using f w1(3) w2(2) by simp
  qed
qed

lemma store_array:
  assumes laws: "array_laws (objs td) ctx obj arr" and s: "obj w s = Some (OSchema at dims attrs)"
    and ok: "dims \<noteq> []" "attrs \<noteq> []" "distinct (map fst attrs)" and absent: "arr w uri = None"
  shows "does (io_bind (NewArray (objs td) ctx uri) (\<lambda>a. io_defer (ArrayClose (objs td) a) (ArrayCreate (objs td) a s))) w
     (\<lambda>_ w'. arr w' = (arr w)(uri \<mapsto> \<lparr>sa_type = at, sa_dims = dims, sa_attrs = attrs, sa_columns = []\<rparr>))"
    (is "does _ _ (\<lambda>_ w'. arr w' = ?arr)")
proof (rule does_bind, rule does_makes [OF array_lawsD(1) [OF laws]], rule does_defer)
  fix a w1 assume w1: "obj w \<subseteq>\<^sub>m obj w1" "obj w1 a = Some (OArray uri None)" "arr w1 = arr w"
  then have "arr w1 uri = None"
    using absent by simp
  note creates = array_lawsD(2) [OF laws w1(2) map_leD [OF w1(1) s] ok this]
  show "does (ArrayCreate (objs td) a s) w1 (\<lambda>_ w2. does (ArrayClose (objs td) a) w2 (\<lambda>_ w'. arr w' = ?arr))"
  proof (rule does_mono [OF creates], elim conjE)
    fix w2 assume w2: "obj w2 = obj w1" "arr w2 = (arr w1)(uri \<mapsto> \<lparr>sa_type = at, sa_dims = dims, sa_attrs = attrs, sa_columns = []\<rparr>)"
    show "does (ArrayClose (objs td) a) w2 (\<lambda>_ w'. arr w' = ?arr)"
      by (rule does_sets [OF array_lawsD(4) [OF laws, of w2 a uri None]]) (simp_all add: w1 w2)
  qed
qed

text \<open>A schema that cannot be stored, since there is an array already.\<close>

lemma store_array_refused:
  assumes laws: "array_laws (objs td) ctx obj arr" and s: "obj w s = Some x" and present: "arr w uri \<noteq> None"
  shows "fails (io_bind (NewArray (objs td) ctx uri) (\<lambda>a. io_defer (ArrayClose (objs td) a) (ArrayCreate (objs td) a s))) w
     (\<lambda>w'. arr w' = arr w)"
proof (rule fails_bind, rule does_makes [OF array_lawsD(1) [OF laws]], rule fails_defer)
  fix a w1 assume w1: "obj w \<subseteq>\<^sub>m obj w1" "obj w1 a = Some (OArray uri None)" "arr w1 = arr w"
  then have "arr w1 uri \<noteq> None"
    using present by simp
  from array_lawsD(7) [OF laws w1(2) map_leD [OF w1(1) s] this]
  show "fails (ArrayCreate (objs td) a s) w1 (\<lambda>w2. does (ArrayClose (objs td) a) w2 (\<lambda>_ w'. arr w' = arr w))"
    unfolding refuses_def
  proof (rule fails_mono)
    fix w2 assume w2: "obj w2 = obj w1 \<and> arr w2 = arr w1"
    then have "obj w2 a = Some (OArray uri None)"
      using w1(2) by simp
    from array_lawsD(4) [OF laws this] show "does (ArrayClose (objs td) a) w2 (\<lambda>_ w'. arr w' = arr w)"
      by (rule does_sets) (simp add: w1(3) w2)
  qed
qed

text \<open>A good description of an array: its schema is made, and then stored.\<close>

definition good_input :: "CreateArrayInput \<Rightarrow> nat list \<Rightarrow> bool" where
  "good_input input ns \<longleftrightarrow> dense_dims input ns \<and> list_all (\<lambda>a. ccAttr2TiledbAttrMap (aa_DataType a) \<noteq> None) (ca_Attributes input) \<and>
     ca_CellLayout input = ROWMAJOR \<and> ca_TileLayout input = ROWMAJOR"

lemma CreateArray_ends:
  assumes laws: "tiledb_laws td (tdb_context tdb) obj arr" and input: "good_input input ns"
    and store: "\<And>s w'. obj w' s = Some (OSchema TILEDB_DENSE (map dim_entry (ca_Dimensions input)) (map attr_entry (ca_Attributes input))) \<Longrightarrow>
      arr w' = arr w \<Longrightarrow> ends (io_bind (NewArray (objs td) (tdb_context tdb) (tdb_path tdb (ca_ArrayPath input))) (\<lambda>array.
        io_defer (ArrayClose (objs td) array) (ArrayCreate (objs td) array s))) w' Q"
  shows "ends (CreateArray td tdb input) w Q"
proof -
  note cl = tiledb_lawsD(1) [OF laws]
  have dense: "ca_ArrayType input = ARRAY_DENSE" and dims: "list_all2 good_dim (ca_Dimensions input) ns"
    and attrs: "list_all (\<lambda>a. ccAttr2TiledbAttrMap (aa_DataType a) \<noteq> None) (ca_Attributes input)"
    and layout: "ca_CellLayout input = ROWMAJOR" "ca_TileLayout input = ROWMAJOR"
    using input by (auto simp: good_input_def dense_dims_def)
  let ?schema = "OSchema TILEDB_DENSE (map dim_entry (ca_Dimensions input)) (map attr_entry (ca_Attributes input))"
  show ?thesis
    unfolding CreateArray_def layout dense eventStoreOrder2TileDbOrder_def LAYOUT_ORDER.case eventStoreType2TileDbType_def
      ARRAY_TYPE.case tdb_path_def [symmetric]
  proof (rule create_schema [OF cl dims attrs], rule new_schema [OF cl], assumption, assumption,
      rule ends_bind, rule does_ignore, rule does_tells [OF create_lawsD(9) [OF cl]], assumption,
      rule ends_bind, rule does_ignore, rule does_tells [OF create_lawsD(10) [OF cl]])
    fix s w2 w3
    assume "obj w2 s = Some ?schema" "obj w3 = obj w2"
    then show "obj w3 s = Some ?schema"
      by simp
  next
    fix w1 s w2 w3 w4
    assume "arr w1 = arr w" "obj w2 s = Some ?schema" "arr w2 = arr w1" "obj w3 = obj w2" "arr w3 = arr w2"
      "obj w4 = obj w3" "arr w4 = arr w3"
    then show "ends (io_bind (NewArray (objs td) (tdb_context tdb) (tdb_path tdb (ca_ArrayPath input))) (\<lambda>array.
        io_defer (ArrayClose (objs td) array) (ArrayCreate (objs td) array s))) w4 Q"
      by (intro store) simp_all
  qed
qed

lemma CreateArray_ok:
  assumes laws: "tiledb_laws td (tdb_context tdb) obj arr" and input: "good_input input ns"
    and absent: "arr w (tdb_path tdb (ca_ArrayPath input)) = None"
    and attrs: "ca_Attributes input \<noteq> []" "distinct (map aa_Name (ca_Attributes input))"
  shows "does (CreateArray td tdb input) w (\<lambda>_ w'. arr w' = (arr w)(tdb_path tdb (ca_ArrayPath input) \<mapsto>
    \<lparr>sa_type = TILEDB_DENSE, sa_dims = map dim_entry (ca_Dimensions input), sa_attrs = map attr_entry (ca_Attributes input),
      sa_columns = []\<rparr>))"
proof -
  have ne: "map dim_entry (ca_Dimensions input) \<noteq> []" "map attr_entry (ca_Attributes input) \<noteq> []"
    "distinct (map fst (map attr_entry (ca_Attributes input)))"
    using input attrs by (auto simp: good_input_def dense_dims_def attr_entry_def comp_def)
  have store: "does (io_bind (NewArray (objs td) (tdb_context tdb) (tdb_path tdb (ca_ArrayPath input))) (\<lambda>array.
        io_defer (ArrayClose (objs td) array) (ArrayCreate (objs td) array s))) w'
      (\<lambda>_ w'. arr w' = (arr w)(tdb_path tdb (ca_ArrayPath input) \<mapsto>
        \<lparr>sa_type = TILEDB_DENSE, sa_dims = map dim_entry (ca_Dimensions input), sa_attrs = map attr_entry (ca_Attributes input),
          sa_columns = []\<rparr>))"
    if "obj w' s = Some (OSchema TILEDB_DENSE (map dim_entry (ca_Dimensions input)) (map attr_entry (ca_Attributes input)))"
      "arr w' = arr w" for s w'
    using store_array [OF tiledb_lawsD(2) [OF laws] that(1) ne] absent that(2) by simp
  show ?thesis
    unfolding does_ends [symmetric] by (rule CreateArray_ends [OF laws input]) (unfold does_ends, rule store)
qed

lemma CreateArray_refused:
  assumes laws: "tiledb_laws td (tdb_context tdb) obj arr" and input: "good_input input ns"
    and present: "arr w (tdb_path tdb (ca_ArrayPath input)) \<noteq> None"
  shows "fails (CreateArray td tdb input) w (\<lambda>w'. arr w' = arr w)"
proof -
  have store: "fails (io_bind (NewArray (objs td) (tdb_context tdb) (tdb_path tdb (ca_ArrayPath input))) (\<lambda>array.
        io_defer (ArrayClose (objs td) array) (ArrayCreate (objs td) array s))) w' (\<lambda>w'. arr w' = arr w)"
    if "obj w' s = Some (OSchema TILEDB_DENSE (map dim_entry (ca_Dimensions input)) (map attr_entry (ca_Attributes input)))"
      "arr w' = arr w" for s w'
    using store_array_refused [OF tiledb_lawsD(2) [OF laws] that(1)] present that(2) by simp
  show ?thesis
    unfolding fails_ends [symmetric] by (rule CreateArray_ends [OF laws input]) (unfold fails_ends, rule store)
qed

end
