(* ===== verification/TileDb_Put.thy ===== *)
theory TileDb_Put
  imports TileDb_Create
begin

section \<open>TileDB event store: writing an array\<close>

text \<open>
  The buffers a query holds (\<open>holds_bufs\<close>) and what \<open>PutArray\<close> of \<^verbatim>\<open>tiledb_store.go\<close> leaves in the
  array, when the TileDB package behaves as documented.
\<close>

subsection \<open>The buffers of a query\<close>

text \<open>The buffers given so far: name, data and offsets, each named by its position.\<close>

type_synonym query_buffers = "(string \<times> go_any \<times> 64 word list option) list"

definition bufs_data :: "query_buffers \<Rightarrow> (nat \<times> string \<times> go_any) list" where
  "bufs_data bufs = map (\<lambda>(i, name, b, off). (i, name, b)) (enumerate 0 bufs)"

definition bufs_offs :: "query_buffers \<Rightarrow> (string \<times> nat \<times> 64 word list) list" where
  "bufs_offs bufs = concat (map (\<lambda>(i, name, b, off). case off of Some o' \<Rightarrow> [(name, i, o')] | None \<Rightarrow> []) (enumerate 0 bufs))"

definition holds_bufs :: "('w, 'h) obj_view \<Rightarrow> 'w world \<Rightarrow> 'h \<Rightarrow> string \<Rightarrow> tdb_mode \<Rightarrow> int list \<Rightarrow> query_buffers \<Rightarrow> bool" where
  "holds_bufs obj w q uri m r bufs \<longleftrightarrow>
     (\<exists>os. obj w q = Some (OQuery uri m r (bufs_data bufs) os) \<and> map_of os = map_of (bufs_offs bufs))"

lemma bufs_snoc:
  "bufs_data (bufs @ [(name, b, off)]) = bufs_data bufs @ [(length bufs, name, b)]"
  "bufs_offs (bufs @ [(name, b, off)]) = bufs_offs bufs @ (case off of Some o' \<Rightarrow> [(name, length bufs, o')] | None \<Rightarrow> [])"
  by (simp_all add: bufs_data_def bufs_offs_def enumerate_append_eq)

lemma bufs_names:
  "(fst \<circ> snd) ` set (bufs_data bufs) = fst ` set bufs"
  "name \<notin> fst ` set bufs \<Longrightarrow> map_of (bufs_offs bufs) name = None"
proof -
  show "(fst \<circ> snd) ` set (bufs_data bufs) = fst ` set bufs"
  proof (induction bufs rule: rev_induct)
    case (snoc x bufs)
    then show ?case by (cases x) (simp add: bufs_snoc)
  qed (simp add: bufs_data_def)
  show "name \<notin> fst ` set bufs \<Longrightarrow> map_of (bufs_offs bufs) name = None"
  proof (induction bufs rule: rev_induct)
    case (snoc x bufs)
    then show ?case by (cases x) (auto simp: bufs_snoc map_add_def split: option.splits)
  qed (simp add: bufs_offs_def)
qed

lemma bufs_offs_nth:
  "distinct (map fst bufs) \<Longrightarrow> j < length bufs \<Longrightarrow> bufs ! j = (name, b, off) \<Longrightarrow> map_of (bufs_offs bufs) name = map_option (Pair j) off"
proof (induction bufs rule: rev_induct)
  case (snoc x bufs)
  obtain n' b' off' where x: "x = (n', b', off')" by (cases x)
  show ?case
  proof (cases "j < length bufs")
    case True
    then have "bufs ! j = (name, b, off)"
      using snoc.prems(3) by (simp add: nth_append)
    moreover from this True have "name \<in> fst ` set bufs"
      by (force simp: in_set_conv_nth)
    then have "name \<noteq> n'"
      using snoc.prems(1) by (auto simp: x)
    ultimately show ?thesis
      using snoc True by (auto simp: x bufs_snoc map_add_def split: option.splits)
  next
    case False
    then have j: "j = length bufs" "n' = name" "off' = off"
      using snoc.prems by (auto simp: x nth_append)
    then have "map_of (bufs_offs bufs) name = None"
      using snoc.prems(1) by (intro bufs_names(2)) (simp add: x)
    then show ?thesis
      by (cases off) (simp_all add: x j bufs_snoc map_add_def)
  qed
qed simp

text \<open>One more buffer, without and with offsets.\<close>

lemma holds_bufs_data:
  assumes laws: "query_laws (qrys td) ctx obj arr" and q: "holds_bufs obj w q uri m r bufs" and name: "name \<notin> fst ` set bufs"
    and P: "\<And>w'. holds_bufs obj w' q uri m r (bufs @ [(name, b, None)]) \<Longrightarrow> arr w' = arr w \<Longrightarrow> P () w'"
  shows "does (SetDataBuffer (qrys td) q name (length bufs) b) w P"
proof -
  obtain os where os: "obj w q = Some (OQuery uri m r (bufs_data bufs) os)" "map_of os = map_of (bufs_offs bufs)"
    using q by (auto simp: holds_bufs_def)
  have fresh: "name \<notin> (fst \<circ> snd) ` set (bufs_data bufs)"
    using name by (simp only: bufs_names not_False_eq_True)
  show ?thesis
    by (rule does_sets [OF query_lawsD(6) [OF laws os(1) fresh]]) (use os in \<open>auto simp: holds_bufs_def bufs_snoc intro!: P\<close>)
qed

lemma holds_bufs_offsets:
  assumes laws: "query_laws (qrys td) ctx obj arr" and q: "holds_bufs obj w q uri m r (bufs @ [(name, b, off)])"
    and name: "name \<notin> fst ` set bufs"
    and P: "\<And>w'. holds_bufs obj w' q uri m r (bufs @ [(name, b, Some o')]) \<Longrightarrow> arr w' = arr w \<Longrightarrow> P () w'"
  shows "does (SetOffsetsBuffer (qrys td) q name (length bufs) o') w P"
proof -
  obtain os where os: "obj w q = Some (OQuery uri m r (bufs_data (bufs @ [(name, b, off)])) os)"
    "map_of os = map_of (bufs_offs (bufs @ [(name, b, off)]))"
    using q by (auto simp: holds_bufs_def)
  have "map_of (bufs_offs bufs) name = None"
    by (rule bufs_names(2) [OF name])
  then have "map_of (AList.update name (length bufs, o') os) = map_of (bufs_offs (bufs @ [(name, b, Some o')]))"
    using os(2) by (auto simp: update_conv' bufs_snoc fun_eq_iff map_add_def split: option.splits)
  moreover have "bufs_data (bufs @ [(name, b, off)]) = bufs_data (bufs @ [(name, b, Some o')])"
    by (simp add: bufs_snoc)
  ultimately show ?thesis
    by (intro does_sets [OF query_lawsD(7) [OF laws os(1)]] P) (auto simp: holds_bufs_def)
qed

subsection \<open>Writing\<close>

definition column_any :: "array_column \<Rightarrow> go_any" where
  "column_any c = (case column_cells c of (k, cs) \<Rightarrow> AnySlice k cs)"

definition put_bufs :: "(string \<times> array_column) list \<Rightarrow> query_buffers" where
  "put_bufs cols = map (\<lambda>(name, c). (name, column_any c, column_offsets c)) cols"

lemma put_bufs_simps [simp]:
  "length (put_bufs cols) = length cols" "map fst (put_bufs cols) = map fst cols" "fst ` set (put_bufs cols) = fst ` set cols"
  by (auto simp: put_bufs_def comp_def split_beta image_image)

lemma put_buffer_ok:
  assumes laws: "query_laws (qrys td) ctx obj arr" and q: "holds_bufs obj w q uri m r bufs" and name: "fst x \<notin> fst ` set bufs"
    and P: "\<And>w'. holds_bufs obj w' q uri m r (bufs @ [(fst x, column_any (snd x), column_offsets (snd x))]) \<Longrightarrow> arr w' = arr w \<Longrightarrow> P () w'"
  shows "does (put_buffer td q (length bufs) (column_buffer x)) w P"
proof -
  obtain nm c where x: "x = (nm, c)" by (cases x)
  have name: "nm \<notin> fst ` set bufs" using name by (simp add: x)
  have buf: "pb_AttrName (column_buffer x) = nm" "pb_Buffer (column_buffer x) = column_any c" "pb_Offsets (column_buffer x) = column_offsets c"
    by (cases c; simp add: x column_any_def)+
  show ?thesis
    unfolding put_buffer_def buf
  proof (rule does_bind, rule holds_bufs_data [OF laws q name])
    fix w1 assume w1: "holds_bufs obj w1 q uri m r (bufs @ [(nm, column_any c, None)])" "arr w1 = arr w"
    then show "does (case column_offsets c of Some offsets \<Rightarrow> SetOffsetsBuffer (qrys td) q nm (length bufs) offsets
        | None \<Rightarrow> io_return ()) w1 P"
      using P [of w1] holds_bufs_offsets [OF laws w1(1) name] P
      by (cases "column_offsets c") (auto simp: x)
  qed
qed

lemma fst_nth_fresh: "distinct (map fst xs) \<Longrightarrow> k < length xs \<Longrightarrow> fst (xs ! k) \<notin> fst ` set (take k xs)"
  by (auto simp: in_set_conv_nth distinct_conv_nth) (metis fst_conv less_trans nat_neq_iff nth_map)

lemma put_buffers_ok:
  assumes laws: "query_laws (qrys td) ctx obj arr" and q: "holds_bufs obj w q uri m r []" and names: "distinct (map fst cols)"
    and P: "\<And>us w'. holds_bufs obj w' q uri m r (put_bufs cols) \<Longrightarrow> arr w' = arr w \<Longrightarrow> P us w'"
  shows "does (io_each (put_buffer td q) 0 (map column_buffer cols)) w P"
proof (rule does_each [where I = "\<lambda>us w'. holds_bufs obj w' q uri m r (put_bufs (take (length us) cols)) \<and> arr w' = arr w"])
  fix k w1 and us :: "unit list"
  assume k: "k < length (map column_buffer cols)" "length us = k"
    and I: "holds_bufs obj w1 q uri m r (put_bufs (take (length us) cols)) \<and> arr w1 = arr w"
  then have k': "k < length cols" "k = length (put_bufs (take k cols))"
    by simp_all
  have "fst (cols ! k) \<notin> fst ` set (take k cols)"
    by (rule fst_nth_fresh [OF names k'(1)])
  then have fresh: "fst (cols ! k) \<notin> fst ` set (put_bufs (take k cols))"
    by simp
  have step: "put_bufs (take k cols) @ [(fst (cols ! k), column_any (snd (cols ! k)), column_offsets (snd (cols ! k)))]
      = put_bufs (take (Suc k) cols)"
    using k'(1) by (simp add: put_bufs_def take_Suc_conv_app_nth split_beta)
  have "does (put_buffer td q (length (put_bufs (take k cols))) (column_buffer (cols ! k))) w1
    (\<lambda>u w2. holds_bufs obj w2 q uri m r (put_bufs (take (length (us @ [u])) cols)) \<and> arr w2 = arr w)"
    by (rule put_buffer_ok [OF laws _ fresh]) (use I k step in auto)
  then show "does (put_buffer td q (0 + k) (map column_buffer cols ! k)) w1
    (\<lambda>u w2. holds_bufs obj w2 q uri m r (put_bufs (take (length (us @ [u])) cols)) \<and> arr w2 = arr w)"
    using k' k by simp
qed (use q P in \<open>simp_all add: put_bufs_def\<close>)

text \<open>What a valid write or read leaves in the query matches what the package asks for.\<close>

lemma put_bufs_offs:
  assumes "map_of os = map_of (bufs_offs (put_bufs cols))" and "distinct (map fst cols)" and "(name, c) \<in> set cols"
  shows "map_option snd (map_of os name) = column_offsets c"
proof -
  obtain j where j: "j < length cols" "cols ! j = (name, c)"
    using assms(3) by (auto simp: in_set_conv_nth)
  then have "map_of (bufs_offs (put_bufs cols)) name = map_option (Pair j) (column_offsets c)"
    using assms(2) by (intro bufs_offs_nth) (simp_all del: map_map, simp add: put_bufs_def)
  then show ?thesis
    by (simp add: assms(1) option.map_comp comp_def option.map_ident)
qed

lemma put_bufs_data: "map (\<lambda>(i, name, b). (name, b)) (bufs_data (put_bufs cols)) = map (\<lambda>(name, c). (name, column_any c)) cols"
proof -
  have "map (\<lambda>(i, name, b). (name, b)) (bufs_data bufs) = map (\<lambda>(name, b, off). (name, b)) bufs" for bufs
  proof (induction bufs rule: rev_induct)
    case (snoc x bufs)
    then show ?case by (cases x) (simp add: bufs_snoc)
  qed (simp add: bufs_data_def)
  then show ?thesis
    by (simp add: put_bufs_def split_beta comp_def)
qed

lemma columns_fit_nth:
  assumes "columns_fit n attrs cols"
  shows "length cols = length attrs"
    and "j < length cols \<Longrightarrow> fst (cols ! j) = aa_Name (attrs ! j) \<and> column_fits n (aa_DataType (attrs ! j)) (snd (cols ! j))"
  using assms unfolding columns_fit_def by (auto simp: list_all2_conv_all_nth split_beta)

lemma columns_fit_in: "columns_fit n attrs cols \<Longrightarrow> (name, c) \<in> set cols \<Longrightarrow> \<exists>t. column_fits n t c"
  using columns_fit_nth(2) [of n attrs cols] by (metis in_set_conv_nth snd_conv)

lemma fits_names: "columns_fit n attrs cols \<Longrightarrow> map fst cols = map aa_Name attrs"
  using columns_fit_nth [of n attrs cols] by (simp add: list_eq_iff_nth_eq)

lemma fits_cells: "columns_fit n attrs cols \<Longrightarrow> (name, Cells k cs) \<in> set cols \<Longrightarrow> length cs = n"
  by (drule (1) columns_fit_in) auto

lemma fits_strings: "columns_fit n attrs cols \<Longrightarrow> (name, Strings ss) \<in> set cols \<Longrightarrow> length ss = n \<and> fits_memory ss"
proof -
  assume fit: "columns_fit n attrs cols" and "(name, Strings ss) \<in> set cols"
  from columns_fit_in [OF this] have n: "length ss = n" "n * 8 \<le> 2 ^ 48" "n * length (concat ss) \<le> 2 ^ 48"
    by auto
  have "length (concat ss) \<le> n * length (concat ss)"
    using fit by (cases n) (simp_all add: columns_fit_def)
  then have "length (concat ss) \<le> 2 ^ 48"
    using n(3) by (rule le_trans)
  then show ?thesis
    using n(1,2) by (simp add: fits_memory_def length_concat_total [symmetric])
qed

lemma put_writes:
  assumes fit: "columns_fit (prod_list (sa_sizes sa)) attrs cols" and sa: "map fst (sa_attrs sa) = map aa_Name attrs"
    and os: "map_of os = map_of (bufs_offs (put_bufs cols))"
  shows "writes_columns (bufs_data (put_bufs cols)) os sa cols"
proof -
  have names: "distinct (map fst cols)"
    using fit fits_names [OF fit] by (simp add: columns_fit_def)
  have "list_all (\<lambda>(name, c). map_option snd (map_of os name) = column_offsets c) cols"
    using put_bufs_offs [OF os names] by (auto simp: list_all_iff)
  moreover have "list_all (\<lambda>(name, c). case c of Cells k cs \<Rightarrow> length cs = prod_list (sa_sizes sa)
      | Strings ss \<Rightarrow> length ss = prod_list (sa_sizes sa) \<and> fits_memory ss) cols"
    using fits_strings [OF fit] fits_cells [OF fit] by (auto simp: list_all_iff split: array_column.split)
  ultimately show ?thesis
    using put_bufs_data [of cols] fits_names [OF fit] sa by (simp add: writes_columns_def column_any_def split_beta)
qed

text \<open>Opening an array, a query on it, and its range.\<close>

lemma open_array:
  assumes laws: "array_laws (objs td) ctx obj arr" and uri: "arr w uri \<noteq> None"
    and f: "\<And>a w'. obj w' a = Some (OArray uri (Some m)) \<Longrightarrow> arr w' = arr w \<Longrightarrow> does (f a) w' P"
  shows "does (io_bind (NewArray (objs td) ctx uri) (\<lambda>a. io_bind (ArrayOpen (objs td) a m) (\<lambda>_. f a))) w P"
proof (rule does_bind, rule does_makes [OF array_lawsD(1) [OF laws]], rule does_bind)
  fix a w1 assume w1: "obj w1 a = Some (OArray uri None)" "arr w1 = arr w"
  then have "arr w1 uri \<noteq> None"
    using uri by simp
  from does_sets [OF array_lawsD(3) [OF laws w1(1) this]] w1(2)
  show "does (ArrayOpen (objs td) a m) w1 (\<lambda>_ w'. does (f a) w' P)"
    by (simp add: f)
qed

lemma new_query:
  assumes laws: "query_laws (qrys td) ctx obj arr" and a: "obj w a = Some (OArray uri (Some m))"
    and f: "\<And>q w'. obj w' a = Some (OArray uri (Some m)) \<Longrightarrow> obj w' q = Some (OQuery uri m [] [] []) \<Longrightarrow> arr w' = arr w \<Longrightarrow>
      does (f q) w' P"
  shows "does (io_bind (NewQuery (qrys td) ctx a) f) w P"
  by (rule does_bind, rule does_makes [OF query_lawsD(1) [OF laws a]], rule f) (use a in \<open>auto intro: map_leD\<close>)

lemma set_layout:
  assumes laws: "query_laws (qrys td) ctx obj arr" and q: "obj w q = Some (OQuery uri m r ds os)"
    and f: "\<And>w'. obj w' = obj w \<Longrightarrow> arr w' = arr w \<Longrightarrow> does (f ()) w' P"
  shows "does (io_bind (SetLayout (qrys td) q TILEDB_ROW_MAJOR) f) w P"
  by (rule does_bind, rule does_tells [OF query_lawsD(5) [OF laws q]]) (simp add: f)

lemma put_range_ok:
  assumes laws: "query_laws (qrys td) ctx obj arr"
    and a: "obj w a = Some (OArray uri (Some m))" and q: "obj w q = Some (OQuery uri m r0 [] [])"
    and P: "\<And>w'. holds_bufs obj w' q uri m r [] \<Longrightarrow> arr w' = arr w \<Longrightarrow> P () w'"
  shows "does (put_range td a q r) w P"
  unfolding put_range_def
proof (rule does_bind, rule does_makes [OF query_lawsD(2) [OF laws a]], goal_cases)
  case (1 s w1)
  then have q1: "obj w1 q = Some (OQuery uri m r0 [] [])" and ne: "q \<noteq> s"
    using q map_leD [OF 1(2) q] by auto
  show ?case
  proof (rule does_bind, rule does_sets [OF query_lawsD(3) [OF laws 1(3)]], goal_cases)
    case (1 w2)
    then have w2: "obj w2 q = Some (OQuery uri m r0 [] [])" "obj w2 s = Some (OSubarray r)"
      using q1 ne by simp_all
    show ?case
      by (rule does_sets [OF query_lawsD(4) [OF laws w2]])
        (use 1 \<open>arr w1 = arr w\<close> in \<open>auto simp: holds_bufs_def bufs_data_def bufs_offs_def intro!: P\<close>)
  qed
qed

text \<open>The buffers are handed to the query, and it is submitted.\<close>

lemma whole_sizes_ok: "list_all (\<lambda>(d, lo, hi). lo = 1 \<and> 0 < hi) (sa_dims sa) \<Longrightarrow> box_ok (sa_sizes sa) (whole (sa_sizes sa))"
  by (rule whole_ok) (auto simp: sa_sizes_def list_all_iff)

lemma submit_columns:
  assumes ql: "query_laws (qrys td) ctx obj arr" and sl: "submit_laws (qrys td) obj arr"
    and q: "holds_bufs obj w q uri TILEDB_WRITE (range_ints (whole (sa_sizes sa))) []"
    and sa: "arr w uri = Some sa" "sa_type sa = TILEDB_DENSE" "list_all (\<lambda>(d, lo, hi). lo = 1 \<and> 0 < hi) (sa_dims sa)"
      "map fst (sa_attrs sa) = map aa_Name attrs"
    and fit: "columns_fit (prod_list (sa_sizes sa)) attrs cols"
  shows "does (io_bind (io_each (put_buffer td q) 0 (map column_buffer cols)) (\<lambda>_. io_bind (Submit (qrys td) q) (\<lambda>_. io_return ()))) w
    (\<lambda>_ w'. arr w' = (arr w)(uri \<mapsto> sa \<lparr>sa_columns := cols\<rparr>))"
proof (rule does_bind, rule put_buffers_ok [OF ql q])
  show "distinct (map fst cols)"
    using fit fits_names [OF fit] by (simp add: columns_fit_def)
  fix us w1 assume w1: "holds_bufs obj w1 q uri TILEDB_WRITE (range_ints (whole (sa_sizes sa))) (put_bufs cols)" "arr w1 = arr w"
  then obtain os where os: "obj w1 q = Some (OQuery uri TILEDB_WRITE (range_ints (whole (sa_sizes sa))) (bufs_data (put_bufs cols)) os)"
    "map_of os = map_of (bufs_offs (put_bufs cols))"
    by (auto simp: holds_bufs_def)
  have "range_query arr w1 uri (range_ints (whole (sa_sizes sa))) sa (whole (sa_sizes sa))"
    using sa w1(2) whole_sizes_ok [OF sa(3)] by (auto simp: range_query_def list_all_iff)
  from submit_lawsD(1) [OF sl os(1) this put_writes [OF fit sa(4) os(2)]]
  show "does (io_bind (Submit (qrys td) q) (\<lambda>_. io_return ())) w1 (\<lambda>_ w'. arr w' = (arr w)(uri \<mapsto> sa \<lparr>sa_columns := cols\<rparr>))"
    using w1(2) by (auto simp: does_bind_iff elim!: does_mono)
qed

lemma PutArray_ok:
  assumes laws: "tiledb_laws td (tdb_context tdb) obj arr" and sa: "arr w (tdb_path tdb p) = Some sa" "sa_type sa = TILEDB_DENSE"
      "list_all (\<lambda>(d, lo, hi). lo = 1 \<and> 0 < hi) (sa_dims sa)" "map fst (sa_attrs sa) = map aa_Name attrs"
    and fit: "columns_fit (prod_list (sa_sizes sa)) attrs cols"
  shows "does (PutArray td tdb \<lparr>pa_Buffers = map column_buffer cols, pa_BufferRange = range_ints (whole (sa_sizes sa)), pa_DataPath = p,
      pa_ArrayType = ARRAY_DENSE, pa_Coords = [], pa_PutLayout = ROWMAJOR\<rparr>) w
    (\<lambda>_ w'. arr w' = (arr w)(tdb_path tdb p \<mapsto> sa \<lparr>sa_columns := cols\<rparr>))"
proof -
  note al = tiledb_lawsD(2) [OF laws] and ql = tiledb_lawsD(4) [OF laws] and sl = tiledb_lawsD(5) [OF laws]
  have uri: "arr w (tdb_path tdb p) \<noteq> None"
    using sa(1) by simp
  show ?thesis
    unfolding PutArray_def PutArrayInput.simps eventStoreOrder2TileDbOrder_def LAYOUT_ORDER.case tdb_path_def [symmetric]
      simp_thms if_True
  proof (rule open_array [OF al uri], rule new_query [OF ql], assumption, rule does_bind, rule set_layout [OF ql], assumption)
    fix a w1 q w2 w3
    assume w: "arr w1 = arr w" "obj w2 a = Some (OArray (tdb_path tdb p) (Some TILEDB_WRITE))"
      "obj w2 q = Some (OQuery (tdb_path tdb p) TILEDB_WRITE [] [] [])" "arr w2 = arr w1" "obj w3 = obj w2" "arr w3 = arr w2"
    show "does (put_range td a q (range_ints (whole (sa_sizes sa)))) w3 (\<lambda>_ w'. does (io_bind (io_each (put_buffer td q) 0 (map column_buffer cols))
        (\<lambda>_. io_bind (Submit (qrys td) q) (\<lambda>_. io_return ()))) w'
        (\<lambda>_ w'. arr w' = (arr w)(tdb_path tdb p \<mapsto> sa \<lparr>sa_columns := cols\<rparr>)))"
    proof (rule put_range_ok [OF ql])
      fix w4 assume w4: "holds_bufs obj w4 q (tdb_path tdb p) TILEDB_WRITE (range_ints (whole (sa_sizes sa))) []" "arr w4 = arr w3"
      then have "arr w4 = arr w" "arr w4 (tdb_path tdb p) = Some sa"
        using w sa(1) by simp_all
      then show "does (io_bind (io_each (put_buffer td q) 0 (map column_buffer cols)) (\<lambda>_. io_bind (Submit (qrys td) q) (\<lambda>_. io_return ()))) w4
          (\<lambda>_ w'. arr w' = (arr w)(tdb_path tdb p \<mapsto> sa \<lparr>sa_columns := cols\<rparr>))"
        using submit_columns [OF ql sl w4(1) _ sa(2,3,4) fit] by simp
    qed (use w in simp_all)
  qed
qed

end
