(* ===== verification/TileDb_Get.thy ===== *)
theory TileDb_Get
  imports TileDb_Put
begin

section \<open>TileDB event store: reading an array\<close>

text \<open>
  \<open>getArraySchema\<close>, the buffers \<open>GetArray\<close> allocates, and the columns it returns, when the TileDB
  package behaves as documented.
\<close>

subsection \<open>The schema of a loaded array\<close>

lemma tells_bind:
  assumes "tells obj arr m w P" and "\<And>x w'. P x \<Longrightarrow> obj w' = obj w \<Longrightarrow> arr w' = arr w \<Longrightarrow> tells obj arr (f x) w' Q"
  shows "tells obj arr (io_bind m f) w Q"
  unfolding tells_def
proof (rule does_bind, rule does_tells [OF assms(1)])
  fix x w' assume "P x" "obj w' = obj w" "arr w' = arr w"
  then show "does (f x) w' (\<lambda>x w'. Q x \<and> obj w' = obj w \<and> arr w' = arr w)"
    using assms(2) [of x w'] by (simp add: tells_def)
qed

lemma tells_return [simp]: "tells obj arr (io_return x) w P \<longleftrightarrow> P x"
  by (simp add: tells_def)

lemma tells_res: "r = Ok x \<Longrightarrow> P x \<Longrightarrow> tells obj arr (io_res r) w P"
  by (simp add: tells_def does_res)

lemma tells_each:
  assumes "\<And>k w1. k < length xs \<Longrightarrow> obj w1 = obj w \<Longrightarrow> arr w1 = arr w \<Longrightarrow> tells obj arr (f (i + k) (xs ! k)) w1 (\<lambda>y. y = g k)"
  shows "tells obj arr (io_each f i xs) w (\<lambda>ys. ys = map g [0..<length xs])"
  unfolding tells_def
proof (rule does_each [where I = "\<lambda>ys w'. ys = map g [0..<length ys] \<and> obj w' = obj w \<and> arr w' = arr w"])
  fix k w1 and ys :: "'d list"
  assume k: "k < length xs" "length ys = k" and I: "ys = map g [0..<length ys] \<and> obj w1 = obj w \<and> arr w1 = arr w"
  then show "does (f (i + k) (xs ! k)) w1 (\<lambda>y w2. ys @ [y] = map g [0..<length (ys @ [y])] \<and> obj w2 = obj w \<and> arr w2 = arr w)"
    using assms [of k w1] by (auto simp: tells_def elim!: does_mono)
qed auto

lemma schema_attribute_tells:
  assumes "schema_laws (schs td) obj arr" and "obj w h = Some (attr_obj e)" and "entry_ok e"
  shows "tells obj arr (schema_attribute td i h) w (\<lambda>x. x = (fst e, aa_DataType (entry_attr e)))"
proof -
  obtain n t v where e: "e = (n, t, v)" by (cases e)
  then obtain c where c: "tileDbType2CcTypeLookup t = Some c"
    using assms(3) by (auto simp: entry_ok_def)
  have h: "obj w' h = Some (OAttr n t v)" if "obj w' = obj w" for w'
    using assms(2) that by (simp add: e)
  show ?thesis
    unfolding schema_attribute_def
    by (rule tells_bind [OF schema_lawsD(4) [OF assms(1) h]], simp,
        rule tells_bind [OF schema_lawsD(5) [OF assms(1) h]]) (simp_all add: c e entry_attr_def)
qed

lemma schema_attributes_tells:
  assumes "schema_laws (schs td) obj arr" and "stand_for obj w hs (map attr_obj as)" and "list_all entry_ok as"
  shows "tells obj arr (io_each (schema_attribute td) 0 hs) w (\<lambda>ys. ys = map (\<lambda>e. (fst e, aa_DataType (entry_attr e))) as)"
proof -
  have len: "length hs = length as" and nth: "k < length hs \<Longrightarrow> obj w (hs ! k) = Some (attr_obj (as ! k))" for k
    using assms(2) by (auto simp: stand_for_def list_all2_conv_all_nth)
  have "tells obj arr (io_each (schema_attribute td) 0 hs) w
      (\<lambda>ys. ys = map (\<lambda>k. (fst (as ! k), aa_DataType (entry_attr (as ! k)))) [0..<length hs])"
    by (rule tells_each, rule schema_attribute_tells [OF assms(1)])
      (use nth len assms(3) in \<open>auto simp: list_all_length\<close>)
  moreover have "map (\<lambda>k. (fst (as ! k), aa_DataType (entry_attr (as ! k)))) [0..<length hs]
      = map (\<lambda>e. (fst e, aa_DataType (entry_attr e))) as"
    by (rule nth_equalityI) (simp_all add: len)
  ultimately show ?thesis by simp
qed

text \<open>A call whose error is caught; then the range and the name of every dimension.\<close>

lemma does_catch_bind: "does m w (\<lambda>x w'. does (f (Inr x)) w' P) \<Longrightarrow> does (io_bind (io_catch m) f) w P"
  by (rule does_bind, rule does_catch)

lemma sint_word64: "- (2 ^ 63) \<le> x \<Longrightarrow> x < 2 ^ 63 \<Longrightarrow> sint (word_of_int x :: 64 word) = x"
  by (simp add: int_word_sint)

definition dim_bounds :: "(string \<times> int \<times> int) list \<Rightarrow> int list" where
  "dim_bounds ds = concat (map (\<lambda>(d, lo, hi). [lo, hi]) ds)"

definition dims_int64 :: "(string \<times> int \<times> int) list \<Rightarrow> bool" where
  "dims_int64 ds \<longleftrightarrow> list_all (\<lambda>(d, lo, hi). - (2 ^ 63) \<le> lo \<and> lo < 2 ^ 63 \<and> - (2 ^ 63) \<le> hi \<and> hi < 2 ^ 63) ds"

lemma length_dim_bounds [simp]: "length (dim_bounds ds) = 2 * length ds"
  by (simp add: dim_bounds_def length_concat comp_def split_beta sum_list_triv)

lemma dim_bounds_step:
  assumes "i < length ds" and "ds ! i = (d, lo, hi)"
  shows "(dim_bounds (take i ds) @ replicate (2 * Suc k) 0)[2 * i := lo, 2 * i + 1 := hi] = dim_bounds (take (Suc i) ds) @ replicate (2 * k) 0"
    and "(map fst (take i ds) @ replicate (Suc k) [])[i := d] = map fst (take (Suc i) ds) @ replicate k []"
  using assms by (simp_all add: take_Suc_conv_app_nth list_update_append dim_bounds_def length_concat comp_def split_beta sum_list_triv)

text \<open>One turn of the loop over the dimensions.\<close>

lemma domain_turn:
  assumes laws: "schema_laws (schs td) obj arr" and dm: "obj w dm = Some (ODomain ds)" and i: "i < length ds" "ds ! i = (d, lo, hi)"
    and rng: "dims_int64 ds"
    and turn: "\<And>w'. obj w \<subseteq>\<^sub>m obj w' \<Longrightarrow> arr w' = arr w \<Longrightarrow>
      does (domain_loop td dm (Suc i) n (brange[2 * i := lo, 2 * i + 1 := hi]) (dnames[i := d])) w' P"
  shows "does (domain_loop td dm i (Suc n) brange dnames) w P"
proof -
  have "makes obj arr (DimensionFromIndex (schs td) dm i) w (ODim d lo hi)"
    using schema_lawsD(8) [OF laws dm i(1)] i(2) by simp
  then show ?thesis
    unfolding domain_loop.simps
  proof (rule does_catch_bind [OF does_makes], simp only: sum.case, goal_cases)
    case (1 dim w1)
    note w1 = 1
    show ?case
    proof (rule does_catch_bind, rule does_tells [OF schema_lawsD(9) [OF laws w1(3)]], simp only: sum.case Let_def, goal_cases)
      case (1 x w2)
      then have w2: "obj w2 dim = Some (ODim d lo hi)"
        using w1 by simp
      note eqs = 1
      show ?case
      proof (rule does_catch_bind, rule does_tells [OF schema_lawsD(10) [OF laws w2]], simp only: sum.case, goal_cases)
        case (1 y w3)
        have "does (domain_loop td dm (Suc i) n (brange[2 * i := lo, 2 * i + 1 := hi]) (dnames[i := d])) w3 P"
          using w1 eqs 1 by (intro turn) auto
        moreover have "- (2 ^ 63) \<le> lo" "lo < 2 ^ 63" "- (2 ^ 63) \<le> hi" "hi < 2 ^ 63"
          using rng nth_mem [OF i(1)] by (auto simp: dims_int64_def list_all_iff i(2))
        ultimately show ?case
          by (simp add: does_bind_iff go_index_def int64_cell_def io_res_def does_lift sint_word64)
      qed
    qed
  qed
qed

lemma domain_loop_ok:
  assumes laws: "schema_laws (schs td) obj arr" and rng: "dims_int64 ds"
    and P: "\<And>w'. obj w \<subseteq>\<^sub>m obj w' \<Longrightarrow> arr w' = arr w \<Longrightarrow> P (dim_bounds ds, map fst ds) w'"
  shows "obj w1 dm = Some (ODomain ds) \<Longrightarrow> obj w \<subseteq>\<^sub>m obj w1 \<Longrightarrow> arr w1 = arr w \<Longrightarrow> i + k = length ds \<Longrightarrow>
    does (domain_loop td dm i k (dim_bounds (take i ds) @ replicate (2 * k) 0) (map fst (take i ds) @ replicate k [])) w1 P"
proof (induction k arbitrary: i w1)
  case 0
  then show ?case
    using P by simp
next
  case (Suc k)
  then have i: "i < length ds" by simp
  obtain d lo hi where d: "ds ! i = (d, lo, hi)" by (cases "ds ! i")
  show ?case
  proof (rule domain_turn [OF laws Suc.prems(1) i d rng], unfold dim_bounds_step [OF i d])
    fix w2 assume "obj w1 \<subseteq>\<^sub>m obj w2" "arr w2 = arr w1"
    then show "does (domain_loop td dm (Suc i) k (dim_bounds (take (Suc i) ds) @ replicate (2 * k) 0)
        (map fst (take (Suc i) ds) @ replicate k [])) w2 P"
      using Suc.prems by (intro Suc.IH) (auto intro: map_le_trans map_leD)
  qed
qed

lemma schema_domain_ok:
  assumes laws: "schema_laws (schs td) obj arr" and s: "obj w s = Some (OSchema at ds as)" and rng: "dims_int64 ds"
    and P: "\<And>w'. obj w \<subseteq>\<^sub>m obj w' \<Longrightarrow> arr w' = arr w \<Longrightarrow> P (dim_bounds ds, map fst ds) w'"
  shows "does (schema_domain td s) w P"
  unfolding schema_domain_def
proof (rule does_catch_bind, rule does_makes [OF schema_lawsD(6) [OF laws s]], simp only: sum.case, goal_cases)
  case (1 dm w1)
  note w1 = 1
  show ?case
  proof (rule does_catch_bind, rule does_tells [OF schema_lawsD(7) [OF laws w1(3)]], simp only: sum.case, goal_cases)
    case (1 x w2)
    then have w2: "obj w2 dm = Some (ODomain ds)" "obj w \<subseteq>\<^sub>m obj w2" "arr w2 = arr w"
      using w1 by simp_all
    have "does (domain_loop td dm 0 (length ds) (dim_bounds (take 0 ds) @ replicate (2 * length ds) 0)
        (map fst (take 0 ds) @ replicate (length ds) [])) w2 P"
      by (rule domain_loop_ok [OF laws rng _ w2]) (simp_all add: P)
    then show ?case
      by (simp add: 1(1) dim_bounds_def mult.commute)
  qed
qed

lemma getArraySchema_ok:
  assumes laws: "schema_laws (schs td) obj arr" and a: "obj w a = Some (OArray uri (Some m))"
    and sa: "arr w uri = Some sa" "sa_type sa = TILEDB_DENSE" "list_all entry_ok (sa_attrs sa)" "dims_int64 (sa_dims sa)"
    and P: "\<And>w'. obj w \<subseteq>\<^sub>m obj w' \<Longrightarrow> arr w' = arr w \<Longrightarrow>
      P \<lparr>as_AttributeNames = map fst (sa_attrs sa), as_AttributeTypes = map (aa_DataType \<circ> entry_attr) (sa_attrs sa),
        as_Domain = dim_bounds (sa_dims sa), as_DomainNames = map fst (sa_dims sa), as_ArrayType = ARRAY_DENSE\<rparr> w'"
  shows "does (getArraySchema td a) w P"
  unfolding getArraySchema_def
proof (rule does_bind, rule does_makes [OF schema_lawsD(1) [OF laws a sa(1)]], goal_cases)
  case (1 s w1)
  note w1 = 1
  show ?case
  proof (rule does_bind, rule does_tells [OF schema_lawsD(2) [OF laws w1(3)]], rule does_bind,
      rule does_res [of _ ARRAY_DENSE], simp add: getArrayType_def sa, rule does_bind, goal_cases)
    case (1 x w2)
    then have s2: "obj w2 s = Some (OSchema (sa_type sa) (sa_dims sa) (sa_attrs sa))"
      using w1 by simp
    note w2 = 1
    show ?case
    proof (rule does_mono [OF schema_lawsD(3) [OF laws s2]], elim conjE, rule does_bind, goal_cases)
      case (1 hs w3)
      note w3 = 1
      show ?case
      proof (rule does_tells [OF schema_attributes_tells [OF laws w3(3) sa(3)]], rule does_bind, goal_cases)
        case (1 ys w4)
        then have s4: "obj w4 s = Some (OSchema (sa_type sa) (sa_dims sa) (sa_attrs sa))"
          using map_leD [OF w3(1) s2] by simp
        note w4 = 1
        show ?case
        proof (rule schema_domain_ok [OF laws s4 sa(4)])
          fix w5 assume "obj w4 \<subseteq>\<^sub>m obj w5" "arr w5 = arr w4"
          then have "obj w \<subseteq>\<^sub>m obj w5" "arr w5 = arr w"
            using w1 w2 w3 w4 by (auto intro: map_le_trans)
          then show "does (case (dim_bounds (sa_dims sa), map fst (sa_dims sa)) of (brange, dnames) \<Rightarrow> io_return \<lparr>as_AttributeNames = map fst ys,
              as_AttributeTypes = map snd ys, as_Domain = brange, as_DomainNames = dnames, as_ArrayType = ARRAY_DENSE\<rparr>) w5 P"
            using P [of w5] by (simp add: w4(1) comp_def)
        qed
      qed
    qed
  qed
qed

subsection \<open>The buffers of a read\<close>

text \<open>What is allocated for a column, and what the buffers hold when it has been read into them.\<close>

fun alloc :: "array_column \<Rightarrow> go_any \<times> 64 word list" where
  "alloc (Cells k cs) = (AnySlice k (replicate (length cs) (zero_cell k)), [])"
| "alloc (Strings ss) = (AnySlice Uint8 (replicate (length ss * length (concat ss)) (CUint8 0)), replicate (length ss) 0)"

fun alloc_offsets :: "array_column \<Rightarrow> 64 word list option" where
  "alloc_offsets (Cells k cs) = None"
| "alloc_offsets (Strings ss) = Some (replicate (length ss) 0)"

fun loaded :: "array_column \<Rightarrow> go_any \<times> 64 word list" where
  "loaded (Cells k cs) = (AnySlice k cs, [])"
| "loaded (Strings ss) = (AnySlice Uint8 (map CUint8 (bytes_of (concat ss)) @
     replicate (length ss * length (concat ss) - length (concat ss)) (CUint8 0)), map of_nat (starts ss))"

definition get_bufs :: "(string \<times> array_column) list \<Rightarrow> query_buffers" where
  "get_bufs cols = map (\<lambda>(name, c). (name, fst (alloc c), alloc_offsets c)) cols"

lemma get_bufs_simps [simp]:
  "length (get_bufs cols) = length cols" "map fst (get_bufs cols) = map fst cols" "fst ` set (get_bufs cols) = fst ` set cols"
  by (auto simp: get_bufs_def comp_def split_beta image_image)

lemma stored_kind:
  "Golang2AttrTypeMap k = Some t \<Longrightarrow> k \<noteq> StringKind \<Longrightarrow> attr_kind_of t = Some k \<and> cell_size k \<le> 8"
  by (cases k) (auto simp: Golang2AttrTypeMap_def)

lemma go_make_ok: "m * cell_size k \<le> 2 ^ 48 \<Longrightarrow> m < 2 ^ 64 \<Longrightarrow> go_make k (of_nat m) = Ok (AnySlice k (replicate m (zero_cell k)))"
  by (simp add: go_make_def unat_of_nat_small)

lemma make_offsets_ok: "m * 8 \<le> 2 ^ 48 \<Longrightarrow> make_offsets (of_nat m) = Ok (replicate m 0)"
proof -
  assume "m * 8 \<le> 2 ^ 48"
  then have "m < 2 ^ 64" by simp
  then show ?thesis
    using \<open>m * 8 \<le> 2 ^ 48\<close> by (simp add: make_offsets_def unat_of_nat_small)
qed

text \<open>A column of strings: the offsets are set, then the data, then the offsets again.\<close>

lemma string_buffers_ok:
  assumes laws: "query_laws (qrys td) ctx obj arr" and q: "holds_bufs obj w q uri m r bufs" and name: "name \<notin> fst ` set bufs"
    and P: "\<And>w'. holds_bufs obj w' q uri m r (bufs @ [(name, b, Some o')]) \<Longrightarrow> arr w' = arr w \<Longrightarrow> P w'"
  shows "does (SetOffsetsBuffer (qrys td) q name (length bufs) o') w (\<lambda>_ w1.
     does (SetDataBuffer (qrys td) q name (length bufs) b) w1 (\<lambda>_ w2.
     does (SetOffsetsBuffer (qrys td) q name (length bufs) o') w2 (\<lambda>_ w3. P w3)))"
proof -
  obtain os where os: "obj w q = Some (OQuery uri m r (bufs_data bufs) os)" "map_of os = map_of (bufs_offs bufs)"
    using q by (auto simp: holds_bufs_def)
  have fresh: "name \<notin> (fst \<circ> snd) ` set (bufs_data bufs)" "map_of (bufs_offs bufs) name = None"
    using name by (simp only: bufs_names not_False_eq_True, simp add: bufs_names(2))
  show ?thesis
  proof (rule does_sets [OF query_lawsD(7) [OF laws os(1)]], goal_cases)
    case (1 w1)
    then have w1: "obj w1 q = Some (OQuery uri m r (bufs_data bufs) (AList.update name (length bufs, o') os))" "arr w1 = arr w"
      by simp_all
    show ?case
    proof (rule does_sets [OF query_lawsD(6) [OF laws w1(1) fresh(1)]], goal_cases)
      case (1 w2)
      then have w2: "obj w2 q = Some (OQuery uri m r (bufs_data bufs @ [(length bufs, name, b)])
          (AList.update name (length bufs, o') os))" "arr w2 = arr w"
        using w1 by simp_all
      show ?case
      proof (rule does_sets [OF query_lawsD(7) [OF laws w2(1)]], rule P, goal_cases)
        case (1 w3)
        have "map_of (AList.update name (length bufs, o') (AList.update name (length bufs, o') os))
            = map_of (bufs_offs (bufs @ [(name, b, Some o')]))"
          using os(2) fresh(2) by (auto simp: update_conv' bufs_snoc fun_eq_iff map_add_def split: option.splits)
        then show ?case
          using 1 by (auto simp: holds_bufs_def bufs_snoc)
      qed (use w2 in simp)
    qed
  qed
qed

lemma get_buffer_cells:
  assumes laws: "query_laws (qrys td) ctx obj arr" and q: "holds_bufs obj w q uri m r bufs" and name: "name \<notin> fst ` set bufs"
    and ty: "GetType schema name = Ok t" "column_fits n t c" "0 < n" and be: "be name = counts c"
    and P: "\<And>w'. holds_bufs obj w' q uri m r (bufs @ [(name, fst (alloc c), alloc_offsets c)]) \<Longrightarrow> arr w' = arr w \<Longrightarrow> P (alloc c) w'"
    and Cells: "c = Cells k cs"
  shows "does (get_buffer td schema be q (length bufs) name) w P"
proof -
  have k: "attr_kind_of t = Some k" "cell_size k \<le> 8" and n: "length cs = n" "n * 8 \<le> 2 ^ 48"
    using ty(2) stored_kind [of k t] by (auto simp: Cells)
  have "n * cell_size k \<le> 2 ^ 48"
    using mult_le_mono2 [OF k(2), of n] n(2) by (rule le_trans)
  moreover have "n < 2 ^ 64"
    using n(2) by simp
  ultimately have "go_make k (of_nat n) = Ok (AnySlice k (replicate n (zero_cell k)))"
    by (rule go_make_ok)
  then have "get_buffer td schema be q (length bufs) name = io_bind (io_res (Ok (fst (alloc c), []))) (\<lambda>(data, offsets).
      io_bind (SetDataBuffer (qrys td) q name (length bufs) data) (\<lambda>_.
      io_bind (if offsets \<noteq> [] then SetOffsetsBuffer (qrys td) q name (length bufs) offsets else io_return ())
        (\<lambda>_. io_return (data, offsets))))"
    using k n by (simp add: get_buffer_def ty(1) createBuffer_def be Cells io_res_def io_defs fun_eq_iff)
  then show ?thesis
    using P by (simp add: does_bind_iff io_res_def does_lift Cells) (rule holds_bufs_data [OF laws q name], simp)
qed

lemma get_buffer_strings:
  assumes laws: "query_laws (qrys td) ctx obj arr" and q: "holds_bufs obj w q uri m r bufs" and name: "name \<notin> fst ` set bufs"
    and ty: "GetType schema name = Ok t" "column_fits n t c" "0 < n" and be: "be name = counts c"
    and P: "\<And>w'. holds_bufs obj w' q uri m r (bufs @ [(name, fst (alloc c), alloc_offsets c)]) \<Longrightarrow> arr w' = arr w \<Longrightarrow> P (alloc c) w'"
    and Strings: "c = Strings ss"
  shows "does (get_buffer td schema be q (length bufs) name) w P"
proof -
  have n: "length ss = n" "n * 8 \<le> 2 ^ 48" "n * length (concat ss) \<le> 2 ^ 48"
    using ty(2) by (simp_all add: Strings)
  have "n < 2 ^ 64" "n * length (concat ss) < 2 ^ 64"
    using n(2,3) by (auto intro: le_less_trans)
  then have "(of_nat n :: 64 word) \<noteq> 0"
    using ty(3) by (metis less_numeral_extra(3) unat_0 unat_of_nat_small)
  moreover have "go_make Uint8 (of_nat n * of_nat (length (concat ss))) = Ok (fst (alloc c))"
    using go_make_ok [of "n * length (concat ss)" Uint8] n \<open>n * length (concat ss) < 2 ^ 64\<close> by (simp add: Strings)
  ultimately have eq: "get_buffer td schema be q (length bufs) name =
      io_bind (io_ignore (SetOffsetsBuffer (qrys td) q name (length bufs) (replicate n 0))) (\<lambda>_.
      io_bind (SetDataBuffer (qrys td) q name (length bufs) (fst (alloc c))) (\<lambda>_.
      io_bind (SetOffsetsBuffer (qrys td) q name (length bufs) (replicate n 0)) (\<lambda>_. io_return (alloc c))))"
    using n make_offsets_ok [OF n(2)] ty(3)
    by (simp add: get_buffer_def ty(1) createBuffer_def be Strings io_res_def io_defs fun_eq_iff
        split: option.splits prod.splits res.splits)
  show ?thesis
    unfolding eq
  proof (rule does_bind, rule does_ignore, rule does_mono [OF string_buffers_ok [OF laws q name]])
    show "P (alloc c) w'" if "holds_bufs obj w' q uri m r (bufs @ [(name, fst (alloc c), Some (replicate n 0))])" "arr w' = arr w" for w'
      using P [of w'] that n(1) by (simp add: Strings)
  qed (auto intro!: does_bind elim!: does_mono)
qed

lemma get_buffer_ok:
  assumes laws: "query_laws (qrys td) ctx obj arr" and q: "holds_bufs obj w q uri m r bufs" and name: "name \<notin> fst ` set bufs"
    and ty: "GetType schema name = Ok t" "column_fits n t c" "0 < n" and be: "be name = counts c"
    and P: "\<And>w'. holds_bufs obj w' q uri m r (bufs @ [(name, fst (alloc c), alloc_offsets c)]) \<Longrightarrow> arr w' = arr w \<Longrightarrow> P (alloc c) w'"
  shows "does (get_buffer td schema be q (length bufs) name) w P"
proof (cases c)
  case (Cells k cs)
  show ?thesis
    by (rule get_buffer_cells [where be = be and name = name, OF laws q name ty be _ Cells]) (rule P)
next
  case (Strings ss)
  show ?thesis
    by (rule get_buffer_strings [where be = be and name = name, OF laws q name ty be _ Strings]) (rule P)
qed

lemma get_buffers_ok:
  assumes laws: "query_laws (qrys td) ctx obj arr" and q: "holds_bufs obj w q uri m r []" and fit: "columns_fit n attrs cols"
    and ty: "\<And>j. j < length attrs \<Longrightarrow> GetType schema (aa_Name (attrs ! j)) = Ok (aa_DataType (attrs ! j))"
    and be: "\<And>name c. (name, c) \<in> set cols \<Longrightarrow> be name = counts c"
    and P: "\<And>w'. holds_bufs obj w' q uri m r (get_bufs cols) \<Longrightarrow> arr w' = arr w \<Longrightarrow> P (map (\<lambda>(name, c). alloc c) cols) w'"
  shows "does (io_each (get_buffer td schema be q) 0 (map aa_Name attrs)) w P"
proof (rule does_each [where I = "\<lambda>ys w'. holds_bufs obj w' q uri m r (get_bufs (take (length ys) cols)) \<and>
    ys = map (\<lambda>(name, c). alloc c) (take (length ys) cols) \<and> arr w' = arr w"])
  note nth = columns_fit_nth [OF fit]
  have names: "distinct (map fst cols)" "0 < n"
    using fit fits_names [OF fit] by (simp_all add: columns_fit_def)
  fix k w1 and ys :: "(go_any \<times> 64 word list) list"
  assume k: "k < length (map aa_Name attrs)" "length ys = k"
    and I: "holds_bufs obj w1 q uri m r (get_bufs (take (length ys) cols)) \<and>
      ys = map (\<lambda>(name, c). alloc c) (take (length ys) cols) \<and> arr w1 = arr w"
  then have k': "k < length cols" "length (get_bufs (take k cols)) = k"
    using nth(1) by simp_all
  obtain name c where x: "cols ! k = (name, c)" by (cases "cols ! k")
  then have fitk: "name = aa_Name (attrs ! k)" "column_fits n (aa_DataType (attrs ! k)) c" "be name = counts c"
    using nth(2) [OF k'(1)] be [of name c] nth_mem [OF k'(1)] by simp_all
  have "name \<notin> fst ` set (take k cols)"
    using fst_nth_fresh [OF names(1) k'(1)] by (simp add: x)
  then have fresh: "name \<notin> fst ` set (get_bufs (take k cols))"
    by simp
  have step: "get_bufs (take k cols) @ [(name, fst (alloc c), alloc_offsets c)] = get_bufs (take (Suc k) cols)"
    "map (\<lambda>(name, c). alloc c) (take k cols) @ [alloc c] = map (\<lambda>(name, c). alloc c) (take (Suc k) cols)"
    using k'(1) by (simp_all add: get_bufs_def take_Suc_conv_app_nth x)
  have "does (get_buffer td schema be q (length (get_bufs (take k cols))) name) w1
    (\<lambda>y w2. holds_bufs obj w2 q uri m r (get_bufs (take (length (ys @ [y])) cols)) \<and>
      ys @ [y] = map (\<lambda>(name, c). alloc c) (take (length (ys @ [y])) cols) \<and> arr w2 = arr w)"
    by (rule get_buffer_ok [where be = be and name = name, OF laws _ fresh _ fitk(2) names(2) fitk(3)]) (use I k k'(1) step ty [of k] fitk(1) in \<open>auto simp: min_def\<close>)
  then show "does (get_buffer td schema be q (0 + k) (map aa_Name attrs ! k)) w1
    (\<lambda>y w2. holds_bufs obj w2 q uri m r (get_bufs (take (length (ys @ [y])) cols)) \<and>
      ys @ [y] = map (\<lambda>(name, c). alloc c) (take (length (ys @ [y])) cols) \<and> arr w2 = arr w)"
    using k' k fitk(1) by simp
next
  fix ys w1 assume "length ys = length (map aa_Name attrs)" "holds_bufs obj w1 q uri m r (get_bufs (take (length ys) cols)) \<and>
      ys = map (\<lambda>(name, c). alloc c) (take (length ys) cols) \<and> arr w1 = arr w"
  then show "P ys w1"
    using P [of w1] columns_fit_nth(1) [OF fit] by simp
qed (use q in \<open>simp add: get_bufs_def\<close>)

text \<open>The allocated buffers have room for the columns.\<close>

lemma bufs_data_indices: "map fst (bufs_data bufs) = [0..<length bufs]"
  by (simp add: bufs_data_def comp_def split_beta enumerate_eq_zip)

lemma in_bufs_data: "(i, name, b) \<in> set (bufs_data bufs) \<longleftrightarrow> (\<exists>off. i < length bufs \<and> bufs ! i = (name, b, off))"
proof (induction bufs rule: rev_induct)
  case (snoc x bufs)
  then show ?case
    by (cases x) (auto simp: bufs_snoc nth_append less_Suc_eq)
qed (simp add: bufs_data_def)

lemma alloc_room:
  assumes "column_fits n t c" and "0 < n" and "column_cells c = (k, cs)"
  shows "\<exists>bs. fst (alloc c) = AnySlice k bs \<and> length cs \<le> length bs"
proof (cases c)
  case (Strings ss)
  then have "length (concat ss) \<le> length ss * length (concat ss)"
    using assms(1,2) by (cases "length ss") simp_all
  then show ?thesis
    using assms(3) by (auto simp: Strings)
qed (use assms in auto)

lemma alloc_offsets_room:
  "column_offsets c = None \<longleftrightarrow> alloc_offsets c = None"
  "column_offsets c = Some o' \<Longrightarrow> alloc_offsets c = Some buf \<Longrightarrow> length o' = length buf"
  by (cases c; auto)+

lemma get_reads:
  assumes fit: "columns_fit n attrs cols" and os: "map_of os = map_of (bufs_offs (get_bufs cols))"
  shows "reads_columns (bufs_data (get_bufs cols)) os cols"
proof -
  have names: "distinct (map fst cols)" "0 < n"
    using fit fits_names [OF fit] by (simp_all add: columns_fit_def)
  have "\<exists>c k cs bs. map_of cols name = Some c \<and> column_cells c = (k, cs) \<and> b = AnySlice k bs \<and> length cs \<le> length bs \<and>
      (case column_offsets c of None \<Rightarrow> map_of os name = None
       | Some o' \<Rightarrow> (\<exists>buf. map_of os name = Some (i, buf) \<and> length o' \<le> length buf))"
    if "(i, name, b) \<in> set (bufs_data (get_bufs cols))" for i name b
  proof -
    obtain nm c where x: "cols ! i = (nm, c)" by (cases "cols ! i")
    then have i: "i < length cols" "cols ! i = (name, c)" "b = fst (alloc c)"
      using that by (auto simp: in_bufs_data get_bufs_def)
    then have "get_bufs cols ! i = (name, fst (alloc c), alloc_offsets c)"
      by (simp add: get_bufs_def)
    then have off: "map_of os name = map_option (Pair i) (alloc_offsets c)"
      using bufs_offs_nth [of "get_bufs cols" i] names(1) i(1) os by simp
    have "map_of cols name = Some c"
      using i names(1) by (metis map_of_eq_Some_iff nth_mem)
    moreover obtain k cs where cs: "column_cells c = (k, cs)" by (cases "column_cells c")
    moreover have fitc: "column_fits n (aa_DataType (attrs ! i)) c"
      using columns_fit_nth(2) [OF fit i(1)] i(2) by simp
    ultimately show ?thesis
      using alloc_room [OF fitc names(2) cs] alloc_offsets_room [of c] i(3) off
      by (auto split: option.splits)
  qed
  then show ?thesis
    by (auto simp: reads_columns_def bufs_data_indices list_all_iff)
qed

text \<open>What the query has filled in.\<close>

lemma read_loaded:
  assumes fit: "columns_fit n attrs cols" and os: "map_of os = map_of (bufs_offs (get_bufs cols))"
    and fills: "read_fills (bufs_data (get_bufs cols)) os cols f" and j: "j < length cols" "cols ! j = (name, c)"
  shows "(filled_or (filled_data f) j (fst (alloc c)), if snd (alloc c) = [] then [] else filled_or (filled_offsets f) j (snd (alloc c)))
    = loaded c"
proof -
  have names: "distinct (map fst cols)" "0 < n"
    using fit fits_names [OF fit] by (simp_all add: columns_fit_def)
  have bufj: "get_bufs cols ! j = (name, fst (alloc c), alloc_offsets c)"
    using j by (simp add: get_bufs_def)
  then have off: "map_of os name = map_option (Pair j) (alloc_offsets c)"
    using bufs_offs_nth [of "get_bufs cols" j] names(1) j(1) os by simp
  have "(j, name, fst (alloc c)) \<in> set (bufs_data (get_bufs cols))"
    using bufj j(1) by (simp add: in_bufs_data)
  moreover have "map_of cols name = Some c"
    using j names(1) by (metis map_of_eq_Some_iff nth_mem)
  ultimately have fill: "column_cells c = (k, cs) \<Longrightarrow> fst (alloc c) = AnySlice k bs \<Longrightarrow>
      filled_data f j = Some (AnySlice k (cs @ drop (length cs) bs)) \<and>
      (\<forall>o' buf. column_offsets c = Some o' \<longrightarrow> map_of os name = Some (j, buf) \<longrightarrow>
        filled_offsets f j = Some (o' @ drop (length o') buf))" for k cs bs
    using fills unfolding read_fills_def by fastforce
  have fitc: "column_fits n (aa_DataType (attrs ! j)) c"
    using columns_fit_nth(2) [OF fit j(1)] j(2) by simp
  show ?thesis
  proof (cases c)
    case (Cells k cs)
    then show ?thesis
      using fill [of k cs] by (simp add: filled_or_def)
  next
    case (Strings ss)
    then show ?thesis
      using fill [of Uint8 "map CUint8 (bytes_of (concat ss))" "replicate (length ss * length (concat ss)) (CUint8 0)"] off fitc names(2)
      by (auto simp: filled_or_def)
  qed
qed

subsection \<open>Reading\<close>

lemma tells_catch_bind:
  assumes "tells obj arr m w P" and "\<And>x w'. P x \<Longrightarrow> obj w' = obj w \<Longrightarrow> arr w' = arr w \<Longrightarrow> tells obj arr (f (Inr x)) w' Q"
  shows "tells obj arr (io_bind (io_catch m) f) w Q"
  unfolding tells_def
proof (rule does_catch_bind, rule does_tells [OF assms(1)])
  fix x w' assume "P x" "obj w' = obj w" "arr w' = arr w"
  then show "does (f (Inr x)) w' (\<lambda>x w'. Q x \<and> obj w' = obj w \<and> arr w' = arr w)"
    using assms(2) [of x w'] by (simp add: tells_def)
qed

lemma byte_cells_loaded: "byte_cells (map CUint8 bs @ replicate k (CUint8 0)) = bs @ replicate k 0"
  by (simp add: byte_cells_def comp_def)

lemma variable_result_tells:
  assumes elements: "tells obj arr (ResultBufferElements (qrys td) q) w (\<lambda>f. f name = counts c)"
    and fit: "column_fits n t c" "0 < n"
  shows "tells obj arr (variable_result td q i (name, loaded c)) w (\<lambda>x. x = column_read c)"
proof (cases c)
  case (Cells k cs)
  then show ?thesis
    by (simp add: variable_result_def)
next
  case (Strings ss)
  let ?pad = "replicate (length ss * length (concat ss) - length (concat ss)) (0 :: byte)"
  have n: "length ss = n" "n * 8 \<le> 2 ^ 48" "n * length (concat ss) \<le> 2 ^ 48"
    using fit(1) by (simp_all add: Strings)
  have le: "length (concat ss) \<le> n * length (concat ss)"
    using fit(2) by (cases n) simp_all
  then have total: "total_length ss \<le> 2 ^ 48"
    using n(3) by (simp only: length_concat_total [symmetric])
  have pad: "length (concat ss) + length ?pad < 2 ^ 64"
    using le n(1,3) by simp
  have "length ss < 2 ^ 64"
    using n(1,2) by simp
  from handleVariableResults_padded [OF total this pad]
  have read: "handleVariableResults (bytes_of (concat ss) @ ?pad) (of_nat (length ss), of_nat (length (concat ss)))
      (map of_nat (starts ss)) = Ok (map bytes_of ss)"
    by (simp add: length_concat_total)
  have "starts ss \<noteq> []"
    using n(1) fit(2) by (metis length_starts length_0_conv less_numeral_extra(3))
  then have eq: "variable_result td q i (name, loaded c) =
      io_bind (io_catch (ResultBufferElements (qrys td) q)) (\<lambda>elements.
        let (e0, e1, e2) = (case elements of Inr e \<Rightarrow> e name | Inl _ \<Rightarrow> (0, 0, 0)) in
        io_bind (io_res (handleVariableResults (bytes_of (concat ss) @ ?pad) (e0, e1) (map of_nat (starts ss)))) (\<lambda>vr.
          io_return (AnySlice Bytes (map CBytes vr))))"
    by (simp add: variable_result_def Strings byte_cells_loaded)
  show ?thesis
    unfolding eq
  proof (rule tells_catch_bind [OF elements], simp only: sum.case Strings counts.simps Let_def prod.case)
    fix w' show "tells obj arr (io_bind (io_res (handleVariableResults (bytes_of (concat ss) @ ?pad)
        (of_nat (length ss), of_nat (length (concat ss))) (map of_nat (starts ss)))) (\<lambda>vr.
          io_return (AnySlice Bytes (map CBytes vr)))) w' (\<lambda>x. x = column_read (Strings ss))"
      unfolding read
      by (rule tells_bind [OF tells_res [OF refl, where P = "\<lambda>x. x = map bytes_of ss"]]) (simp_all add: comp_def)
  qed
qed

lemma range_read_cong: "arr w' = arr w \<Longrightarrow> range_read arr w' uri r cols \<longleftrightarrow> range_read arr w uri r cols"
  by (simp add: range_read_def range_query_def)

lemma variable_results_tells:
  assumes laws: "submit_laws (qrys td) obj arr" and q: "obj w q = Some (OQuery uri TILEDB_READ r (bufs_data (get_bufs cols)) os)"
    and os: "map_of os = map_of (bufs_offs (get_bufs cols))"
    and range: "range_read arr w uri r cols" and fit: "columns_fit n attrs cols"
  shows "tells obj arr (io_each (variable_result td q) 0 (map (\<lambda>(name, c). (name, loaded c)) cols)) w
    (\<lambda>data. data = map (\<lambda>(name, c). column_read c) cols)"
proof -
  have names: "distinct (map fst cols)" "0 < n"
    using fit fits_names [OF fit] by (simp_all add: columns_fit_def)
  have elem: "tells obj arr (variable_result td q (0 + j) (map (\<lambda>(name, c). (name, loaded c)) cols ! j)) w1
      (\<lambda>x. x = column_read (snd (cols ! j)))"
    if j: "j < length (map (\<lambda>(name, c). (name, loaded c)) cols)" and w1: "obj w1 = obj w" "arr w1 = arr w" for j w1
  proof -
    obtain name c where c: "cols ! j = (name, c)" by (cases "cols ! j")
    have mem: "map_of cols name = Some c"
      using j c names(1) by (metis length_map map_of_eq_Some_iff nth_mem)
    have "tells obj arr (ResultBufferElements (qrys td) q) w1 (\<lambda>f. \<forall>name c. map_of cols name = Some c \<longrightarrow> f name = counts c)"
      using submit_lawsD(4) [OF laws, of w1 q uri r "bufs_data (get_bufs cols)" os cols] q range w1 get_reads [OF fit os]
      by (simp add: range_read_cong [OF w1(2)])
    then have "tells obj arr (ResultBufferElements (qrys td) q) w1 (\<lambda>f. f name = counts c)"
      unfolding tells_def by (rule does_mono) (use mem in auto)
    then show ?thesis
      using variable_result_tells [of obj arr td q w1 name c n "aa_DataType (attrs ! j)"] columns_fit_nth(2) [OF fit, of j] j c names(2)
      by simp
  qed
  have "tells obj arr (io_each (variable_result td q) 0 (map (\<lambda>(name, c). (name, loaded c)) cols)) w
      (\<lambda>data. data = map (\<lambda>j. column_read (snd (cols ! j))) [0..<length (map (\<lambda>(name, c). (name, loaded c)) cols)])"
    by (rule tells_each) (rule elem)
  moreover have "map (\<lambda>j. column_read (snd (cols ! j))) [0..<length (map (\<lambda>(name, c). (name, loaded c)) cols)] = map (\<lambda>(name, c). column_read c) cols"
    by (rule nth_equalityI) (simp_all add: split_beta)
  ultimately show ?thesis by simp
qed

text \<open>The buffers after the query, as \<open>GetArray\<close> lists them.\<close>

lemma buffers_loaded:
  assumes fit: "columns_fit n attrs cols" and os: "map_of os = map_of (bufs_offs (get_bufs cols))"
    and fills: "read_fills (bufs_data (get_bufs cols)) os cols f"
  shows "map (\<lambda>(i, attr, data, offsets). (attr, filled_or (filled_data f) i data,
      if offsets = [] then [] else filled_or (filled_offsets f) i offsets))
      (enumerate 0 (zip (map aa_Name attrs) (map (\<lambda>(name, c). alloc c) cols)))
    = map (\<lambda>(name, c). (name, loaded c)) cols" (is "?buffers = ?loaded")
proof (rule nth_equalityI)
  have len: "length cols = length attrs"
    by (rule columns_fit_nth(1) [OF fit])
  then show "length ?buffers = length ?loaded"
    by simp
  fix j assume "j < length ?buffers"
  then have j: "j < length cols"
    using len by simp
  obtain name c where c: "cols ! j = (name, c)" by (cases "cols ! j")
  then have "name = aa_Name (attrs ! j)"
    using columns_fit_nth(2) [OF fit j] by simp
  then show "?buffers ! j = ?loaded ! j"
    using read_loaded [OF fit os fills j c] j len c by (cases "snd (alloc c) = []") (simp_all add: nth_enumerate_eq split_beta)
qed

lemma GetType_nth:
  "distinct names \<Longrightarrow> j < length names \<Longrightarrow> length types = length names \<Longrightarrow>
     as_AttributeNames sch = names \<Longrightarrow> as_AttributeTypes sch = types \<Longrightarrow> GetType sch (names ! j) = Ok (types ! j)"
proof -
  assume *: "distinct names" "j < length names" "length types = length names" "as_AttributeNames sch = names" "as_AttributeTypes sch = types"
  have "position (names ! j) names = Some j"
    using *(1,2)
  proof (induction names arbitrary: j)
    case (Cons a names)
    then show ?case by (cases j) auto
  qed simp
  then show ?thesis
    using * by (simp add: GetType_def go_index_nat)
qed

text \<open>From a query over the whole array to its result: the query is submitted, then its strings are taken apart.\<close>

lemma read_submitted:
  assumes sl: "submit_laws (qrys td) obj arr"
    and q: "holds_bufs obj w q uri TILEDB_READ r (get_bufs cols)" and range: "range_read arr w uri r cols"
    and fit: "columns_fit n attrs cols"
    and P: "\<And>w'. arr w' = arr w \<Longrightarrow> P (h (map (\<lambda>(name, c). column_read c) cols)) w'"
  shows "does (io_bind (Submit (qrys td) q) (\<lambda>f.
     io_bind (io_each (variable_result td q) 0 (map (\<lambda>(i, attr, data, offsets). (attr, filled_or (filled_data f) i data,
           if offsets = [] then [] else filled_or (filled_offsets f) i offsets))
           (enumerate 0 (zip (map aa_Name attrs) (map (\<lambda>(name, c). alloc c) cols))))) (\<lambda>data. io_return (h data)))) w P"
proof -
  obtain os where os: "obj w q = Some (OQuery uri TILEDB_READ r (bufs_data (get_bufs cols)) os)"
    "map_of os = map_of (bufs_offs (get_bufs cols))"
    using q by (auto simp: holds_bufs_def)
  show ?thesis
  proof (rule does_bind, rule does_tells [OF submit_lawsD(3) [OF sl os(1) range get_reads [OF fit os(2)]]])
    fix f w1 assume fills: "read_fills (bufs_data (get_bufs cols)) os cols f" and w1: "obj w1 = obj w" "arr w1 = arr w"
    have q1: "obj w1 q = Some (OQuery uri TILEDB_READ r (bufs_data (get_bufs cols)) os)" "range_read arr w1 uri r cols"
      using os(1) w1 range by (simp_all add: range_read_cong [OF w1(2)])
    show "does (io_bind (io_each (variable_result td q) 0 (map (\<lambda>(i, attr, data, offsets). (attr, filled_or (filled_data f) i data,
           if offsets = [] then [] else filled_or (filled_offsets f) i offsets))
           (enumerate 0 (zip (map aa_Name attrs) (map (\<lambda>(name, c). alloc c) cols))))) (\<lambda>data. io_return (h data))) w1 P"
      unfolding buffers_loaded [OF fit os(2) fills]
      by (rule does_bind, rule does_tells [OF variable_results_tells [OF sl q1(1) os(2) q1(2) fit]]) (simp add: P w1)
  qed
qed

lemma read_query:
  assumes ql: "query_laws (qrys td) ctx obj arr" and sl: "submit_laws (qrys td) obj arr"
    and q: "holds_bufs obj w q uri TILEDB_READ r []" and range: "range_read arr w uri r cols"
    and fit: "columns_fit n attrs cols"
    and sch: "as_AttributeNames schema = map aa_Name attrs" "as_AttributeTypes schema = map aa_DataType attrs"
      "as_ArrayType schema = ARRAY_DENSE"
    and P: "\<And>w'. arr w' = arr w \<Longrightarrow> P (g (map (\<lambda>(name, c). column_read c) cols) []) w'"
  shows "does (io_bind (EstimateBufferElements (qrys td) q) (\<lambda>bufferElems.
     io_bind (io_each (get_buffer td schema bufferElems q) 0 (map aa_Name attrs)) (\<lambda>buffers.
     io_bind (if as_ArrayType schema = ARRAY_SPARSE
       then io_each (domain_buffer td (length (map aa_Name attrs)) bufferElems q) 0 (as_DomainNames schema)
       else io_return []) (\<lambda>domains.
     io_bind (Submit (qrys td) q) (\<lambda>f.
     let buffers = map (\<lambda>(i, attr, data, offsets). (attr, filled_or (filled_data f) i data,
           if offsets = [] then [] else filled_or (filled_offsets f) i offsets))
           (enumerate 0 (zip (map aa_Name attrs) buffers));
         domains = map (\<lambda>(i, d). filled_or (filled_data f) (length (map aa_Name attrs) + i) d) (enumerate 0 domains) in
     io_bind (io_each (variable_result td q) 0 buffers) (\<lambda>data. io_return (g data domains))))))) w P"
proof -
  obtain os0 where q0: "obj w q = Some (OQuery uri TILEDB_READ r (bufs_data []) os0)"
    using q by (auto simp: holds_bufs_def)
  have names: "distinct (map fst cols)" "distinct (map aa_Name attrs)"
    using fit fits_names [OF fit] by (simp_all add: columns_fit_def)
  have ty: "GetType schema (aa_Name (attrs ! j)) = Ok (aa_DataType (attrs ! j))" if "j < length attrs" for j
    using GetType_nth [OF names(2) _ _ sch(1,2), of j] that by simp
  show ?thesis
  proof (rule does_bind, rule does_tells [OF submit_lawsD(2) [OF sl q0 range]], rule does_bind, goal_cases)
    case (1 be w1)
    then have be: "be name = counts c" if "(name, c) \<in> set cols" for name c
      using that names(1) by simp
    have q1: "holds_bufs obj w1 q uri TILEDB_READ r []"
      using q 1(2) by (simp add: holds_bufs_def)
    note w1 = 1(3)
    show ?case
    proof (rule get_buffers_ok [OF ql q1 fit ty be], assumption, assumption, goal_cases)
      case (1 w2)
      then have w2: "arr w2 = arr w"
        using w1 by simp
      from read_submitted [OF sl 1(1) range [folded range_read_cong [OF w2]] fit, where P = P and h = "\<lambda>data. g data []"] w2
      show ?case
        by (simp add: sch(3) Let_def does_bind_iff P)
    qed
  qed
qed

text \<open>The range of a read.\<close>

lemma op_range_loop_given:
  "i + length br = length domain \<Longrightarrow>
     op_range_loop br domain i = Ok (map2 (\<lambda>given d. if given = 0 then d else given) br (drop i domain))"
proof (induction br arbitrary: i)
  case (Cons b br)
  then have "drop i domain = domain ! i # drop (Suc i) domain"
    by (intro Cons_nth_drop_Suc [symmetric]) simp
  then show ?case
    using Cons by (simp add: go_index_nat)
qed simp

lemma op_range_box:
  assumes "asks_for ns br rs"
  shows "getOpBufferRange br (range_ints (whole ns)) = Ok (range_ints rs)"
  using assms op_range_loop_given [of 0 br "range_ints (whole ns)"] by (auto simp: asks_for_def getOpBufferRange_def)

lemma dim_bounds_whole:
  "list_all (\<lambda>(d, lo, hi). lo = 1 \<and> 0 < hi) ds \<Longrightarrow> dim_bounds ds = range_ints (whole (map (\<lambda>(d, lo, hi). nat hi) ds))"
  by (induction ds) (auto simp: dim_bounds_def range_ints_def)

lemma get_range_ok:
  fixes td :: "('w, 'h) tiledb"
  assumes laws: "query_laws (qrys td) ctx obj arr"
    and a: "obj w a = Some (OArray uri (Some m))" and q: "obj w q = Some (OQuery uri m r0 [] [])" and br: "x = Ok r"
    and f: "\<And>w'. holds_bufs obj w' q uri m r [] \<Longrightarrow> arr w' = arr w \<Longrightarrow> does (f r) w' P"
  shows "does (io_bind (NewSubarray (qrys td) a) (\<lambda>s. io_bind (io_res x) (\<lambda>br.
    io_bind (SetSubArray (qrys td) s br) (\<lambda>_. io_bind (SetSubarray (qrys td) q s) (\<lambda>_. f br))))) w P"
  using put_range_ok [OF laws a q, where r = r and P = "\<lambda>_ w'. does (f r) w' P"] f
  by (simp add: put_range_def does_bind_iff br io_res_def does_lift)

lemma GetArray_ok:
  assumes laws: "tiledb_laws td (tdb_context tdb) obj arr" and sa: "arr w (tdb_path tdb p) = Some sa" "sa_type sa = TILEDB_DENSE"
      "list_all (\<lambda>(d, lo, hi). lo = 1 \<and> 0 < hi) (sa_dims sa)" "list_all entry_ok (sa_attrs sa)" "map entry_attr (sa_attrs sa) = attrs"
      "dims_int64 (sa_dims sa)"
    and rs: "box_ok (sa_sizes sa) rs" "asks_for (sa_sizes sa) br rs"
    and read: "rs = whole (sa_sizes sa) \<or> list_all (\<lambda>(name, c). fixed_size c) (sa_columns sa)"
    and fit: "columns_fit n attrs (map (\<lambda>(name, c). (name, column_box (sa_sizes sa) rs c)) (sa_columns sa))"
  shows "does (GetArray td tdb \<lparr>ga_Attrs = map aa_Name attrs, ga_DataPath = p, ga_BufferRange = br, ga_SearchOrder = ROWMAJOR\<rparr>) w
    (\<lambda>ar w'. arr w' = arr w \<and> ar_row ar = 0 \<and> ar_Attrs ar = map aa_Name attrs \<and>
      ar_Data ar = map (\<lambda>(name, c). column_read (column_box (sa_sizes sa) rs c)) (sa_columns sa) \<and>
      as_AttributeNames (ar_Schema ar) = map aa_Name attrs \<and> as_AttributeTypes (ar_Schema ar) = map aa_DataType attrs)"
proof -
  note al = tiledb_lawsD(2) [OF laws] and scl = tiledb_lawsD(3) [OF laws] and ql = tiledb_lawsD(4) [OF laws]
    and sl = tiledb_lawsD(5) [OF laws]
  let ?uri = "tdb_path tdb p" and ?cols = "map (\<lambda>(name, c). (name, column_box (sa_sizes sa) rs c)) (sa_columns sa)"
  let ?schema = "\<lparr>as_AttributeNames = map fst (sa_attrs sa), as_AttributeTypes = map (aa_DataType \<circ> entry_attr) (sa_attrs sa),
      as_Domain = dim_bounds (sa_dims sa), as_DomainNames = map fst (sa_dims sa), as_ArrayType = ARRAY_DENSE\<rparr>"
  have uri: "arr w ?uri \<noteq> None"
    using sa(1) by simp
  have names: "as_AttributeNames ?schema = map aa_Name attrs" "as_AttributeTypes ?schema = map aa_DataType attrs"
    by (simp_all add: sa(5) [symmetric] entry_attr_def comp_def split_beta)
  have opr: "getOpBufferRange br (as_Domain ?schema) = Ok (range_ints rs)"
    using op_range_box [OF rs(2)] dim_bounds_whole [OF sa(3)] by (simp add: sa_sizes_def)
  have range: "range_read arr w ?uri (range_ints rs) ?cols"
    using sa(1-3) rs(1) read unfolding range_read_def range_query_def by (auto simp: list_all_iff)
  show ?thesis
    unfolding GetArray_def GetArrayInput.simps eventStoreOrder2TileDbOrder_def LAYOUT_ORDER.case tdb_path_def [symmetric]
  proof (rule open_array [OF al uri], rule does_bind, goal_cases)
    case (1 a w1)
    then have "arr w1 ?uri = Some sa"
      using sa(1) by simp
    note schema = getArraySchema_ok [OF scl 1(1) this sa(2,4,6)] and w1 = 1
    show ?case
    proof (rule schema, rule new_query [OF ql], rule map_leD, assumption, rule w1(1), rule get_range_ok [OF ql _ _ opr],
        assumption, assumption, goal_cases)
      case (1 w2 q w3 w4)
      then obtain os where "obj w4 q = Some (OQuery ?uri TILEDB_READ (range_ints rs) (bufs_data []) os)"
        by (auto simp: holds_bufs_def)
      note layout = set_layout [OF ql this] and w4 = 1
      show ?case
      proof (rule layout, goal_cases)
        case (1 w5)
        then have w5: "holds_bufs obj w5 q ?uri TILEDB_READ (range_ints rs) []" "arr w5 = arr w"
          using w1 w4 by (simp_all add: holds_bufs_def)
        show ?case
          by (rule read_query [OF ql sl w5(1) range [folded range_read_cong [OF w5(2)]] fit names ArraySchema.simps(5)])
            (use w5(2) names in \<open>simp add: split_beta comp_def\<close>)
      qed
    qed
  qed
qed

end
