(* ===== verification/TileDb_Arrays.thy ===== *)
theory TileDb_Arrays
  imports TileDb_Get
begin

section \<open>TileDB event store: an array store\<close>

text \<open>
  \<open>CreateArray\<close>, \<open>PutArray\<close> and \<open>GetArray\<close> of \<^verbatim>\<open>tiledb_store.go\<close> meet the contract of an array
  store (\<open>array_store\<close>) for dense arrays of
  any number of dimensions, when the TileDB package behaves as
  documented (\<open>tiledb_laws\<close>); what follows for recordsets and for simple arrays.
\<close>

subsection \<open>The contract\<close>

definition tdb_mds :: "('w, 'h) tiledb \<Rightarrow> 'h TileDbEventStore \<Rightarrow> 'w mds" where
  "tdb_mds td tdb = \<lparr>mds_CreateArray = CreateArray td tdb, mds_PutArray = PutArray td tdb, mds_GetArray = GetArray td tdb\<rparr>"

lemma tdb_shapeD:
  assumes "tdb_shape arr tdb w p = Some (attrs, ns)" and "attrs \<noteq> []"
  obtains sa where "arr w (tdb_path tdb p) = Some sa" "sa_type sa = TILEDB_DENSE" "list_all (\<lambda>(d, lo, hi). lo = 1 \<and> 0 < hi) (sa_dims sa)"
    "list_all entry_ok (sa_attrs sa)" "map entry_attr (sa_attrs sa) = attrs" "sa_sizes sa = ns"
  using assms by (auto simp: tdb_shape_def split: option.splits if_splits)

lemma tdb_shape_None: "tdb_shape arr tdb w p = None \<longleftrightarrow> arr w (tdb_path tdb p) = None"
  by (auto simp: tdb_shape_def split: option.splits)

lemma entry_names: "map fst as = map aa_Name (map entry_attr as)"
  by (simp add: entry_attr_def comp_def split_beta)

lemma tdb_create:
  assumes laws: "tiledb_laws td (tdb_context tdb) obj arr" and dim: "dense_dims input ns"
    and absent: "tdb_shape arr tdb w (ca_ArrayPath input) = None"
    and attrs: "list_all (\<lambda>a. \<exists>k. Golang2AttrTypeMap k = Some (aa_DataType a)) (ca_Attributes input)" "ca_Attributes input \<noteq> []"
      "distinct (map aa_Name (ca_Attributes input))"
    and layout: "ca_CellLayout input = ROWMAJOR" "ca_TileLayout input = ROWMAJOR"
  shows "does (CreateArray td tdb input) w (\<lambda>_ w'. tdb_shape arr tdb w' (ca_ArrayPath input) = Some (ca_Attributes input, ns))"
proof -
  have types: "list_all (\<lambda>a. ccAttr2TiledbAttrMap (aa_DataType a) \<noteq> None) (ca_Attributes input)"
    using attrs(1) storable_type by (fastforce simp: list_all_iff)
  then have "list_all entry_ok (map attr_entry (ca_Attributes input))"
    "map entry_attr (map attr_entry (ca_Attributes input)) = ca_Attributes input"
    using entry_attr_entry by (auto simp: list_all_iff map_idI)
  moreover have "list_all (\<lambda>(d, lo, hi). lo = 1 \<and> 0 < hi) (map dim_entry (ca_Dimensions input))"
    "map (\<lambda>(d, lo, hi). nat hi) (map dim_entry (ca_Dimensions input)) = ns"
    using dim good_dims_ok good_dims_sizes by (auto simp: dense_dims_def)
  moreover have "good_input input ns"
    using dim types layout by (simp add: good_input_def)
  ultimately show ?thesis
    using absent unfolding tdb_shape_None
    by (intro does_mono [OF CreateArray_ok [OF laws _ _ attrs(2,3)]]) (simp_all add: tdb_shape_def sa_sizes_def)
qed

lemma tdb_put:
  assumes laws: "tiledb_laws td (tdb_context tdb) obj arr" and shape: "tdb_shape arr tdb w p = Some (attrs, ns)"
    and fit: "columns_fit (prod_list ns) attrs cols"
  shows "does (PutArray td tdb \<lparr>pa_Buffers = map column_buffer cols, pa_BufferRange = range_ints (whole ns), pa_DataPath = p,
      pa_ArrayType = ARRAY_DENSE, pa_Coords = [], pa_PutLayout = ROWMAJOR\<rparr>) w
    (\<lambda>_ w'. tdb_shape arr tdb w' p = tdb_shape arr tdb w p \<and> tdb_content arr tdb w' p = cols)"
proof -
  have "attrs \<noteq> []"
    using fit by (simp add: columns_fit_def)
  with shape obtain sa where sa: "arr w (tdb_path tdb p) = Some sa" "sa_type sa = TILEDB_DENSE"
    "list_all (\<lambda>(d, lo, hi). lo = 1 \<and> 0 < hi) (sa_dims sa)" "map entry_attr (sa_attrs sa) = attrs" "sa_sizes sa = ns"
    by (rule tdb_shapeD)
  have "map fst (sa_attrs sa) = map aa_Name attrs"
    unfolding sa(4) [symmetric] by (rule entry_names)
  note put = PutArray_ok [OF laws sa(1,2,3) this, unfolded sa(5), OF fit]
  show ?thesis
    by (rule does_mono [OF put]) (simp add: tdb_shape_def tdb_content_def sa sa_sizes_def)
qed

lemma sizes_int64:
  assumes "list_all (\<lambda>(d, lo, hi). lo = 1 \<and> 0 < hi) (sa_dims sa)" and "prod_list (sa_sizes sa) * 8 \<le> 2 ^ 48"
  shows "dims_int64 (sa_dims sa)"
proof -
  have "list_all (\<lambda>n. 0 < n) (sa_sizes sa)"
    using assms(1) by (auto simp: sa_sizes_def list_all_iff)
  then have "n < 2 ^ 48" if "n \<in> set (sa_sizes sa)" for n
    using prod_list_ge [OF that] assms(2) by simp
  then have "hi < 2 ^ 48" if "(d, lo, hi) \<in> set (sa_dims sa)" for d lo hi
    using that by (force simp: sa_sizes_def nat_less_iff)
  then show ?thesis
    using assms(1) by (fastforce simp: dims_int64_def list_all_iff)
qed

lemma tdb_get:
  assumes laws: "tiledb_laws td (tdb_context tdb) obj arr" and shape: "tdb_shape arr tdb w p = Some (attrs, ns)"
    and fit: "columns_fit (prod_list ns) attrs cols" and content: "tdb_content arr tdb w p = cols"
    and rs: "box_ok ns rs" "asks_for ns br rs" and read: "rs = whole ns \<or> list_all (\<lambda>(name, c). fixed_size c) cols"
  shows "does (GetArray td tdb \<lparr>ga_Attrs = map aa_Name attrs, ga_DataPath = p, ga_BufferRange = br, ga_SearchOrder = ROWMAJOR\<rparr>) w
    (\<lambda>ar w'. tdb_shape arr tdb w' p = tdb_shape arr tdb w p \<and> tdb_content arr tdb w' p = cols \<and> ar_row ar = 0 \<and>
      ar_Attrs ar = map aa_Name attrs \<and> ar_Data ar = map (\<lambda>(name, c). column_read (column_box ns rs c)) cols \<and>
      as_AttributeNames (ar_Schema ar) = map aa_Name attrs \<and> as_AttributeTypes (ar_Schema ar) = map aa_DataType attrs)"
proof -
  have "attrs \<noteq> []"
    using fit by (simp add: columns_fit_def)
  with shape obtain sa where sa: "arr w (tdb_path tdb p) = Some sa" "sa_type sa = TILEDB_DENSE"
    "list_all (\<lambda>(d, lo, hi). lo = 1 \<and> 0 < hi) (sa_dims sa)" "list_all entry_ok (sa_attrs sa)"
    "map entry_attr (sa_attrs sa) = attrs" "sa_sizes sa = ns"
    by (rule tdb_shapeD)
  have cols: "sa_columns sa = cols"
    using content by (simp add: tdb_content_def sa(1))
  have "dims_int64 (sa_dims sa)"
    using sizes_int64 [OF sa(3)] columns_fit_size [OF fit] sa(6) by simp
  note get = GetArray_ok [OF laws sa(1-5) this, unfolded cols sa(6), OF rs read columns_fit_boxed [OF fit rs(1) read]]
  show ?thesis
    by (rule does_mono [OF get]) (use content in \<open>auto simp: tdb_shape_def tdb_content_def\<close>)
qed

interpretation tiledb_arrays: array_store "tdb_mds td tdb" "\<lambda>w. tiledb_laws td (tdb_context tdb) obj arr"
  "tdb_shape arr tdb" "tdb_content arr tdb"
proof (unfold_locales, goal_cases)
  case (1 w input ns)
  then show ?case
    using tdb_create [of td tdb obj arr input ns w] by (simp add: tdb_mds_def)
next
  case (2 w p attrs ns cols)
  then show ?case
    using tdb_put [of td tdb obj arr w p attrs ns cols] by (simp add: tdb_mds_def)
next
  case (3 w p attrs ns cols rs br)
  then show ?case
    using tdb_get [of td tdb obj arr w p attrs ns cols rs br] by (simp add: tdb_mds_def)
qed


subsection \<open>Simple arrays\<close>

text \<open>A buffer of cells that is put as an array of one or two dimensions, all of it.\<close>

definition simple_buffer :: "PutSimpleArrayInput \<Rightarrow> go_kind \<Rightarrow> cell list \<Rightarrow> nat list \<Rightarrow> bool" where
  "simple_buffer input k cs ns \<longleftrightarrow> ps_Buffer input = AnySlice k cs \<and> ps_Dims input = map int ns \<and> length ns \<in> {1, 2} \<and>
     length cs = prod_list ns \<and> list_all (\<lambda>n. 0 < n) ns \<and> length cs * 8 \<le> 2 ^ 48 \<and> list_all (\<lambda>c. kind_of c = k) cs \<and> k \<noteq> StringKind \<and>
     ps_CellLayout input = ROWMAJOR \<and> ps_TileLayout input = ROWMAJOR \<and> ps_PutLayout input = ROWMAJOR"

abbreviation simple_attr :: "ATTR_TYPE \<Rightarrow> ArrayAttribute" where
  "simple_attr t \<equiv> \<lparr>aa_Name = defaultAttrName, aa_DataType = t\<rparr>"

lemma simple_buffer_fit:
  "simple_buffer input k cs ns \<Longrightarrow> Golang2AttrTypeMap k = Some t \<Longrightarrow>
     columns_fit (prod_list ns) [simple_attr t] [(defaultAttrName, Cells k cs)]"
  by (simp add: simple_buffer_def columns_fit_def prod_list_positive)

lemma determineTileExtent_bounds:
  "list_all (\<lambda>d. 0 < d) ds \<Longrightarrow> 0 < determineTileExtent ds \<and> list_all (\<lambda>d. determineTileExtent ds \<le> d) ds"
proof -
  let ?m = "\<lambda>ds e. fold (\<lambda>d e. if d < e then d else e) ds e"
  have "list_all (\<lambda>d. 0 < d) ds \<Longrightarrow> 0 < e \<Longrightarrow> 0 < ?m ds e \<and> ?m ds e \<le> e \<and> list_all (\<lambda>d. ?m ds e \<le> d) ds" for e :: int
  proof (induction ds arbitrary: e)
    case (Cons d ds)
    show ?case
      using Cons.IH [of "if d < e then d else e"] Cons.prems by (cases "d < e") simp_all
  qed simp
  from this [of 256] show "list_all (\<lambda>d. 0 < d) ds \<Longrightarrow> 0 < determineTileExtent ds \<and> list_all (\<lambda>d. determineTileExtent ds \<le> d) ds"
    by (simp add: determineTileExtent_def defaultTileExtent_def)
qed

lemma simple_array_dims:
  assumes "list_all (\<lambda>n. 0 < n) ns" and "ns \<noteq> []" and "cs_Dims input = map int ns"
  shows "dense_dims (simple_array_input input) ns"
  using assms determineTileExtent_bounds [of "map int ns"]
  by (auto simp: dense_dims_def simple_array_input_def good_dim_def list_all2_conv_all_nth list_all_length)

lemma simple_range_one_two: "length ns \<in> {1, 2} \<Longrightarrow> simple_range (map int ns) = Ok (range_ints (whole ns))"
  by (auto simp: length_Suc_conv numeral_2_eq_2 simple_range_def range_indices_def go_set_def go_index_def)

text \<open>The put of a simple array: create it when it is absent, and write the whole of it.\<close>

lemma PutSimpleArray_ok:
  assumes laws: "tiledb_laws td (tdb_context tdb) obj arr" and k: "Golang2AttrTypeMap k = Some t"
    and buf: "simple_buffer input k cs ns"
    and w: "tdb_shape arr tdb w (ps_DataPath input) \<in> {None, Some ([simple_attr t], ns)}"
  shows "does (PutSimpleArray td tdb input) w (\<lambda>_ w'.
    tdb_shape arr tdb w' (ps_DataPath input) = Some ([simple_attr t], ns) \<and>
    tdb_content arr tdb w' (ps_DataPath input) = [(defaultAttrName, Cells k cs)])"
proof -
  let ?p = "ps_DataPath input"
  note input = buf [unfolded simple_buffer_def]
  let ?create = "\<lparr>cs_DataType = t, cs_Dims = ps_Dims input, cs_ArrayPath = ?p, cs_CellLayout = ps_CellLayout input,
      cs_TileLayout = ps_TileLayout input, cs_TileExtent = ps_TileExtent input\<rparr>"
  have "ns \<noteq> []"
    using input by auto
  then have dims: "dense_dims (simple_array_input ?create) ns"
    using simple_array_dims [of ns] input by simp
  have create: "does (createSimpleArray td tdb ?create) w1 (\<lambda>_ w'. tdb_shape arr tdb w' ?p = Some ([simple_attr t], ns))"
    if "tdb_shape arr tdb w1 ?p = None" for w1
    using tdb_create [OF laws dims, of w1] that k input by (simp add: createSimpleArray_def simple_array_input_def) blast
  have put: "does (PutArray td tdb \<lparr>pa_Buffers = [\<lparr>pb_AttrName = defaultAttrName, pb_Buffer = AnySlice k cs, pb_Offsets = None\<rparr>],
      pa_BufferRange = range_ints (whole ns), pa_DataPath = ?p, pa_ArrayType = ARRAY_DENSE, pa_Coords = [], pa_PutLayout = ROWMAJOR\<rparr>) w1
      (\<lambda>_ w'. tdb_shape arr tdb w' ?p = Some ([simple_attr t], ns) \<and> tdb_content arr tdb w' ?p = [(defaultAttrName, Cells k cs)])"
    if "tdb_shape arr tdb w1 ?p = Some ([simple_attr t], ns)" for w1
    using tdb_put [OF laws that simple_buffer_fit [OF buf k]] that by simp
  show ?thesis
    unfolding PutSimpleArray_def tdb_path_def [symmetric]
  proof (rule does_bind, rule does_tells [OF array_lawsD(5) [OF tiledb_lawsD(2) [OF laws]]], rule does_bind)
    fix x w1 assume "x = (arr w (tdb_path tdb ?p) = None)" "arr w1 = arr w"
    then have "tdb_shape arr tdb w1 ?p = tdb_shape arr tdb w ?p" "x \<longleftrightarrow> tdb_shape arr tdb w ?p = None"
      by (simp_all add: tdb_shape_None) (simp add: tdb_shape_def)
    then show "does (if x then case ps_Buffer input of AnySlice k _ \<Rightarrow> (case Golang2AttrTypeMap k of
          Some newType \<Rightarrow> createSimpleArray td tdb \<lparr>cs_DataType = newType, cs_Dims = ps_Dims input, cs_ArrayPath = ?p,
            cs_CellLayout = ps_CellLayout input, cs_TileLayout = ps_TileLayout input, cs_TileExtent = ps_TileExtent input\<rparr>
        | None \<Rightarrow> io_err (Errorf ''invalid simple array type'' []))
        | AnyCell _ \<Rightarrow> io_err (Errorf ''invalid simple array type'' []) | AnyNil \<Rightarrow> io_res Panic else io_return ()) w1
      (\<lambda>_ w'. does (io_bind (if ps_Buffer input = AnyNil then io_res Panic else io_return ()) (\<lambda>_.
        io_bind (io_res (simple_range (ps_Dims input))) (\<lambda>br. PutArray td tdb
          \<lparr>pa_Buffers = [\<lparr>pb_AttrName = defaultAttrName, pb_Buffer = ps_Buffer input, pb_Offsets = None\<rparr>],
           pa_BufferRange = br, pa_DataPath = ?p, pa_ArrayType = ARRAY_DENSE, pa_Coords = [], pa_PutLayout = ps_PutLayout input\<rparr>))) w'
        (\<lambda>_ w'. tdb_shape arr tdb w' ?p = Some ([simple_attr t], ns) \<and> tdb_content arr tdb w' ?p = [(defaultAttrName, Cells k cs)]))"
      using w create [of w1] put simple_range_one_two [of ns] input k
      by (auto simp: does_bind_iff io_res_def does_lift elim!: does_mono)
  qed
qed

text \<open>The part of a simple array that a get selects: \<^verbatim>\<open>YRange\<close> is of the rows, \<^verbatim>\<open>XRange\<close> of the columns.\<close>

definition range_arg :: "int list \<Rightarrow> nat \<Rightarrow> nat \<times> nat \<Rightarrow> bool" where
  "range_arg xs n r \<longleftrightarrow> xs = [int (fst r) + 1, int (snd r)] \<or> length xs \<noteq> 2 \<and> r = (0, n)"

definition simple_box :: "nat list \<Rightarrow> GetSimpleArrayInput \<Rightarrow> (nat \<times> nat) list \<Rightarrow> bool" where
  "simple_box ns input rs \<longleftrightarrow> box_ok ns rs \<and>
     (length (gs_XRange input) \<noteq> 2 \<and> length (gs_YRange input) \<noteq> 2 \<and> rs = whole ns \<or>
      (\<exists>r c y x. ns = [r, c] \<and> rs = [y, x] \<and> range_arg (gs_YRange input) r y \<and> range_arg (gs_XRange input) c x))"

lemma simple_box_asks: "simple_box ns input rs \<Longrightarrow> asks_for ns (simple_get_range input) rs"
  by (auto simp: simple_box_def asks_for_def simple_get_range_def range_arg_def)


subsection \<open>Refusals\<close>

text \<open>Opening an array that is not there; every operation that works on an existing array begins with it.\<close>

lemma open_refused:
  assumes "array_laws o' ctx obj arr" and "arr w uri = None"
  shows "fails (io_bind (NewArray o' ctx uri) (\<lambda>array. io_bind (ArrayOpen o' array mode) (f array))) w (\<lambda>w'. arr w' = arr w)"
proof (rule fails_bind, rule does_makes [OF array_lawsD(1) [OF assms(1)]], rule fails_first)
  fix a w1 assume "obj w1 a = Some (OArray uri None)" "arr w1 = arr w"
  then show "fails (ArrayOpen o' a mode) w1 (\<lambda>w'. arr w' = arr w)"
    using array_lawsD(6) [OF assms(1), of w1 a uri mode] assms(2) by (auto simp: refuses_def elim: fails_mono)
qed


end
