(* ===== verification/TileDb_Memory.thy ===== *)
theory TileDb_Memory
  imports TileDb_Arrays
begin

section \<open>A TileDB package in memory\<close>

text \<open>
  A package that meets every law of \<open>tiledb_laws\<close>: handles are positions in a list of objects,
  arrays are a map from URIs. The laws are therefore consistent, and the life of a recordset is
  shown on a concrete one.
\<close>

subsection \<open>State\<close>

record im_state =
  im_objects :: "tdb_obj list"
  im_arrays :: "string \<rightharpoonup> stored_array"

definition im_obj :: "(im_state, nat) obj_view" where
  "im_obj w h = (if h < length (im_objects (remote w)) then Some (im_objects (remote w) ! h) else None)"

definition im_arr :: "im_state arr_view" where
  "im_arr w = im_arrays (remote w)"

type_synonym 'a im = "(im_state, 'a) io"

text \<open>The world with objects added, with one changed, with an array stored.\<close>

definition im_fresh :: "im_state world \<Rightarrow> nat" where
  "im_fresh w = length (im_objects (remote w))"

definition im_add :: "tdb_obj list \<Rightarrow> im_state world \<Rightarrow> im_state world" where
  "im_add xs w = w \<lparr>remote := remote w \<lparr>im_objects := im_objects (remote w) @ xs\<rparr>\<rparr>"

definition im_upd :: "nat \<Rightarrow> tdb_obj \<Rightarrow> im_state world \<Rightarrow> im_state world" where
  "im_upd h x w = w \<lparr>remote := remote w \<lparr>im_objects := (im_objects (remote w))[h := x]\<rparr>\<rparr>"

definition im_put :: "string \<Rightarrow> stored_array \<Rightarrow> im_state world \<Rightarrow> im_state world" where
  "im_put uri sa w = w \<lparr>remote := remote w \<lparr>im_arrays := (im_arrays (remote w))(uri \<mapsto> sa)\<rparr>\<rparr>"

definition im_new :: "tdb_obj \<Rightarrow> nat im" where
  "im_new x w = Some (Ok (im_fresh w), im_add [x] w)"

definition im_news :: "tdb_obj list \<Rightarrow> nat list im" where
  "im_news xs w = Some (Ok [im_fresh w..<im_fresh w + length xs], im_add xs w)"

definition im_set :: "nat \<Rightarrow> tdb_obj \<Rightarrow> unit im" where
  "im_set h x w = Some (Ok (), im_upd h x w)"

definition im_store :: "string \<Rightarrow> stored_array \<Rightarrow> unit im" where
  "im_store uri sa w = Some (Ok (), im_put uri sa w)"

definition im_bad :: "'a im" where
  "im_bad = io_err (External ''invalid handle'')"

definition im_with :: "nat \<Rightarrow> (tdb_obj \<Rightarrow> 'a im) \<Rightarrow> 'a im" where
  "im_with h f w = (case im_obj w h of Some x \<Rightarrow> f x w | None \<Rightarrow> im_bad w)"

definition im_array :: "string \<Rightarrow> (stored_array \<Rightarrow> 'a im) \<Rightarrow> 'a im" where
  "im_array uri f w = (case im_arr w uri of Some sa \<Rightarrow> f sa w | None \<Rightarrow> im_bad w)"

lemma im_views [simp]:
  "im_arr (im_add xs w) = im_arr w" "im_arr (im_upd h x w) = im_arr w" "im_arr (im_put uri sa w) = (im_arr w)(uri \<mapsto> sa)"
  "im_obj (im_put uri sa w) = im_obj w" "im_obj w (im_fresh w) = None"
  "im_obj (im_add [x] w) = (im_obj w)(im_fresh w \<mapsto> x)" "im_obj w \<subseteq>\<^sub>m im_obj (im_add xs w)"
  by (auto simp: im_obj_def im_arr_def im_add_def im_upd_def im_put_def im_fresh_def fun_eq_iff map_le_def nth_append split: if_splits)

lemma im_upd_obj [simp]: "im_obj w h = Some y \<Longrightarrow> im_obj (im_upd h x w) = (im_obj w)(h \<mapsto> x)"
  by (auto simp: im_obj_def im_upd_def fun_eq_iff split: if_splits)

lemma im_fresh_le [simp]: "im_obj w \<subseteq>\<^sub>m (im_obj w)(im_fresh w \<mapsto> x)"
  by (rule map_le_fresh) simp_all

lemma im_news_stand: "stand_for im_obj (im_add xs w) [im_fresh w..<im_fresh w + length xs] xs"
  by (auto simp: stand_for_def im_obj_def im_add_def im_fresh_def nth_append list_all2_conv_all_nth)

lemmas im_calls = makes_def sets_def tells_def does_def im_new_def im_news_def im_set_def im_store_def im_with_def im_array_def

subsection \<open>Describing arrays\<close>

definition im_dims :: "im_state world \<Rightarrow> nat list \<Rightarrow> (string \<times> int \<times> int) list" where
  "im_dims w hs = map (\<lambda>h. case im_obj w h of Some (ODim n lo hi) \<Rightarrow> (n, lo, hi) | _ \<Rightarrow> ([], 0, 0)) hs"

definition im_attrs :: "im_state world \<Rightarrow> nat list \<Rightarrow> (string \<times> tdb_datatype \<times> bool) list" where
  "im_attrs w hs = map (\<lambda>h. case im_obj w h of Some (OAttr n t v) \<Rightarrow> (n, t, v) | _ \<Rightarrow> ([], TILEDB_INT64, False)) hs"

definition im_tiledb_objects :: "(im_state, nat) tiledb_objects" where
  "im_tiledb_objects = \<lparr>
     NewConfig = io_return 0, ConfigSet = \<lambda>c k v. io_return (), NewContext = \<lambda>c. io_return 0,
     ObjectInvalid = \<lambda>ctx uri w. Some (Ok (im_arr w uri = None), w),
     NewDomain = \<lambda>ctx. im_new (ODomain []),
     NewStringDimension = \<lambda>ctx n. im_new (ODim n 0 0),
     NewDimension = \<lambda>ctx n t dom ext. (case dom of [lo, hi] \<Rightarrow> im_new (ODim n lo hi) | _ \<Rightarrow> im_bad),
     AddDimensions = \<lambda>d hs. im_with d (\<lambda>x. case x of ODomain ds \<Rightarrow> (\<lambda>w. im_set d (ODomain (ds @ im_dims w hs)) w) | _ \<Rightarrow> im_bad),
     NewAttribute = \<lambda>ctx n t. im_new (OAttr n t False),
     SetCellValVar = \<lambda>a. im_with a (\<lambda>x. case x of OAttr n t v \<Rightarrow> im_set a (OAttr n t True) | _ \<Rightarrow> im_bad),
     NewArraySchema = \<lambda>ctx at. im_new (OSchema at [] []),
     SetDomain = \<lambda>s d. im_with s (\<lambda>x. case x of OSchema at ds as \<Rightarrow>
       im_with d (\<lambda>y. case y of ODomain ds \<Rightarrow> im_set s (OSchema at ds as) | _ \<Rightarrow> im_bad) | _ \<Rightarrow> im_bad),
     AddAttributes = \<lambda>s hs. im_with s (\<lambda>x. case x of OSchema at ds as \<Rightarrow>
       (\<lambda>w. im_set s (OSchema at ds (as @ im_attrs w hs)) w) | _ \<Rightarrow> im_bad),
     SetCellOrder = \<lambda>s l. io_return (), SetTileOrder = \<lambda>s l. io_return (),
     NewArray = \<lambda>ctx uri. im_new (OArray uri None),
     ArrayCreate = \<lambda>a s. im_with a (\<lambda>x. case x of OArray uri m \<Rightarrow> im_with s (\<lambda>y. case y of
         OSchema at ds as \<Rightarrow> (\<lambda>w. if im_arr w uri = None
           then im_store uri \<lparr>sa_type = at, sa_dims = ds, sa_attrs = as, sa_columns = []\<rparr> w else im_bad w) | _ \<Rightarrow> im_bad)
       | _ \<Rightarrow> im_bad),
     ArrayOpen = \<lambda>a mode. im_with a (\<lambda>x. case x of OArray uri m \<Rightarrow>
       im_array uri (\<lambda>sa. im_set a (OArray uri (Some mode))) | _ \<Rightarrow> im_bad),
     ArrayClose = \<lambda>a. im_with a (\<lambda>x. case x of OArray uri m \<Rightarrow> im_set a (OArray uri None) | _ \<Rightarrow> im_bad)\<rparr>"

lemma im_dims_stand: "stand_for im_obj w hs (map dim_obj dims) \<Longrightarrow> im_dims w hs = dims"
proof (induction dims arbitrary: hs)
  case (Cons d dims)
  then obtain h hs' where "hs = h # hs'" "im_obj w h = Some (dim_obj d)" "stand_for im_obj w hs' (map dim_obj dims)"
    by (auto simp: stand_for_def list_all2_Cons2)
  with Cons.IH show ?case
    by (cases d) (simp add: im_dims_def)
qed (simp add: stand_for_def im_dims_def)

lemma im_attrs_stand: "stand_for im_obj w hs (map attr_obj attrs) \<Longrightarrow> im_attrs w hs = attrs"
proof (induction attrs arbitrary: hs)
  case (Cons d attrs)
  then obtain h hs' where "hs = h # hs'" "im_obj w h = Some (attr_obj d)" "stand_for im_obj w hs' (map attr_obj attrs)"
    by (auto simp: stand_for_def list_all2_Cons2)
  with Cons.IH show ?case
    by (cases d) (simp add: im_attrs_def)
qed (simp add: stand_for_def im_attrs_def)

lemma im_create_laws: "create_laws im_tiledb_objects ctx im_obj im_arr"
proof -
  have dims: "sets im_obj im_arr (AddDimensions im_tiledb_objects d hs) w d (ODomain (ds @ dims))"
    if "im_obj w d = Some (ODomain ds)" "stand_for im_obj w hs (map dim_obj dims)" for w d ds hs dims
    using that(1) im_dims_stand [OF that(2)] by (simp add: im_tiledb_objects_def im_calls)
  have attrs: "sets im_obj im_arr (AddAttributes im_tiledb_objects s hs) w s (OSchema at ds (as @ attrs))"
    if "im_obj w s = Some (OSchema at ds as)" "stand_for im_obj w hs (map attr_obj attrs)" for w s at ds as hs attrs
    using that(1) im_attrs_stand [OF that(2)] by (simp add: im_tiledb_objects_def im_calls)
  show ?thesis
    unfolding create_laws_def
    by (intro conjI allI impI dims attrs; assumption?) (simp_all add: im_tiledb_objects_def im_calls io_return_def)
qed

lemma im_array_laws: "array_laws im_tiledb_objects ctx im_obj im_arr"
  unfolding array_laws_def
  by (auto simp: im_tiledb_objects_def im_calls refuses_def fails_def im_bad_def io_err_def split: tdb_obj.split)

subsection \<open>Loaded arrays\<close>

definition im_tiledb_schemas :: "(im_state, nat) tiledb_schemas" where
  "im_tiledb_schemas = \<lparr>
     Schema = \<lambda>a. im_with a (\<lambda>x. case x of OArray uri m \<Rightarrow>
       im_array uri (\<lambda>sa. im_new (OSchema (sa_type sa) (sa_dims sa) (sa_attrs sa))) | _ \<Rightarrow> im_bad),
     SchemaType = \<lambda>s. im_with s (\<lambda>x. case x of OSchema at ds as \<Rightarrow> io_return at | _ \<Rightarrow> im_bad),
     SchemaAttributes = \<lambda>s. im_with s (\<lambda>x. case x of OSchema at ds as \<Rightarrow> im_news (map attr_obj as) | _ \<Rightarrow> im_bad),
     AttributeName = \<lambda>h. im_with h (\<lambda>x. case x of OAttr n t v \<Rightarrow> io_return n | _ \<Rightarrow> im_bad),
     AttributeType = \<lambda>h. im_with h (\<lambda>x. case x of OAttr n t v \<Rightarrow> io_return t | _ \<Rightarrow> im_bad),
     SchemaDomain = \<lambda>s. im_with s (\<lambda>x. case x of OSchema at ds as \<Rightarrow> im_new (ODomain ds) | _ \<Rightarrow> im_bad),
     NDim = \<lambda>d. im_with d (\<lambda>x. case x of ODomain ds \<Rightarrow> io_return (length ds) | _ \<Rightarrow> im_bad),
     DimensionFromIndex = \<lambda>d i. im_with d (\<lambda>x. case x of ODomain ds \<Rightarrow>
       if i < length ds then im_new (dim_obj (ds ! i)) else im_bad | _ \<Rightarrow> im_bad),
     DimensionName = \<lambda>h. im_with h (\<lambda>x. case x of ODim n lo hi \<Rightarrow> io_return n | _ \<Rightarrow> im_bad),
     DimensionDomain = \<lambda>h. im_with h (\<lambda>x. case x of
       ODim n lo hi \<Rightarrow> io_return (AnySlice Int64 [CInt64 (word_of_int lo), CInt64 (word_of_int hi)]) | _ \<Rightarrow> im_bad)\<rparr>"

lemma im_schema_laws: "schema_laws im_tiledb_schemas im_obj im_arr"
  unfolding schema_laws_def
  by (simp add: im_tiledb_schemas_def im_calls io_return_def im_news_stand [of "map attr_obj _", simplified])

subsection \<open>Queries\<close>

text \<open>The columns that the buffers of a write hold, and the buffers of a read once they are filled.\<close>

definition im_column :: "go_any \<Rightarrow> (nat \<times> 64 word list) option \<Rightarrow> array_column" where
  "im_column b off = (case b of
     AnySlice k cs \<Rightarrow> (case off of
       None \<Rightarrow> Cells k cs
     | Some (j, o') \<Rightarrow> Strings (case column_decode (byte_cells cs, o') of Ok ss \<Rightarrow> ss | _ \<Rightarrow> []))
   | _ \<Rightarrow> Cells Uint8 [])"

definition im_written ::
    "(nat \<times> string \<times> go_any) list \<Rightarrow> (string \<times> nat \<times> 64 word list) list \<Rightarrow> (string \<times> array_column) list" where
  "im_written ds os = map (\<lambda>(i, name, b). (name, im_column b (map_of os name))) ds"

definition im_filled ::
    "(nat \<times> string \<times> go_any) list \<Rightarrow> (string \<times> nat \<times> 64 word list) list \<Rightarrow> (string \<times> array_column) list \<Rightarrow> filled" where
  "im_filled ds os cols = \<lparr>
     filled_data = \<lambda>i. (case map_of ds i of
       Some (name, AnySlice k bs) \<Rightarrow>
         map_option (\<lambda>c. let cs = snd (column_cells c) in AnySlice k (cs @ drop (length cs) bs)) (map_of cols name)
     | _ \<Rightarrow> None),
     filled_offsets = \<lambda>i. (case map_of ds i of
       Some (name, b) \<Rightarrow> (case (Option.bind (map_of cols name) column_offsets, map_of os name) of
         (Some o', Some (j, buf)) \<Rightarrow> Some (o' @ drop (length o') buf) | _ \<Rightarrow> None)
     | None \<Rightarrow> None)\<rparr>"

fun im_box :: "int list \<Rightarrow> (nat \<times> nat) list" where
  "im_box (a # b # r) = (nat (a - 1), nat b) # im_box r"
| "im_box r = []"

definition im_columns :: "stored_array \<Rightarrow> int list \<Rightarrow> (string \<times> array_column) list" where
  "im_columns sa r = map (\<lambda>(name, c). (name, column_box (sa_sizes sa) (im_box r) c)) (sa_columns sa)"

definition im_counts :: "(string \<times> array_column) list \<Rightarrow> buffer_elements" where
  "im_counts cols name = (case map_of cols name of Some c \<Rightarrow> counts c | None \<Rightarrow> (0, 0, 0))"

definition im_tiledb_queries :: "(im_state, nat) tiledb_queries" where
  "im_tiledb_queries = \<lparr>
     NewQuery = \<lambda>ctx a. im_with a (\<lambda>x. case x of OArray uri (Some m) \<Rightarrow> im_new (OQuery uri m [] [] []) | _ \<Rightarrow> im_bad),
     SetLayout = \<lambda>q l. io_return (),
     NewSubarray = \<lambda>a. im_new (OSubarray []),
     SetSubArray = \<lambda>s r. im_with s (\<lambda>x. case x of OSubarray r0 \<Rightarrow> im_set s (OSubarray r) | _ \<Rightarrow> im_bad),
     SetSubarray = \<lambda>q s. im_with q (\<lambda>x. case x of OQuery uri m r0 ds os \<Rightarrow>
       im_with s (\<lambda>y. case y of OSubarray r \<Rightarrow> im_set q (OQuery uri m r ds os) | _ \<Rightarrow> im_bad) | _ \<Rightarrow> im_bad),
     SetDataBuffer = \<lambda>q name i b. im_with q (\<lambda>x. case x of
       OQuery uri m r ds os \<Rightarrow> im_set q (OQuery uri m r (ds @ [(i, name, b)]) os) | _ \<Rightarrow> im_bad),
     SetOffsetsBuffer = \<lambda>q name i b. im_with q (\<lambda>x. case x of
       OQuery uri m r ds os \<Rightarrow> im_set q (OQuery uri m r ds (AList.update name (i, b) os)) | _ \<Rightarrow> im_bad),
     EstimateBufferElements = \<lambda>q. im_with q (\<lambda>x. case x of
       OQuery uri m r ds os \<Rightarrow> im_array uri (\<lambda>sa. io_return (im_counts (im_columns sa r))) | _ \<Rightarrow> im_bad),
     Submit = \<lambda>q. im_with q (\<lambda>x. case x of
       OQuery uri TILEDB_WRITE r ds os \<Rightarrow> im_array uri (\<lambda>sa.
         io_bind (im_store uri (sa \<lparr>sa_columns := im_written ds os\<rparr>)) (\<lambda>_. io_return (im_filled [] [] [])))
     | OQuery uri TILEDB_READ r ds os \<Rightarrow> im_array uri (\<lambda>sa. io_return (im_filled ds os (im_columns sa r)))
     | _ \<Rightarrow> im_bad),
     ResultBufferElements = \<lambda>q. im_with q (\<lambda>x. case x of
       OQuery uri m r ds os \<Rightarrow> im_array uri (\<lambda>sa. io_return (im_counts (im_columns sa r))) | _ \<Rightarrow> im_bad)\<rparr>"

lemma im_query_laws: "query_laws im_tiledb_queries ctx im_obj im_arr"
  unfolding query_laws_def by (simp add: im_tiledb_queries_def im_calls io_return_def)

lemma column_decode_strings:
  "fits_memory ss \<Longrightarrow> column_decode (bytes_of (concat ss), map of_nat (starts ss)) = Ok ss"
  using event_codec.decode_encode [of ss] by (simp add: column_encode_def concat_strings_eq)

lemma im_column_strings: "fits_memory ss \<Longrightarrow> im_column (column_any (Strings ss)) (Some (j, map of_nat (starts ss))) = Strings ss"
  using byte_cells_loaded [of "bytes_of (concat ss)" 0] column_decode_strings [of ss]
  by (simp add: im_column_def column_any_def)

lemma im_written_columns:
  assumes "writes_columns ds os sa cols"
  shows "im_written ds os = cols"
proof -
  have data: "map (\<lambda>(i, name, b). (name, b)) ds = map (\<lambda>(name, c). (name, column_any c)) cols"
    using assms by (simp add: writes_columns_def column_any_def)
  have col: "im_column (column_any c) (map_of os name) = c" if mem: "(name, c) \<in> set cols" for name c
  proof (cases c)
    case (Cells k cs)
    then have "map_of os name = None"
      using assms mem by (auto simp: writes_columns_def list_all_iff)
    then show ?thesis
      by (simp add: Cells im_column_def column_any_def)
  next
    case (Strings ss)
    then have "map_option snd (map_of os name) = Some (map of_nat (starts ss))" and fits: "fits_memory ss"
      using assms mem by (fastforce simp: writes_columns_def list_all_iff)+
    then obtain j where "map_of os name = Some (j, map of_nat (starts ss))"
      by auto
    then show ?thesis
      using im_column_strings [OF fits] by (simp add: Strings)
  qed
  have "im_written ds os = map (\<lambda>(name, b). (name, im_column b (map_of os name))) (map (\<lambda>(i, name, b). (name, b)) ds)"
    by (simp add: im_written_def split_beta comp_def)
  also have "\<dots> = map (\<lambda>(name, c). (name, im_column (column_any c) (map_of os name))) cols"
    by (simp only: data) (simp add: split_beta comp_def)
  also have "\<dots> = cols"
    using col by (intro map_idI) auto
  finally show ?thesis .
qed

lemma im_filled_reads:
  assumes "reads_columns ds os cols"
  shows "read_fills ds os cols (im_filled ds os cols)"
proof -
  have distinct: "distinct (map fst ds)"
    using assms by (simp add: reads_columns_def)
  have "map_of ds i = Some (name, b)" if "(i, name, b) \<in> set ds" for i name b
    using distinct that by simp
  then show ?thesis
    by (auto simp: read_fills_def im_filled_def Let_def)
qed

lemma im_box_range [simp]: "im_box (range_ints rs) = rs"
  by (induction rs) simp_all

lemma im_range_read:
  assumes "range_read im_arr w uri r cols"
  obtains sa where "im_arr w uri = Some sa" "im_columns sa r = cols"
  using assms by (auto simp: range_read_def range_query_def im_columns_def)

lemma im_submit_laws: "submit_laws im_tiledb_queries im_obj im_arr"
  unfolding submit_laws_def
proof (intro conjI allI impI)
  fix w q uri r ds os sa cols
  assume "im_obj w q = Some (OQuery uri TILEDB_WRITE r ds os)" "range_query im_arr w uri r sa (whole (sa_sizes sa))"
    and "writes_columns ds os sa cols"
  then show "does (Submit im_tiledb_queries q) w
      (\<lambda>_ w'. im_obj w' = im_obj w \<and> im_arr w' = (im_arr w)(uri \<mapsto> sa \<lparr>sa_columns := cols\<rparr>))"
    by (simp add: im_tiledb_queries_def im_calls range_query_def io_return_def io_bind_def im_written_columns)
next
  fix w q uri r ds os cols
  assume q: "im_obj w q = Some (OQuery uri TILEDB_READ r ds os)" and "range_read im_arr w uri r cols"
  then obtain sa where sa: "im_arr w uri = Some sa" "im_columns sa r = cols"
    by (auto elim: im_range_read)
  show "tells im_obj im_arr (EstimateBufferElements im_tiledb_queries q) w (\<lambda>f. \<forall>name c. map_of cols name = Some c \<longrightarrow> f name = counts c)"
    using q sa by (simp add: im_tiledb_queries_def im_calls io_return_def im_counts_def)
  assume "reads_columns ds os cols"
  then show "tells im_obj im_arr (Submit im_tiledb_queries q) w (read_fills ds os cols)"
    and "tells im_obj im_arr (ResultBufferElements im_tiledb_queries q) w (\<lambda>f. \<forall>name c. map_of cols name = Some c \<longrightarrow> f name = counts c)"
    using q sa im_filled_reads by (simp_all add: im_tiledb_queries_def im_calls io_return_def im_counts_def)
qed

subsection \<open>The life of a recordset\<close>

definition im_tiledb :: "(im_state, nat) tiledb" where
  "im_tiledb = \<lparr>objs = im_tiledb_objects, schs = im_tiledb_schemas, qrys = im_tiledb_queries\<rparr>"

lemma im_tiledb_laws: "tiledb_laws im_tiledb ctx im_obj im_arr"
  by (simp add: tiledb_laws_def im_tiledb_def im_create_laws im_array_laws im_schema_laws im_query_laws im_submit_laws)

definition im_store_tdb :: "nat TileDbEventStore" where
  "im_store_tdb = \<lparr>tdb_context = 0, tdb_uri = ''s3://b/r/eventdb''\<rparr>"

definition im_pm :: "im_state mds IOManager" where
  "im_pm = \<lparr>im_Attributes = [], im_Stores = [\<lparr>st_Name = ''events'', st_ID = None, st_StoreType = ''TILEDB'', st_DsProfile = [],
     st_Parameters = [], st_Session = Some (tdb_mds im_tiledb im_store_tdb)\<rparr>], im_Inputs = [], im_Outputs = [], im_parent = None\<rparr>"

definition im_rs :: "struct_field list \<Rightarrow> cell list list \<Rightarrow> im_state mds Recordset" where
  "im_rs flds data = \<lparr>rs_buffer = data, rs_bds = map (column data) (tagged flds), rs_storename = ''events'', rs_datapath = ''people'',
     rs_pm = im_pm\<rparr>"

definition im_empty :: "im_state world" where
  "im_empty = \<lparr>disk = \<lparr>fs_files = [], fs_dirs = []\<rparr>, remote = \<lparr>im_objects = [], im_arrays = Map.empty\<rparr>\<rparr>"

lemma im_absent [simp]: "im_arr im_empty uri = None"
  by (simp add: im_arr_def im_empty_def)

lemma im_recordset_ok:
  assumes "list_all (has_type flds) data" and "storable flds" and "distinct_tags flds" and "records_fit flds data"
  shows "recordset_ok Some (\<lambda>_. im_pm) (tdb_mds im_tiledb im_store_tdb) (im_rs flds data) flds data"
proof -
  have "NewEventStoreRecordset im_pm flds data ''events'' ''people'' = Ok (im_rs flds data)"
    by (simp add: NewEventStoreRecordset_def StructSliceToArrayConfig_columns [OF assms(2,1)] im_rs_def)
  moreover have "GetStore (\<lambda>_. im_pm) im_pm ''events'' = Some (Ok (hd (im_Stores im_pm)))"
    by (subst GetStore.simps) (simp add: im_pm_def)
  ultimately show ?thesis
    using assms by (simp add: recordset_ok_def im_rs_def im_pm_def)
qed

text \<open>Records with a string, all of them read; and numbers, of which the last two are.\<close>

definition im_flds :: "struct_field list" where
  "im_flds = [\<lparr>sf_Kind = Int8, sf_Tag = Some ''depth''\<rparr>, \<lparr>sf_Kind = Bytes, sf_Tag = None\<rparr>, \<lparr>sf_Kind = StringKind, sf_Tag = Some ''name''\<rparr>]"

definition im_data :: "cell list list" where
  "im_data = [[CInt8 3, CBytes [7], CString ''ab''], [CInt8 4, CBytes [8], CString '''']]"

definition im_numbers :: "struct_field list" where
  "im_numbers = [\<lparr>sf_Kind = Int8, sf_Tag = Some ''depth''\<rparr>]"

lemma im_tagged: "tagged im_flds = [(0, ''depth'', Int8), (2, ''name'', StringKind)]" "tagged im_numbers = [(0, ''depth'', Int8)]"
  by (simp_all add: tagged_def im_flds_def im_numbers_def)

lemma im_examples_ok:
  "recordset_ok Some (\<lambda>_. im_pm) (tdb_mds im_tiledb im_store_tdb) (im_rs im_flds im_data) im_flds im_data"
  "recordset_ok Some (\<lambda>_. im_pm) (tdb_mds im_tiledb im_store_tdb) (im_rs im_numbers [[CInt8 3], [CInt8 4], [CInt8 5]]) im_numbers
    [[CInt8 3], [CInt8 4], [CInt8 5]]"
  by (rule im_recordset_ok;
      simp add: has_type_def storable_def records_fit_def distinct_tags_def im_tagged im_data_def value_String_def Golang2AttrTypeMap_def;
      simp add: im_flds_def im_numbers_def)+



text \<open>A simple array of one element that is stored: it cannot be created again, and no other can be written or read.\<close>

definition im_stored :: "im_state world" where
  "im_stored = im_put ''s3://b/r/eventdb/grid'' \<lparr>sa_type = TILEDB_DENSE, sa_dims = [(''0'', 1, 1)],
     sa_attrs = [(''a'', TILEDB_INT16, False)], sa_columns = []\<rparr> im_empty"

definition im_grid :: CreateArrayInput where
  "im_grid = simple_array_input \<lparr>cs_DataType = ATTR_INT16, cs_Dims = [1], cs_ArrayPath = ''grid'', cs_CellLayout = ROWMAJOR,
     cs_TileLayout = ROWMAJOR, cs_TileExtent = []\<rparr>"


end
