(* ===== verification/Message_Queue.thy ===== *)
theory Message_Queue
  imports Go_Reflect Io_Calls
begin

section \<open>Message queue\<close>

text \<open>
  \<^verbatim>\<open>mq/cc-message-queue.go\<close>: a queue over an MQTT client. The client (autopaho) is a record of
  functions; \<open>client_laws\<close> is what its documentation promises of the functions it calls for
  a message and of the topics the broker sends. What a queue promises its users is the locale
  \<open>message_queue\<close>: every sequence of calls behaves as a map from topics to functions.
\<close>

subsection \<open>The client\<close>

record client_config =
  cc_ServerUrls :: "string list"
  cc_KeepAlive :: "16 word"
  cc_CleanStart :: bool
  cc_SessionExpiryInterval :: "32 word"
  cc_ClientID :: string

record publish =
  pub_QoS :: nat
  pub_Topic :: string
  pub_Payload :: "byte list"
  pub_Retain :: bool

text \<open>The closure that \<^verbatim>\<open>Subscribe\<close> adds to the client, with the function it captures; what a call of it does.\<close>

datatype 'f publish_handler = PassTo (handler_function: 'f)

fun on_publish :: "'f publish_handler \<Rightarrow> string \<Rightarrow> byte list \<Rightarrow> ('f \<times> string \<times> byte list) list \<times> bool" where
  "on_publish (PassTo subscriptionFunc) topic payload = ([(subscriptionFunc, topic, payload)], True)"

text \<open>A nil client is \<open>None\<close>; a function that removes a handler is a value of type \<open>'r\<close>.\<close>

record ('w, 'c, 'r, 'f) paho =
  NewConnection :: "client_config \<Rightarrow> ('w, 'c) io"
  AwaitConnection :: "'c \<Rightarrow> ('w, unit) io"
  ClientSubscribe :: "'c option \<Rightarrow> (string \<times> nat) list \<Rightarrow> ('w, unit) io"
  AddOnPublishReceived :: "'c option \<Rightarrow> 'f publish_handler \<Rightarrow> ('w, 'r) io"
  CallRemove :: "'r \<Rightarrow> ('w, unit) io"
  ClientPublish :: "'c option \<Rightarrow> publish \<Rightarrow> ('w, unit) io"

subsection \<open>The queue\<close>

definition ErrNotSubscribed :: go_error where
  "ErrNotSubscribed = Errorf ''the client is not subscribed to this topic'' []"

definition ErrAlreadySubscribed :: go_error where
  "ErrAlreadySubscribed = Errorf ''the client is already subscribed to this topic'' []"

record ('c, 'r) PahoMessageQueue =
  pq_ClientId :: string
  pq_ServerURIs :: "string list"
  pq_client :: "'c option"
  pq_subscriptions :: "string \<rightharpoonup> 'r"

definition paho_config :: "('c, 'r) PahoMessageQueue \<Rightarrow> client_config" where
  "paho_config pmq = \<lparr>cc_ServerUrls = pq_ServerURIs pmq, cc_KeepAlive = 20, cc_CleanStart = False,
     cc_SessionExpiryInterval = 60, cc_ClientID = pq_ClientId pmq\<rparr>"

text \<open>An operation that returns an error leaves the queue as it is.\<close>

definition paho_Connect :: "('w, 'c, 'r, 'f) paho \<Rightarrow> ('c, 'r) PahoMessageQueue \<Rightarrow> ('w, ('c, 'r) PahoMessageQueue) io" where
  "paho_Connect api pmq =
     io_bind (NewConnection api (paho_config pmq)) (\<lambda>c.
     io_bind (AwaitConnection api c) (\<lambda>_. io_return (pmq \<lparr>pq_client := Some c\<rparr>)))"

definition paho_Subscribe ::
    "('w, 'c, 'r, 'f) paho \<Rightarrow> ('c, 'r) PahoMessageQueue \<Rightarrow> string \<Rightarrow> 'f \<Rightarrow> ('w, ('c, 'r) PahoMessageQueue) io" where
  "paho_Subscribe api pmq topic subscriptionFunc =
     (if pq_subscriptions pmq topic \<noteq> None then io_err ErrAlreadySubscribed else
      io_bind (ClientSubscribe api (pq_client pmq) [(topic, 1)]) (\<lambda>_.
      io_bind (AddOnPublishReceived api (pq_client pmq) (PassTo subscriptionFunc)) (\<lambda>unsubscribeFunc.
        io_return (pmq \<lparr>pq_subscriptions := (pq_subscriptions pmq)(topic \<mapsto> unsubscribeFunc)\<rparr>))))"

definition paho_UnSubscribe ::
    "('w, 'c, 'r, 'f) paho \<Rightarrow> ('c, 'r) PahoMessageQueue \<Rightarrow> string \<Rightarrow> ('w, ('c, 'r) PahoMessageQueue) io" where
  "paho_UnSubscribe api pmq topic = (case pq_subscriptions pmq topic of
     None \<Rightarrow> io_err ErrNotSubscribed
   | Some unsubscribeFunc \<Rightarrow> io_bind (CallRemove api unsubscribeFunc) (\<lambda>_.
       io_return (pmq \<lparr>pq_subscriptions := (pq_subscriptions pmq)(topic := None)\<rparr>)))"

definition paho_Send ::
    "('w, 'c, 'r, 'f) paho \<Rightarrow> ('c, 'r) PahoMessageQueue \<Rightarrow> string \<Rightarrow> byte list \<Rightarrow> ('w, unit) io" where
  "paho_Send api pmq topic payload = ClientPublish api (pq_client pmq)
     \<lparr>pub_QoS = 1, pub_Topic = topic, pub_Payload = payload, pub_Retain = True\<rparr>"

text \<open>\<^verbatim>\<open>NewMqttMessageQueue\<close> returns the queue also when connecting fails; \<^verbatim>\<open>url.Parse\<close> is an argument.\<close>

definition NewMqttMessageQueue ::
    "(string \<Rightarrow> string res) \<Rightarrow> ('w, 'c, 'r, 'f) paho \<Rightarrow> string \<Rightarrow> string \<Rightarrow>
     ('w, ('c, 'r) PahoMessageQueue \<times> go_error option) io" where
  "NewMqttMessageQueue url_Parse api clientId serverUri =
     io_bind (io_res (url_Parse (''mqtt://'' @ serverUri))) (\<lambda>u.
     let mq = \<lparr>pq_ClientId = clientId, pq_ServerURIs = [u], pq_client = None, pq_subscriptions = Map.empty\<rparr> in
     io_bind (io_catch (paho_Connect api mq)) (\<lambda>r. io_return (case r of
       Inr mq \<Rightarrow> (mq, None)
     | Inl err \<Rightarrow> (mq, Some err))))"

subsection \<open>The interface\<close>

record ('w, 'q, 'f) CcMessageQueue =
  mq_Send :: "'q \<Rightarrow> string \<Rightarrow> byte list \<Rightarrow> ('w, unit) io"
  mq_Subscribe :: "'q \<Rightarrow> string \<Rightarrow> 'f \<Rightarrow> ('w, 'q) io"
  mq_UnSubscribe :: "'q \<Rightarrow> string \<Rightarrow> ('w, 'q) io"

definition paho_queue :: "('w, 'c, 'r, 'f) paho \<Rightarrow> ('w, ('c, 'r) PahoMessageQueue, 'f) CcMessageQueue" where
  "paho_queue api = \<lparr>mq_Send = paho_Send api, mq_Subscribe = paho_Subscribe api, mq_UnSubscribe = paho_UnSubscribe api\<rparr>"

text \<open>A sequence of calls, their errors, and the map from topics to functions it is meant to maintain.\<close>

datatype 'f mq_call = DoSubscribe string 'f | DoUnSubscribe string | DoSend string "byte list"

fun mq_apply :: "('w, 'q, 'f) CcMessageQueue \<Rightarrow> 'f mq_call \<Rightarrow> 'q \<Rightarrow> ('w, go_error option \<times> 'q) io" where
  "mq_apply Q (DoSubscribe t f) q = io_bind (io_catch (mq_Subscribe Q q t f)) (\<lambda>r.
     io_return (case r of Inl e \<Rightarrow> (Some e, q) | Inr q' \<Rightarrow> (None, q')))"
| "mq_apply Q (DoUnSubscribe t) q = io_bind (io_catch (mq_UnSubscribe Q q t)) (\<lambda>r.
     io_return (case r of Inl e \<Rightarrow> (Some e, q) | Inr q' \<Rightarrow> (None, q')))"
| "mq_apply Q (DoSend t p) q = io_bind (io_catch (mq_Send Q q t p)) (\<lambda>r.
     io_return (case r of Inl e \<Rightarrow> (Some e, q) | Inr _ \<Rightarrow> (None, q)))"

fun mq_run :: "('w, 'q, 'f) CcMessageQueue \<Rightarrow> 'f mq_call list \<Rightarrow> 'q \<Rightarrow> ('w, go_error option list \<times> 'q) io" where
  "mq_run Q [] q = io_return ([], q)"
| "mq_run Q (c # cs) q = io_bind (mq_apply Q c q) (\<lambda>(e, q'). io_bind (mq_run Q cs q') (\<lambda>(es, q''). io_return (e # es, q'')))"

inductive spec_step :: "(string \<rightharpoonup> 'f) \<Rightarrow> 'f mq_call \<Rightarrow> go_error option \<Rightarrow> (string \<rightharpoonup> 'f) \<Rightarrow> bool" where
  subscribed: "m t = None \<Longrightarrow> spec_step m (DoSubscribe t f) None (m(t \<mapsto> f))"
| refused: "m t = None \<Longrightarrow> spec_step m (DoSubscribe t f) (Some e) m"
| taken: "m t \<noteq> None \<Longrightarrow> spec_step m (DoSubscribe t f) (Some ErrAlreadySubscribed) m"
| unsubscribed: "m t \<noteq> None \<Longrightarrow> spec_step m (DoUnSubscribe t) None (m(t := None))"
| unknown: "m t = None \<Longrightarrow> spec_step m (DoUnSubscribe t) (Some ErrNotSubscribed) m"
| sent: "spec_step m (DoSend t p) e m"

inductive spec_run :: "(string \<rightharpoonup> 'f) \<Rightarrow> 'f mq_call list \<Rightarrow> go_error option list \<Rightarrow> (string \<rightharpoonup> 'f) \<Rightarrow> bool" where
  spec_Nil: "spec_run m [] [] m"
| spec_Cons: "spec_step m c e m' \<Longrightarrow> spec_run m' cs es m'' \<Longrightarrow> spec_run m (c # cs) (e # es) m''"

inductive_cases spec_step_subscribeE: "spec_step m (DoSubscribe t f) e m'"
inductive_cases spec_step_unsubscribeE: "spec_step m (DoUnSubscribe t) e m'"
inductive_cases spec_step_sendE: "spec_step m (DoSend t p) e m'"
inductive_cases spec_run_NilE: "spec_run m [] es m'"
inductive_cases spec_run_ConsE: "spec_run m (c # cs) es m'"

lemma spec_step_keeps:
  "spec_step m c e m' \<Longrightarrow> m t = Some f \<Longrightarrow> c \<noteq> DoUnSubscribe t \<Longrightarrow> m' t = Some f"
  by (induction rule: spec_step.induct) auto

text \<open>A topic keeps its function as long as it is not unsubscribed.\<close>

lemma spec_run_keeps:
  "spec_run m cs es m' \<Longrightarrow> m t = Some f \<Longrightarrow> DoUnSubscribe t \<notin> set cs \<Longrightarrow> m' t = Some f"
  by (induction rule: spec_run.induct) (auto dest: spec_step_keeps)

subsection \<open>The contract of a queue\<close>

locale message_queue =
  fixes Q :: "('w, 'q, 'f) CcMessageQueue"
    and ready :: "'q \<Rightarrow> 'w world \<Rightarrow> bool"
    and subs :: "'q \<Rightarrow> 'w world \<Rightarrow> string \<rightharpoonup> 'f"
  assumes subscribe: "ready q w \<Longrightarrow> does (mq_apply Q (DoSubscribe t f) q) w
      (\<lambda>(e, q') w'. ready q' w' \<and> spec_step (subs q w) (DoSubscribe t f) e (subs q' w'))"
    and unsubscribe: "ready q w \<Longrightarrow> does (mq_apply Q (DoUnSubscribe t) q) w
      (\<lambda>(e, q') w'. ready q' w' \<and> spec_step (subs q w) (DoUnSubscribe t) e (subs q' w'))"
    and send: "ready q w \<Longrightarrow> does (mq_apply Q (DoSend t p) q) w
      (\<lambda>(e, q') w'. ready q' w' \<and> spec_step (subs q w) (DoSend t p) e (subs q' w'))"
begin

lemma apply_refines:
  "ready q w \<Longrightarrow> does (mq_apply Q c q) w
     (\<lambda>(e, q') w'. ready q' w' \<and> spec_step (subs q w) c e (subs q' w'))"
  by (cases c) (use subscribe unsubscribe send in blast)+

lemma run_refines:
  "ready q w \<Longrightarrow> does (mq_run Q cs q) w
     (\<lambda>(es, q') w'. ready q' w' \<and> spec_run (subs q w) cs es (subs q' w'))"
proof (induction cs arbitrary: q w)
  case (Cons c cs)
  show ?case
    unfolding mq_run.simps
  proof (rule does_bind, rule does_pair [OF apply_refines [OF Cons.prems]], elim conjE)
    fix e q' w1 assume step: "ready q' w1" "spec_step (subs q w) c e (subs q' w1)"
    show "does (case (e, q') of (e, q') \<Rightarrow> io_bind (mq_run Q cs q') (\<lambda>(es, q''). io_return (e # es, q''))) w1
       (\<lambda>(es, q') w'. ready q' w' \<and> spec_run (subs q w) (c # cs) es (subs q' w'))"
      using step(2) by (auto intro!: does_bind does_pair [OF Cons.IH [OF step(1)]] spec_Cons)
  qed
qed (simp add: spec_Nil)

text \<open>A topic that has been subscribed keeps its function.\<close>

lemma run_keeps:
  assumes "ready q w" and "subs q w t = Some f" and "DoUnSubscribe t \<notin> set cs"
  shows "does (mq_run Q cs q) w (\<lambda>(es, q') w'. ready q' w' \<and> subs q' w' t = Some f)"
  by (rule does_mono [OF run_refines [OF assms(1)]]) (use assms spec_run_keeps in fastforce)

end

subsection \<open>What the client promises\<close>

text \<open>
  The functions the client calls for a message, in order (\<open>hs\<close>), and the topics the broker sends
  it (\<open>topics\<close>). A new connection has no functions; its session may be an earlier one, so the
  broker may already send topics. There is no call that ends a subscription at the broker.
\<close>

type_synonym ('w, 'r, 'f) handlers_view = "'w world \<Rightarrow> ('r \<times> 'f publish_handler) list"
type_synonym 'w topics_view = "'w world \<Rightarrow> string set"

definition client_laws :: "('w, 'c, 'r, 'f) paho \<Rightarrow> ('w, 'r, 'f) handlers_view \<Rightarrow> 'w topics_view \<Rightarrow> bool" where
  "client_laws api hs topics \<longleftrightarrow>
     (\<forall>cfg w. answers (NewConnection api cfg) w (\<lambda>c w'. hs w' = []) (\<lambda>_. True)) \<and>
     (\<forall>c w. answers (AwaitConnection api c) w (\<lambda>_ w'. hs w' = hs w) (\<lambda>_. True)) \<and>
     (\<forall>c t q w. answers (ClientSubscribe api (Some c) [(t, q)]) w
        (\<lambda>_ w'. hs w' = hs w \<and> topics w' = insert t (topics w)) (\<lambda>w'. hs w' = hs w \<and> topics w' = topics w)) \<and>
     (\<forall>c h w. does (AddOnPublishReceived api (Some c) h) w
        (\<lambda>r w'. r \<notin> fst ` set (hs w) \<and> hs w' = hs w @ [(r, h)] \<and> topics w' = topics w)) \<and>
     (\<forall>r w. does (CallRemove api r) w (\<lambda>_ w'. hs w' = filter (\<lambda>p. fst p \<noteq> r) (hs w) \<and> topics w' = topics w)) \<and>
     (\<forall>c p w. answers (ClientPublish api (Some c) p) w (\<lambda>_ w'. hs w' = hs w \<and> topics w' = topics w)
        (\<lambda>w'. hs w' = hs w \<and> topics w' = topics w))"

text \<open>A message of a topic that the broker sends: every function of the client is called with it.\<close>

definition deliveries :: "('r \<times> 'f publish_handler) list \<Rightarrow> string \<Rightarrow> byte list \<Rightarrow> ('f \<times> string \<times> byte list) list" where
  "deliveries hs topic payload = concat (map (\<lambda>(r, h). fst (on_publish h topic payload)) hs)"

text \<open>The function of a topic, and the invariant: one function of the client for every subscription.\<close>

definition paho_subs :: "('w, 'r, 'f) handlers_view \<Rightarrow> ('c, 'r) PahoMessageQueue \<Rightarrow> 'w world \<Rightarrow> string \<rightharpoonup> 'f" where
  "paho_subs hs pmq w t = Option.bind (pq_subscriptions pmq t) (\<lambda>r. map_option handler_function (map_of (hs w) r))"

definition paho_ready ::
    "('w, 'c, 'r, 'f) paho \<Rightarrow> ('w, 'r, 'f) handlers_view \<Rightarrow> 'w topics_view \<Rightarrow> ('c, 'r) PahoMessageQueue \<Rightarrow> 'w world \<Rightarrow> bool" where
  "paho_ready api hs topics pmq w \<longleftrightarrow> client_laws api hs topics \<and> pq_client pmq \<noteq> None \<and>
     distinct (map fst (hs w)) \<and> fst ` set (hs w) = ran (pq_subscriptions pmq) \<and>
     inj_on (pq_subscriptions pmq) (dom (pq_subscriptions pmq)) \<and> dom (pq_subscriptions pmq) \<subseteq> topics w"

lemma client_lawsD:
  assumes "client_laws api hs topics"
  shows "answers (NewConnection api cfg) w (\<lambda>c w'. hs w' = []) (\<lambda>_. True)"
    and "answers (AwaitConnection api c) w (\<lambda>_ w'. hs w' = hs w) (\<lambda>_. True)"
    and "answers (ClientSubscribe api (Some c) [(t, q)]) w (\<lambda>_ w'. hs w' = hs w \<and> topics w' = insert t (topics w))
      (\<lambda>w'. hs w' = hs w \<and> topics w' = topics w)"
    and "does (AddOnPublishReceived api (Some c) h) w
      (\<lambda>r w'. r \<notin> fst ` set (hs w) \<and> hs w' = hs w @ [(r, h)] \<and> topics w' = topics w)"
    and "does (CallRemove api r) w (\<lambda>_ w'. hs w' = filter (\<lambda>p. fst p \<noteq> r) (hs w) \<and> topics w' = topics w)"
    and "answers (ClientPublish api (Some c) p) w (\<lambda>_ w'. hs w' = hs w \<and> topics w' = topics w)
      (\<lambda>w'. hs w' = hs w \<and> topics w' = topics w)"
  using assms unfolding client_laws_def by (elim conjE; blast)+

subsection \<open>The client meets the contract\<close>

lemma paho_subs_new:
  assumes "paho_ready api hs topics pmq w" and "pq_subscriptions pmq t = None" and "r \<notin> fst ` set (hs w)"
    and "hs w' = hs w @ [(r, PassTo f)]" and "topics w' = insert t (topics w)"
  shows "paho_ready api hs topics (pmq \<lparr>pq_subscriptions := (pq_subscriptions pmq)(t \<mapsto> r)\<rparr>) w'"
    and "paho_subs hs (pmq \<lparr>pq_subscriptions := (pq_subscriptions pmq)(t \<mapsto> r)\<rparr>) w' = (paho_subs hs pmq w)(t \<mapsto> f)"
proof -
  note inv = assms(1) [unfolded paho_ready_def]
  have fresh: "pq_subscriptions pmq u \<noteq> Some r" for u
    using inv assms(3) by (auto simp: ran_def)
  have "inj_on ((pq_subscriptions pmq)(t \<mapsto> r)) (dom ((pq_subscriptions pmq)(t \<mapsto> r)))"
    using inv fresh assms(2) by (fastforce simp: inj_on_def dom_def)
  then show "paho_ready api hs topics (pmq \<lparr>pq_subscriptions := (pq_subscriptions pmq)(t \<mapsto> r)\<rparr>) w'"
    using inv assms by (auto simp: paho_ready_def ran_map_upd)
  have "map_of (hs w) r = None"
    using assms(3) by (simp add: map_of_eq_None_iff)
  then show "paho_subs hs (pmq \<lparr>pq_subscriptions := (pq_subscriptions pmq)(t \<mapsto> r)\<rparr>) w' = (paho_subs hs pmq w)(t \<mapsto> f)"
    using fresh by (auto simp: paho_subs_def fun_eq_iff assms(4) map_add_def split: option.splits bind_splits)
qed

lemma paho_subs_removed:
  assumes "paho_ready api hs topics pmq w" and "pq_subscriptions pmq t = Some r"
    and "hs w' = filter (\<lambda>p. fst p \<noteq> r) (hs w)" and "topics w' = topics w"
  shows "paho_ready api hs topics (pmq \<lparr>pq_subscriptions := (pq_subscriptions pmq)(t := None)\<rparr>) w'"
    and "paho_subs hs (pmq \<lparr>pq_subscriptions := (pq_subscriptions pmq)(t := None)\<rparr>) w' = (paho_subs hs pmq w)(t := None)"
proof -
  note inv = assms(1) [unfolded paho_ready_def]
  have other: "u \<noteq> t \<Longrightarrow> pq_subscriptions pmq u = Some r' \<Longrightarrow> r' \<noteq> r" for u r'
    using inv assms(2) unfolding inj_on_def by (metis domI)
  have "ran ((pq_subscriptions pmq)(t := None)) = ran (pq_subscriptions pmq) - {r}"
    using assms(2) by (auto simp: ran_def dest: other) (metis option.inject)
  moreover have "inj_on ((pq_subscriptions pmq)(t := None)) (dom ((pq_subscriptions pmq)(t := None)))"
    using inv by (auto simp: inj_on_def dom_def)
  moreover have "fst ` set (filter (\<lambda>p. fst p \<noteq> r) (hs w)) = fst ` set (hs w) - {r}"
    by auto
  ultimately show "paho_ready api hs topics (pmq \<lparr>pq_subscriptions := (pq_subscriptions pmq)(t := None)\<rparr>) w'"
    using inv by (auto simp: paho_ready_def assms(3,4) distinct_map_filter)
  have "map_of (filter (\<lambda>p. fst p \<noteq> r) xs) r' = (if r' = r then None else map_of xs r')" for xs :: "('c \<times> 'd publish_handler) list" and r'
    by (induction xs) auto
  then show "paho_subs hs (pmq \<lparr>pq_subscriptions := (pq_subscriptions pmq)(t := None)\<rparr>) w' = (paho_subs hs pmq w)(t := None)"
    using other by (auto simp: paho_subs_def fun_eq_iff assms(3) split: bind_splits)
qed

lemma paho_subs_None:
  assumes "paho_ready api hs topics pmq w"
  shows "paho_subs hs pmq w t = None \<longleftrightarrow> pq_subscriptions pmq t = None"
proof -
  have "pq_subscriptions pmq t = Some r \<Longrightarrow> map_of (hs w) r \<noteq> None" for r
    using assms unfolding paho_ready_def by (metis map_of_eq_None_iff ranI)
  then show ?thesis
    by (auto simp: paho_subs_def split: bind_splits)
qed

lemma paho_keeps:
  assumes "paho_ready api hs topics pmq w" and "hs w' = hs w" and "topics w' = topics w"
  shows "paho_ready api hs topics pmq w'" and "paho_subs hs pmq w' = paho_subs hs pmq w"
  using assms by (simp_all add: paho_ready_def paho_subs_def fun_eq_iff)

lemma paho_readyD:
  assumes "paho_ready api hs topics pmq w"
  shows "client_laws api hs topics" and "\<exists>c. pq_client pmq = Some c"
  using assms by (auto simp: paho_ready_def)

lemma paho_subscribe_new:
  assumes ready: "paho_ready api hs topics pmq w" and None: "pq_subscriptions pmq t = None"
  shows "answers (paho_Subscribe api pmq t f) w
      (\<lambda>pmq' w'. paho_ready api hs topics pmq' w' \<and> paho_subs hs pmq' w' = (paho_subs hs pmq w)(t \<mapsto> f))
      (\<lambda>w'. hs w' = hs w \<and> topics w' = topics w)"
proof -
  note laws = paho_readyD(1) [OF ready]
  obtain c where c: "pq_client pmq = Some c"
    using paho_readyD(2) [OF ready] by blast
  have eq: "paho_Subscribe api pmq t f = io_bind (ClientSubscribe api (Some c) [(t, 1)]) (\<lambda>_.
      io_bind (AddOnPublishReceived api (Some c) (PassTo f)) (\<lambda>r.
        io_return (pmq \<lparr>pq_subscriptions := (pq_subscriptions pmq)(t \<mapsto> r)\<rparr>)))"
    by (simp add: paho_Subscribe_def c None)
  show ?thesis
    unfolding eq
  proof (rule answers_bind [OF client_lawsD(3) [OF laws]], rule does_answers, rule does_bind,
      rule does_mono [OF client_lawsD(4) [OF laws]], elim conjE)
    fix r w1 w2 assume "hs w1 = hs w" "topics w1 = insert t (topics w)"
      and "r \<notin> fst ` set (hs w1)" "hs w2 = hs w1 @ [(r, PassTo f)]" "topics w2 = topics w1"
    then show "does (io_return (pmq \<lparr>pq_subscriptions := (pq_subscriptions pmq)(t \<mapsto> r)\<rparr>)) w2
      (\<lambda>pmq' w'. paho_ready api hs topics pmq' w' \<and> paho_subs hs pmq' w' = (paho_subs hs pmq w)(t \<mapsto> f))"
      using paho_subs_new [OF ready None, of r w2 f] by simp
  qed
qed

lemma paho_subscribe_ok:
  assumes ready: "paho_ready api hs topics pmq w"
  shows "does (mq_apply (paho_queue api) (DoSubscribe t f) pmq) w (\<lambda>(e, pmq') w'.
    paho_ready api hs topics pmq' w' \<and> spec_step (paho_subs hs pmq w) (DoSubscribe t f) e (paho_subs hs pmq' w'))"
proof (cases "pq_subscriptions pmq t")
  case (Some r)
  then have "paho_subs hs pmq w t \<noteq> None"
    using paho_subs_None [OF ready] by simp
  then show ?thesis
    using ready Some
    by (auto simp: paho_queue_def paho_Subscribe_def does_def io_defs spec_step.taken)
next
  case None
  then have new: "paho_subs hs pmq w t = None"
    using paho_subs_None [OF ready] by simp
  have "does (io_catch (paho_Subscribe api pmq t f)) w (\<lambda>r w'. case r of
      Inl e \<Rightarrow> hs w' = hs w \<and> topics w' = topics w
    | Inr pmq' \<Rightarrow> paho_ready api hs topics pmq' w' \<and> paho_subs hs pmq' w' = (paho_subs hs pmq w)(t \<mapsto> f))"
    using paho_subscribe_new [OF ready None] by (rule does_catch_answers) simp_all
  then show ?thesis
    unfolding mq_apply.simps does_bind_iff paho_queue_def CcMessageQueue.simps
  proof (rule does_mono)
    fix r :: "go_error + ('b, 'c) PahoMessageQueue" and w'
    assume "case r of Inl e \<Rightarrow> hs w' = hs w \<and> topics w' = topics w
      | Inr pmq' \<Rightarrow> paho_ready api hs topics pmq' w' \<and> paho_subs hs pmq' w' = (paho_subs hs pmq w)(t \<mapsto> f)"
    then show "does (io_return (case r of Inl e \<Rightarrow> (Some e, pmq) | Inr q' \<Rightarrow> (None, q'))) w' (\<lambda>(e, pmq') w'.
        paho_ready api hs topics pmq' w' \<and> spec_step (paho_subs hs pmq w) (DoSubscribe t f) e (paho_subs hs pmq' w'))"
      using paho_keeps [OF ready, of w'] by (cases r) (simp_all add: new spec_step.subscribed spec_step.refused)
  qed
qed

lemma paho_unsubscribe_ok:
  assumes ready: "paho_ready api hs topics pmq w"
  shows "does (mq_apply (paho_queue api) (DoUnSubscribe t) pmq) w (\<lambda>(e, pmq') w'.
    paho_ready api hs topics pmq' w' \<and> spec_step (paho_subs hs pmq w) (DoUnSubscribe t) e (paho_subs hs pmq' w'))"
proof (cases "pq_subscriptions pmq t")
  case None
  then have "paho_subs hs pmq w t = None"
    using paho_subs_None [OF ready] by simp
  then show ?thesis
    using ready None by (auto simp: paho_queue_def paho_UnSubscribe_def does_def io_defs spec_step.unknown)
next
  case (Some r)
  then have known: "paho_subs hs pmq w t \<noteq> None"
    using paho_subs_None [OF ready] by simp
  have "does (paho_UnSubscribe api pmq t) w
      (\<lambda>pmq' w'. paho_ready api hs topics pmq' w' \<and> paho_subs hs pmq' w' = (paho_subs hs pmq w)(t := None))"
    unfolding paho_UnSubscribe_def Some
    by (auto intro!: does_bind does_mono [OF client_lawsD(5) [OF paho_readyD(1) [OF ready]]] paho_subs_removed [OF ready Some])
  then show ?thesis
    unfolding mq_apply.simps does_bind_iff paho_queue_def CcMessageQueue.simps
    by (intro does_catch) (erule does_mono, simp add: known spec_step.unsubscribed)
qed

lemma paho_send_ok:
  assumes ready: "paho_ready api hs topics pmq w"
  shows "does (mq_apply (paho_queue api) (DoSend t p) pmq) w (\<lambda>(e, pmq') w'.
    paho_ready api hs topics pmq' w' \<and> spec_step (paho_subs hs pmq w) (DoSend t p) e (paho_subs hs pmq' w'))"
proof -
  obtain c where c: "pq_client pmq = Some c"
    using paho_readyD(2) [OF ready] by blast
  have "does (io_catch (paho_Send api pmq t p)) w (\<lambda>r w'. hs w' = hs w \<and> topics w' = topics w)"
    unfolding paho_Send_def c
    by (rule does_catch_answers [OF client_lawsD(6) [OF paho_readyD(1) [OF ready]]]) simp_all
  then show ?thesis
    unfolding mq_apply.simps does_bind_iff paho_queue_def CcMessageQueue.simps
  proof (rule does_mono, elim conjE)
    fix r :: "go_error + unit" and w'
    assume "hs w' = hs w" "topics w' = topics w"
    then show "does (io_return (case r of Inl e \<Rightarrow> (Some e, pmq) | Inr _ \<Rightarrow> (None, pmq))) w' (\<lambda>(e, pmq') w'.
        paho_ready api hs topics pmq' w' \<and> spec_step (paho_subs hs pmq w) (DoSend t p) e (paho_subs hs pmq' w'))"
      using paho_keeps [OF ready, of w'] by (cases r) (simp_all add: spec_step.sent)
  qed
qed

interpretation paho_mq: message_queue "paho_queue api" "paho_ready api hs topics" "paho_subs hs"
  by unfold_locales (rule paho_subscribe_ok paho_unsubscribe_ok paho_send_ok; assumption)+

subsection \<open>Properties of the queue\<close>

lemma NewMqttMessageQueue_ready:
  assumes "client_laws api hs topics" and "NewMqttMessageQueue url_Parse api clientId serverUri w0 = Some (Ok (pmq, None), w)"
  shows "paho_ready api hs topics pmq w" and "paho_subs hs pmq w = Map.empty"
proof -
  obtain mq where mq: "pq_subscriptions mq = Map.empty" and connect: "paho_Connect api mq w0 = Some (Ok pmq, w)"
    using assms(2)
    by (auto simp: NewMqttMessageQueue_def io_res_def io_defs Let_def split: res.splits option.splits prod.splits sum.splits
        intro!: that [of "\<lparr>pq_ClientId = clientId, pq_ServerURIs = [u], pq_client = None, pq_subscriptions = Map.empty\<rparr>" for u])
  from connect obtain c w1 where c: "NewConnection api (paho_config mq) w0 = Some (Ok c, w1)"
    and await: "AwaitConnection api c w1 = Some (Ok (), w)" and pmq: "pmq = mq \<lparr>pq_client := Some c\<rparr>"
    unfolding paho_Connect_def by (elim io_bind_OkE) (rule that, auto simp: io_return_def)
  have "hs w1 = []"
    using client_lawsD(1) [OF assms(1), of "paho_config mq" w0] by (rule answersE) (simp_all add: c)
  moreover have "hs w = hs w1"
    using client_lawsD(2) [OF assms(1), of c w1] by (rule answersE) (simp_all add: await)
  ultimately have "hs w = []" by simp
  then show "paho_ready api hs topics pmq w" and "paho_subs hs pmq w = Map.empty"
    using assms(1) by (simp_all add: pmq mq paho_ready_def paho_subs_def fun_eq_iff)
qed

text \<open>C5. Every sequence of calls on a new message queue, whatever the client answers, returns, and behaves as a map
  from topics to functions: a topic that is taken is refused, one that is not subscribed cannot be
  unsubscribed, and an error changes nothing.\<close>

theorem message_queue_refines_map:
  assumes "client_laws api hs topics" and "NewMqttMessageQueue url_Parse api clientId serverUri w0 = Some (Ok (pmq, None), w)"
  shows "does (mq_run (paho_queue api) cs pmq) w (\<lambda>(es, pmq') w'. spec_run Map.empty cs es (paho_subs hs pmq' w'))"
  using paho_mq.run_refines [OF NewMqttMessageQueue_ready(1) [OF assms], of cs] NewMqttMessageQueue_ready(2) [OF assms]
  by (auto elim!: does_pair)

lemma on_publish_fst: "fst (on_publish h t p) = [(handler_function h, t, p)]"
  by (cases h) simp

lemma deliveries_map: "deliveries hs t p = map (\<lambda>(r, h). (handler_function h, t, p)) hs"
  by (induction hs) (auto simp: deliveries_def on_publish_fst)

lemma deliveries_subs:
  assumes "paho_ready api hs topics pmq w"
  shows "set (deliveries (hs w) t p) = {(f, t, p) | u f. paho_subs hs pmq w u = Some f}"
proof -
  note inv = assms [unfolded paho_ready_def]
  have "(r, h) \<in> set (hs w) \<longleftrightarrow> map_of (hs w) r = Some h" for r h
    using inv by (simp add: map_of_eq_Some_iff)
  moreover have "(\<exists>u. pq_subscriptions pmq u = Some r) \<longleftrightarrow> map_of (hs w) r \<noteq> None" for r
    using inv by (simp add: map_of_eq_None_iff) (auto simp: ran_def)
  ultimately show ?thesis
    by (auto simp: deliveries_map paho_subs_def split: bind_splits) (force | metis option.distinct(1))+
qed


text \<open>C38. A message is passed to the functions of all topics that are subscribed, not only to that of its own topic; and
  unsubscribing a topic does not end the subscription at the broker, which keeps sending it.\<close>

theorem messages_reach_every_function:
  assumes "paho_ready api hs topics pmq w"
  shows "set (deliveries (hs w) t p) = {(f, t, p) | u f. paho_subs hs pmq w u = Some f} \<and>
    length (deliveries (hs w) t p) = card (dom (paho_subs hs pmq w)) \<and>
    does (mq_apply (paho_queue api) (DoUnSubscribe t) pmq) w (\<lambda>_ w'. topics w' = topics w)"
proof (intro conjI)
  note inv = assms [unfolded paho_ready_def]
  show "set (deliveries (hs w) t p) = {(f, t, p) | u f. paho_subs hs pmq w u = Some f}"
    by (rule deliveries_subs [OF assms])
  have "dom (paho_subs hs pmq w) = dom (pq_subscriptions pmq)"
    using paho_subs_None [OF assms] by (simp add: dom_def)
  moreover have "card (dom (pq_subscriptions pmq)) = card (pq_subscriptions pmq ` dom (pq_subscriptions pmq))"
    using inv by (simp add: card_image)
  moreover have "pq_subscriptions pmq ` dom (pq_subscriptions pmq) = Some ` fst ` set (hs w)"
    using inv by (auto simp: ran_def image_iff) (metis domI)
  moreover have "card (Some ` fst ` set (hs w)) = length (hs w)"
    using inv distinct_card [of "map fst (hs w)"] by (metis card_image inj_Some length_map set_map)
  ultimately show "length (deliveries (hs w) t p) = card (dom (paho_subs hs pmq w))"
    by (simp add: deliveries_map)
  show "does (mq_apply (paho_queue api) (DoUnSubscribe t) pmq) w (\<lambda>_ w'. topics w' = topics w)"
  proof (cases "pq_subscriptions pmq t")
    case None
    then show ?thesis
      by (simp add: paho_queue_def paho_UnSubscribe_def does_def io_defs)
  next
    case (Some r)
    have "does (paho_UnSubscribe api pmq t) w (\<lambda>_ w'. topics w' = topics w)"
      unfolding paho_UnSubscribe_def Some
      by (auto intro!: does_bind does_mono [OF client_lawsD(5) [OF paho_readyD(1) [OF assms]]])
    then show ?thesis
      unfolding mq_apply.simps does_bind_iff paho_queue_def CcMessageQueue.simps
      by (intro does_catch) (erule does_mono, simp)
  qed
qed

subsection \<open>A client in memory\<close>

record mem_client =
  mem_handlers :: "(nat \<times> string publish_handler) list"
  mem_topics :: "string set"

text \<open>A step of the client, and a number no handler has.\<close>

definition mem_step :: "(mem_client \<Rightarrow> 'a \<times> mem_client) \<Rightarrow> (mem_client, 'a) io" where
  "mem_step f w = (case f (remote w) of (x, s) \<Rightarrow> Some (Ok x, w \<lparr>remote := s\<rparr>))"

definition mem_fresh :: "mem_client \<Rightarrow> nat" where
  "mem_fresh s = Suc (sum_list (map fst (mem_handlers s)))"

definition mem_paho :: "(mem_client, unit, nat, string) paho" where
  "mem_paho = \<lparr>NewConnection = \<lambda>cfg. mem_step (\<lambda>s. ((), s \<lparr>mem_handlers := []\<rparr>)),
     AwaitConnection = \<lambda>c. io_return (),
     ClientSubscribe = \<lambda>c ts. mem_step (\<lambda>s. ((), s \<lparr>mem_topics := set (map fst ts) \<union> mem_topics s\<rparr>)),
     AddOnPublishReceived = \<lambda>c h. mem_step (\<lambda>s. (mem_fresh s, s \<lparr>mem_handlers := mem_handlers s @ [(mem_fresh s, h)]\<rparr>)),
     CallRemove = \<lambda>r. mem_step (\<lambda>s. ((), s \<lparr>mem_handlers := filter (\<lambda>p. fst p \<noteq> r) (mem_handlers s)\<rparr>)),
     ClientPublish = \<lambda>c p. io_return ()\<rparr>"

lemma mem_fresh_new: "mem_fresh s \<notin> fst ` set (mem_handlers s)"
proof -
  have "r \<le> sum_list (map fst (mem_handlers s))" if "r \<in> fst ` set (mem_handlers s)" for r
    using that member_le_sum_list [of r "map fst (mem_handlers s)"] by simp
  then show ?thesis
    unfolding mem_fresh_def by fastforce
qed

lemma mem_client_laws: "client_laws mem_paho (mem_handlers \<circ> remote) (mem_topics \<circ> remote)"
  using mem_fresh_new by (auto simp: client_laws_def mem_paho_def mem_step_def answers_def does_def io_return_def)

definition no_client :: "mem_client world" where
  "no_client = \<lparr>disk = \<lparr>fs_files = [], fs_dirs = []\<rparr>, remote = \<lparr>mem_handlers = [], mem_topics = {''old''}\<rparr>\<rparr>"

definition mem_queue :: "(unit, nat) PahoMessageQueue" where
  "mem_queue = \<lparr>pq_ClientId = ''c'', pq_ServerURIs = [''mqtt://h''], pq_client = Some (), pq_subscriptions = Map.empty\<rparr>"

lemma mem_queue_new: "NewMqttMessageQueue Ok mem_paho ''c'' ''h'' no_client = Some (Ok (mem_queue, None), no_client)"
  by (simp add: NewMqttMessageQueue_def paho_Connect_def mem_paho_def mem_step_def io_res_def io_defs no_client_def mem_queue_def)

theorem message_queue_refines_map_witness:
  "does (mq_run (paho_queue mem_paho) [DoSubscribe ''t'' ''f'', DoSubscribe ''t'' ''g'', DoUnSubscribe ''u'', DoSend ''t'' [1]] mem_queue)
     no_client (\<lambda>(es, q) w. spec_run Map.empty [DoSubscribe ''t'' ''f'', DoSubscribe ''t'' ''g'', DoUnSubscribe ''u'', DoSend ''t'' [1]] es
       (paho_subs (mem_handlers \<circ> remote) q w))"
  by (rule message_queue_refines_map [OF mem_client_laws mem_queue_new])

lemma mem_queue_ready: "paho_ready mem_paho (mem_handlers \<circ> remote) (mem_topics \<circ> remote) mem_queue no_client"
  by (rule NewMqttMessageQueue_ready(1) [OF mem_client_laws mem_queue_new])


text \<open>A queue with two topics, one of which has been unsubscribed.\<close>

definition mem_after :: "(unit, nat) PahoMessageQueue \<times> mem_client world" where
  "mem_after = (case mq_run (paho_queue mem_paho) [DoSubscribe ''t'' ''f'', DoSubscribe ''u'' ''g'', DoUnSubscribe ''t''] mem_queue no_client of
     Some (Ok (es, q), w) \<Rightarrow> (q, w) | _ \<Rightarrow> (mem_queue, no_client))"

theorem messages_reach_every_function_witness:
  "''t'' \<in> mem_topics (remote (snd mem_after)) \<and> paho_subs (mem_handlers \<circ> remote) (fst mem_after) (snd mem_after) ''t'' = None \<and>
   set (deliveries (mem_handlers (remote (snd mem_after))) ''t'' [1]) = {(''g'', ''t'', [1])}"
proof -
  have ready: "paho_ready mem_paho (mem_handlers \<circ> remote) (mem_topics \<circ> remote) (fst mem_after) (snd mem_after)"
    using paho_mq.run_refines [OF mem_queue_ready, of "[DoSubscribe ''t'' ''f'', DoSubscribe ''u'' ''g'', DoUnSubscribe ''t'']"]
    by (auto simp: mem_after_def does_def)
  have after: "mem_after = (mem_queue \<lparr>pq_subscriptions := [''u'' \<mapsto> 2]\<rparr>,
      no_client \<lparr>remote := \<lparr>mem_handlers = [(2, PassTo ''g'')], mem_topics = {''u'', ''t'', ''old''}\<rparr>\<rparr>)"
    by (simp add: mem_after_def paho_queue_def paho_Subscribe_def paho_UnSubscribe_def mem_queue_def mem_paho_def
        mem_step_def mem_fresh_def io_defs no_client_def fun_eq_iff)
  have "{(f, ''t'', [1::byte]) | u f. paho_subs (mem_handlers \<circ> remote) (fst mem_after) (snd mem_after) u = Some f} = {(''g'', ''t'', [1])}"
    by (auto simp: after paho_subs_def split: if_splits)
  then show ?thesis
    using messages_reach_every_function [OF ready, of "''t''" "[1]"] by (simp add: after paho_subs_def)
qed

end
