(* ===== verification/Loggers.thy ===== *)
theory Loggers
  imports Go_Strings "HOL-Library.Sublist" "HOL-Library.Word"
begin

section \<open>Loggers\<close>

text \<open>
  \<^verbatim>\<open>logger.go\<close>: the \<^verbatim>\<open>CcLogger\<close> over two handlers of \<^verbatim>\<open>log/slog\<close>, one on the standard output and one
  on a message writer; and the older \<^verbatim>\<open>Logger\<close> of \<^verbatim>\<open>logger_old.go\<close> with the levels of \<^verbatim>\<open>error.go\<close>.
  A log line is the list of its attributes, without the time; what \<^verbatim>\<open>fmt\<close> makes of a format is an
  argument.
\<close>

subsection \<open>Records of log/slog\<close>

datatype log_value = LevelValue int | StringValue string | AnyValue string
  | AttrValue string log_value | GroupValue "(string \<times> log_value) list"

type_synonym log_attr = "string \<times> log_value"
type_synonym log_line = "log_attr list"

datatype log_arg = ArgString string | ArgAttr string log_value | ArgOther log_value

fun any_value :: "log_arg \<Rightarrow> log_value" where
  "any_value (ArgString s) = StringValue s"
| "any_value (ArgAttr k v) = AttrValue k v"
| "any_value (ArgOther v) = v"

text \<open>\<^verbatim>\<open>argsToAttr\<close>: a string is a key for what follows it; what has no key gets \<^verbatim>\<open>!BADKEY\<close>. Empty groups are left out.\<close>

fun args_to_attrs :: "log_arg list \<Rightarrow> log_attr list" where
  "args_to_attrs [] = []"
| "args_to_attrs [ArgString s] = [(''!BADKEY'', StringValue s)]"
| "args_to_attrs (ArgString s # a # args) = (s, any_value a) # args_to_attrs args"
| "args_to_attrs (ArgAttr k v # args) = (k, v) # args_to_attrs args"
| "args_to_attrs (ArgOther v # args) = (''!BADKEY'', v) # args_to_attrs args"

definition record_attrs :: "log_arg list \<Rightarrow> log_attr list" where
  "record_attrs args = filter (\<lambda>(k, v). v \<noteq> GroupValue []) (args_to_attrs args)"

record handler_options =
  ho_Level :: int
  ho_ReplaceAttr :: "log_attr \<Rightarrow> log_attr res"

text \<open>\<^verbatim>\<open>appendAttr\<close>: every attribute that is not a group is replaced, those inside a group too.\<close>

fun replace_attr :: "(log_attr \<Rightarrow> log_attr res) \<Rightarrow> log_attr \<Rightarrow> log_attr res"
  and replace_attrs :: "(log_attr \<Rightarrow> log_attr res) \<Rightarrow> log_attr list \<Rightarrow> log_attr list res" where
  "replace_attr rep (k, v) = (case v of
     GroupValue attrs \<Rightarrow> res_bind (replace_attrs rep attrs) (\<lambda>as. Ok (k, GroupValue as))
   | _ \<Rightarrow> rep (k, v))"
| "replace_attrs rep [] = Ok []"
| "replace_attrs rep (a # as) = res_bind (replace_attr rep a) (\<lambda>b. res_bind (replace_attrs rep as) (\<lambda>bs. Ok (b # bs)))"

text \<open>\<^verbatim>\<open>Logger.Log\<close>: nothing below the level of the handler; else the level, the message and the attributes.\<close>

definition slog_Log :: "handler_options \<Rightarrow> int \<Rightarrow> string \<Rightarrow> log_arg list \<Rightarrow> log_line list res" where
  "slog_Log opts level msg args = (if level < ho_Level opts then Ok [] else
     res_bind (replace_attrs (ho_ReplaceAttr opts)
       ((''level'', LevelValue level) # (''msg'', StringValue msg) # record_attrs args)) (\<lambda>line. Ok [line]))"

text \<open>\<^verbatim>\<open>slog.Level.String\<close>\<close>

definition level_String :: "int \<Rightarrow> string" where
  "level_String l =
     (let str = (\<lambda>base val. if val = 0 then base else base @ (if val > 0 then ''+'' else []) @ show_int val) in
      if l < 0 then str ''DEBUG'' (l + 4) else if l < 4 then str ''INFO'' l
      else if l < 8 then str ''WARN'' (l - 4) else str ''ERROR'' (l - 8))"

subsection \<open>CcLogger\<close>

definition LevelDebug :: int where "LevelDebug = -4"
definition LevelAction :: int where "LevelAction = 41"
definition LevelSendMessage :: int where "LevelSendMessage = 42"
definition LevelFatal :: int where "LevelFatal = 99"

definition LevelNames :: "int \<rightharpoonup> string" where
  "LevelNames = [LevelAction \<mapsto> ''ACTION'', LevelSendMessage \<mapsto> ''SENDMESSAGE'', LevelFatal \<mapsto> ''FATAL'']"

text \<open>The type assertion on the level panics for any other value under the key \<^verbatim>\<open>level\<close>.\<close>

definition level_label :: "log_attr \<Rightarrow> log_attr res" where
  "level_label a = (if fst a = ''level'' then (case snd a of
       LevelValue level \<Rightarrow> Ok (fst a, StringValue (case LevelNames level of Some l \<Rightarrow> l | None \<Rightarrow> level_String level))
     | _ \<Rightarrow> Panic)
   else Ok a)"

definition ccLoggerOpts :: "int \<Rightarrow> handler_options" where
  "ccLoggerOpts cclevel = \<lparr>ho_Level = cclevel, ho_ReplaceAttr = level_label\<rparr>"

record CcLoggerInput =
  li_Manifest :: string
  li_Payload :: string
  li_MessageWriter :: bool

record CcLogger =
  lg_input :: CcLoggerInput
  lg_Logger :: handler_options
  lg_messageLogger :: "handler_options option"

definition NewCcLogger :: "CcLoggerInput \<Rightarrow> CcLogger" where
  "NewCcLogger input = \<lparr>lg_input = input, lg_Logger = ccLoggerOpts LevelDebug,
     lg_messageLogger = (if li_MessageWriter input then Some (ccLoggerOpts LevelSendMessage) else None)\<rparr>"

text \<open>What has been written to the standard output and to the message writer.\<close>

record log_out =
  out_stdout :: "log_line list"
  out_messages :: "log_line list"

type_synonym 'a logged = "log_out \<Rightarrow> 'a res \<times> log_out"

definition log_bind :: "'a logged \<Rightarrow> ('a \<Rightarrow> 'b logged) \<Rightarrow> 'b logged" where
  "log_bind m f s = (case m s of
     (Ok x, s') \<Rightarrow> f x s' | (Err e, s') \<Rightarrow> (Err e, s') | (Panic, s') \<Rightarrow> (Panic, s') | (Exit, s') \<Rightarrow> (Exit, s'))"

definition log_exit :: "unit logged" where
  "log_exit s = (Exit, s)"

definition lg_Log :: "CcLogger \<Rightarrow> int \<Rightarrow> string \<Rightarrow> log_arg list \<Rightarrow> unit logged" where
  "lg_Log l level msg args s = (case slog_Log (lg_Logger l) level msg args of
     Ok ls \<Rightarrow> (Ok (), s \<lparr>out_stdout := out_stdout s @ ls\<rparr>) | Err e \<Rightarrow> (Err e, s) | Panic \<Rightarrow> (Panic, s) | Exit \<Rightarrow> (Exit, s))"

definition lg_Message :: "CcLogger \<Rightarrow> int \<Rightarrow> string \<Rightarrow> log_arg list \<Rightarrow> unit logged" where
  "lg_Message l level msg args s = (case lg_messageLogger l of
     None \<Rightarrow> (Ok (), s)
   | Some opts \<Rightarrow> (case slog_Log opts level msg args of
       Ok ls \<Rightarrow> (Ok (), s \<lparr>out_messages := out_messages s @ ls\<rparr>) | Err e \<Rightarrow> (Err e, s) | Panic \<Rightarrow> (Panic, s) | Exit \<Rightarrow> (Exit, s)))"

definition lg_Action :: "CcLogger \<Rightarrow> string \<Rightarrow> log_arg list \<Rightarrow> unit logged" where
  "lg_Action l msg args = lg_Log l LevelAction msg args"

definition lg_Actionf :: "(string \<Rightarrow> log_arg list \<Rightarrow> string) \<Rightarrow> CcLogger \<Rightarrow> string \<Rightarrow> log_arg list \<Rightarrow> unit logged" where
  "lg_Actionf sprintf l msg args = lg_Log l LevelAction (sprintf msg args) []"

definition toAny :: "log_attr list \<Rightarrow> log_arg list" where
  "toAny attrs = map (\<lambda>(k, v). ArgAttr k v) attrs"

definition fromAny :: "log_arg list \<Rightarrow> log_attr list" where
  "fromAny vs = map (\<lambda>(i, v). (''item-'' @ show_nat i, any_value v)) (enumerate 0 vs)"

definition sliceToAnySlice :: "('t \<Rightarrow> log_arg) \<Rightarrow> 't list \<Rightarrow> log_arg list" where
  "sliceToAnySlice any t = map any t"

definition lg_SendMessage :: "CcLogger \<Rightarrow> string \<Rightarrow> string \<Rightarrow> log_attr list \<Rightarrow> unit logged" where
  "lg_SendMessage l channel msg args =
     (let attrs = toAny args @ [ArgAttr ''channel'' (StringValue channel),
        ArgAttr ''manifest'' (StringValue (li_Manifest (lg_input l))), ArgAttr ''payload'' (StringValue (li_Payload (lg_input l)))] in
      log_bind (lg_Log l LevelSendMessage msg attrs) (\<lambda>_. lg_Message l LevelSendMessage msg attrs))"

definition lg_Fatal :: "CcLogger \<Rightarrow> string \<Rightarrow> log_attr list \<Rightarrow> unit logged" where
  "lg_Fatal l msg args = log_bind (lg_Log l LevelAction msg []) (\<lambda>_. log_exit)"

definition lg_Fatalf :: "(string \<Rightarrow> log_arg list \<Rightarrow> string) \<Rightarrow> CcLogger \<Rightarrow> string list \<Rightarrow> unit logged" where
  "lg_Fatalf sprintf l msg = (case msg of
     [] \<Rightarrow> (\<lambda>s. (Panic, s))
   | errmessage # args \<Rightarrow> log_bind (lg_Log l LevelAction (sprintf errmessage (sliceToAnySlice ArgString args)) []) (\<lambda>_. log_exit))"

text \<open>\<^verbatim>\<open>ActionRunnerBase.Log\<close> of \<^verbatim>\<open>pluginmanager.go\<close>: the name of the action is appended to the arguments.\<close>

definition arb_Log :: "CcLogger \<Rightarrow> string \<Rightarrow> string \<Rightarrow> log_arg list \<Rightarrow> unit logged" where
  "arb_Log l actionName msg args = lg_Action l msg (args @ [ArgString ''action'', ArgString actionName])"

subsection \<open>The older logger\<close>

type_synonym ErrorLevel = "8 word"

definition DEBUG :: ErrorLevel where "DEBUG = 0"
definition INFO :: ErrorLevel where "INFO = 1"
definition WARN :: ErrorLevel where "WARN = 2"
definition ERROR :: ErrorLevel where "ERROR = 3"
definition FATAL :: ErrorLevel where "FATAL = 4"
definition PANIC :: ErrorLevel where "PANIC = 5"
definition DISABLED :: ErrorLevel where "DISABLED = 6"

definition ErrorLevel_String :: "ErrorLevel \<Rightarrow> string" where
  "ErrorLevel_String l =
     (if l = INFO then ''some information'' else if l = WARN then ''a warning'' else if l = ERROR then ''an error''
      else if l = DEBUG then ''a debug statement'' else if l = FATAL then ''a fatal message''
      else if l = PANIC then ''a panic'' @ [CHR 0x27] @ ''ed state'' else if l = DISABLED then [] else ''unknown level'')"

record old_error =
  er_ErrorLevel :: ErrorLevel
  er_Error :: string

record old_message =
  ms_Message :: string

definition COMPUTING :: string where "COMPUTING = ''Computing''"
definition FAILED :: string where "FAILED = ''Failed''"
definition SUCCEEDED :: string where "SUCCEEDED = ''Succeeded''"

record StatusReport =
  sr_Status :: string
  sr_Progress :: int

record old_logger =
  ol_ErrorFilter :: ErrorLevel
  ol_Sender :: string

text \<open>A line with the place of the call, and one without; the time is left out.\<close>

datatype old_line = Located string string string | Plain string string string | MessageLine string string
  | StatusLine string string int

definition writeError :: "old_logger \<Rightarrow> old_error \<Rightarrow> old_line list" where
  "writeError l log =
     (let located = Located (ol_Sender l) (ErrorLevel_String (er_ErrorLevel log)) (er_Error log);
          plain = Plain (ol_Sender l) (ErrorLevel_String (er_ErrorLevel log)) (er_Error log) in
      if ol_ErrorFilter l = DEBUG then [located]
      else (if er_ErrorLevel log \<ge> ERROR then [located] else []) @ [plain])"

definition SetErrorFilter :: "old_logger \<Rightarrow> ErrorLevel \<Rightarrow> old_logger" where
  "SetErrorFilter l logLevel = l \<lparr>ol_ErrorFilter := logLevel\<rparr>"

definition LogMessage :: "old_logger \<Rightarrow> old_message \<Rightarrow> old_line list" where
  "LogMessage l message = [MessageLine (ol_Sender l) (ms_Message message)]"

definition LogError :: "old_logger \<Rightarrow> old_error \<Rightarrow> old_line list" where
  "LogError l err = (if ol_ErrorFilter l \<le> er_ErrorLevel err then writeError l err else [])"

definition ReportProgress :: "old_logger \<Rightarrow> StatusReport \<Rightarrow> old_line list" where
  "ReportProgress l status = [StatusLine (ol_Sender l) (sr_Status status) (sr_Progress status)]"

subsection \<open>What is written\<close>

text \<open>An attribute that the handlers can write: no value under the key \<^verbatim>\<open>level\<close> that is not a level, in groups either.\<close>

fun attr_ok :: "log_attr \<Rightarrow> bool" and attrs_ok :: "log_attr list \<Rightarrow> bool" where
  "attr_ok (k, v) = (case v of GroupValue attrs \<Rightarrow> attrs_ok attrs | LevelValue _ \<Rightarrow> True | _ \<Rightarrow> k \<noteq> ''level'')"
| "attrs_ok [] = True"
| "attrs_ok (a # as) = (attr_ok a \<and> attrs_ok as)"

text \<open>A level under the key \<^verbatim>\<open>level\<close> is written as its label.\<close>

fun labelled :: "log_attr \<Rightarrow> log_attr" and labelled_all :: "log_attr list \<Rightarrow> log_attr list" where
  "labelled (k, v) = (case v of
     GroupValue attrs \<Rightarrow> (k, GroupValue (labelled_all attrs))
   | LevelValue l \<Rightarrow> if k = ''level'' then (k, StringValue (case LevelNames l of Some n \<Rightarrow> n | None \<Rightarrow> level_String l)) else (k, v)
   | _ \<Rightarrow> (k, v))"
| "labelled_all [] = []"
| "labelled_all (a # as) = labelled a # labelled_all as"

lemma replace_attrs_label:
  "replace_attr level_label a = (if attr_ok a then Ok (labelled a) else Panic)"
  "replace_attrs level_label as = (if attrs_ok as then Ok (labelled_all as) else Panic)"
  by (induction a and as rule: attr_ok_attrs_ok.induct) (auto simp: level_label_def split: log_value.splits)

text \<open>The line of a call.\<close>

definition line_of :: "int \<Rightarrow> string \<Rightarrow> log_attr list \<Rightarrow> log_line" where
  "line_of level msg attrs = (''level'', StringValue (case LevelNames level of Some n \<Rightarrow> n | None \<Rightarrow> level_String level)) #
     (''msg'', StringValue msg) # labelled_all attrs"

lemma slog_Log_cc:
  "slog_Log (ccLoggerOpts c) level msg args = (if level < c then Ok []
     else if attrs_ok (record_attrs args) then Ok [line_of level msg (record_attrs args)] else Panic)"
  by (simp add: slog_Log_def ccLoggerOpts_def replace_attrs_label line_of_def del: replace_attr.simps)

lemma args_to_attrs_toAny: "args_to_attrs (toAny as) = as"
  by (induction as) (auto simp: toAny_def)

lemma args_to_attrs_append: "args_to_attrs (toAny as @ toAny bs) = as @ bs"
  using args_to_attrs_toAny [of "as @ bs"] by (simp add: toAny_def)

text \<open>The attributes of a sent message: those given, then the channel, the manifest and the payload.\<close>

definition message_attrs :: "CcLoggerInput \<Rightarrow> string \<Rightarrow> log_attr list \<Rightarrow> log_attr list" where
  "message_attrs input channel args = filter (\<lambda>(k, v). v \<noteq> GroupValue []) args @
     [(''channel'', StringValue channel), (''manifest'', StringValue (li_Manifest input)), (''payload'', StringValue (li_Payload input))]"

lemma record_attrs_message:
  "record_attrs (toAny args @ [ArgAttr ''channel'' (StringValue channel), ArgAttr ''manifest'' (StringValue (li_Manifest input)),
     ArgAttr ''payload'' (StringValue (li_Payload input))]) = message_attrs input channel args"
  using args_to_attrs_append [of args "[(''channel'', StringValue channel), (''manifest'', StringValue (li_Manifest input)),
     (''payload'', StringValue (li_Payload input))]"]
  by (simp add: record_attrs_def message_attrs_def toAny_def)

lemma record_attrs_more: "record_attrs (toAny as @ args) = record_attrs (toAny as) @ record_attrs args"
  by (induction as) (auto simp: record_attrs_def toAny_def)

lemma record_attrs_strings:
  "record_attrs [ArgString a, ArgString b] = [(a, StringValue b)]"
  "record_attrs [ArgString a, ArgString b, ArgString c] = [(a, StringValue b), (''!BADKEY'', StringValue c)]"
  by (simp_all add: record_attrs_def)

lemma attrs_ok_append: "attrs_ok (as @ bs) \<longleftrightarrow> attrs_ok as \<and> attrs_ok bs"
  by (induction as) auto

lemma attrs_ok_message: "attrs_ok (message_attrs input channel args) \<longleftrightarrow> attrs_ok (filter (\<lambda>(k, v). v \<noteq> GroupValue []) args)"
  by (simp add: message_attrs_def attrs_ok_append)

lemma LevelNames_simps [simp]:
  "LevelNames LevelSendMessage = Some ''SENDMESSAGE''" "LevelNames LevelAction = Some ''ACTION''"
  by (simp_all add: LevelNames_def LevelSendMessage_def LevelAction_def LevelFatal_def)

lemma lg_SendMessage_cc:
  "lg_SendMessage (NewCcLogger input) channel msg args s =
    (let line = line_of LevelSendMessage msg (message_attrs input channel args) in
     if attrs_ok (filter (\<lambda>(k, v). v \<noteq> GroupValue []) args) then
       (Ok (), \<lparr>out_stdout = out_stdout s @ [line],
          out_messages = out_messages s @ (if li_MessageWriter input then [line] else [])\<rparr>)
     else (Panic, s))"
  by (cases s) (simp add: lg_SendMessage_def NewCcLogger_def log_bind_def lg_Log_def lg_Message_def slog_Log_cc Let_def
      record_attrs_message attrs_ok_message LevelDebug_def LevelSendMessage_def)

lemma lg_Fatal_cc:
  "lg_Fatal (NewCcLogger input) msg args s =
    (Exit, s \<lparr>out_stdout := out_stdout s @ [[(''level'', StringValue ''ACTION''), (''msg'', StringValue msg)]]\<rparr>)"
  by (simp add: lg_Fatal_def NewCcLogger_def log_bind_def lg_Log_def slog_Log_cc record_attrs_def log_exit_def line_of_def
      LevelDebug_def LevelAction_def LevelNames_simps [unfolded LevelAction_def])


text \<open>A fatal error is written as an action, not as a fatal error, and without its attributes; then the process exits.\<close>

theorem Fatal_line:
  "lg_Fatal (NewCcLogger input) msg args s =
    (Exit, s \<lparr>out_stdout := out_stdout s @ [[(''level'', StringValue ''ACTION''), (''msg'', StringValue msg)]]\<rparr>)"
  by (rule lg_Fatal_cc)

text \<open>The log line of an action runner ends with the name of its action when its arguments are attributes; after
  arguments that end in a key without a value, that key gets the word action for its value and
  the name has no key.\<close>

theorem arb_Log_line:
  assumes "attrs_ok (record_attrs (toAny attrs))" and "key \<noteq> ''level''"
  shows "arb_Log (NewCcLogger input) name msg (toAny attrs) s = (Ok (), s \<lparr>out_stdout := out_stdout s @
      [line_of LevelAction msg (record_attrs (toAny attrs) @ [(''action'', StringValue name)])]\<rparr>) \<and>
    arb_Log (NewCcLogger input) name msg (toAny attrs @ [ArgString key]) s = (Ok (), s \<lparr>out_stdout := out_stdout s @
      [line_of LevelAction msg (record_attrs (toAny attrs) @ [(key, StringValue ''action''), (''!BADKEY'', StringValue name)])]\<rparr>)"
  using assms record_attrs_more [of attrs "[ArgString ''action'', ArgString name]"]
    record_attrs_more [of attrs "[ArgString key, ArgString ''action'', ArgString name]"]
  by (simp add: arb_Log_def lg_Action_def NewCcLogger_def lg_Log_def slog_Log_cc attrs_ok_append record_attrs_strings
      LevelDebug_def LevelAction_def)

subsection \<open>The message writer\<close>

datatype log_call = CallLog int string "log_arg list" | CallAction string "log_arg list"
  | CallSendMessage string string "log_attr list" | CallFatal string "log_attr list"

fun do_log :: "CcLogger \<Rightarrow> log_call \<Rightarrow> unit logged" where
  "do_log l (CallLog level msg args) = lg_Log l level msg args"
| "do_log l (CallAction msg args) = lg_Action l msg args"
| "do_log l (CallSendMessage channel msg args) = lg_SendMessage l channel msg args"
| "do_log l (CallFatal msg args) = lg_Fatal l msg args"

text \<open>The process goes on after a call that returns, and after a panic that is recovered.\<close>

inductive log_reachable :: "CcLogger \<Rightarrow> log_out \<Rightarrow> bool" for l where
  log_start: "log_reachable l \<lparr>out_stdout = [], out_messages = []\<rparr>"
| log_step: "log_reachable l s \<Longrightarrow> do_log l c s = (r, s') \<Longrightarrow> log_reachable l s'"

lemma lg_Log_out: "lg_Log l level msg args s = (r, s') \<Longrightarrow>
    \<exists>ls. s' = s \<lparr>out_stdout := out_stdout s @ ls\<rparr>"
  unfolding lg_Log_def by (cases "slog_Log (lg_Logger l) level msg args") (auto intro: exI [of _ "[]"])

text \<open>C40. Whatever is logged, the lines of the message writer are among those of the standard output, in the same order,
  and each is labelled SENDMESSAGE.\<close>

theorem message_writer_lines:
  assumes "log_reachable (NewCcLogger input) s"
  shows "subseq (out_messages s) (out_stdout s) \<and>
    (\<forall>line \<in> set (out_messages s). hd line = (''level'', StringValue ''SENDMESSAGE''))"
  using assms
proof (induction rule: log_reachable.induct)
  case (log_step s c r s')
  have keep: "out_messages s' = out_messages s \<and> (\<exists>ls. out_stdout s' = out_stdout s @ ls) \<Longrightarrow> ?case"
    using log_step.IH by (auto intro: list_emb_prefix)
  show ?case
  proof (cases c)
    case (CallSendMessage channel msg args)
    then show ?thesis
      using log_step.hyps(2) log_step.IH lg_SendMessage_cc [of input channel msg args s]
      by (auto simp: Let_def line_of_def split: if_splits intro: list_emb_append_mono list_emb_prefix)
  next
    case (CallFatal msg args)
    then show ?thesis
      using keep log_step.hyps(2) lg_Fatal_cc [of input msg args s] by auto
  qed (use keep log_step.hyps(2) lg_Log_out in \<open>fastforce simp: lg_Action_def\<close>)+
qed simp

text \<open>The older logger drops an error below its filter. With the filter at DEBUG an error is one line; with a higher
  filter, an error of level ERROR or above is written twice, with its place and without, and one
  below it once.\<close>

theorem LogError_lines:
  "length (LogError l err) =
    (if er_ErrorLevel err < ol_ErrorFilter l then 0
     else if ol_ErrorFilter l \<noteq> DEBUG \<and> er_ErrorLevel err \<ge> ERROR then 2 else 1)"
  by (auto simp: LogError_def writeError_def Let_def)

subsection \<open>Instances\<close>

theorem arb_Log_line_witness:
  "out_stdout (snd (arb_Log (NewCcLogger \<lparr>li_Manifest = ''m'', li_Payload = ''p'', li_MessageWriter = False\<rparr>) ''run'' ''hi''
      [ArgAttr ''n'' (AnyValue ''1''), ArgString ''k''] \<lparr>out_stdout = [], out_messages = []\<rparr>)) =
    [line_of LevelAction ''hi'' [(''n'', AnyValue ''1''), (''k'', StringValue ''action''), (''!BADKEY'', StringValue ''run'')]]"
  using arb_Log_line [of "[(''n'', AnyValue ''1'')]" "''k''"] by (simp add: toAny_def record_attrs_def)

theorem message_writer_lines_witness:
  "let l = NewCcLogger \<lparr>li_Manifest = ''m'', li_Payload = ''p'', li_MessageWriter = True\<rparr>;
       s = snd (do_log l (CallAction ''a'' [ArgString ''x'']) \<lparr>out_stdout = [], out_messages = []\<rparr>);
       s' = snd (do_log l (CallSendMessage ''c'' ''hello'' [(''n'', AnyValue ''1'')]) s)
   in length (out_messages s') = 1 \<and> subseq (out_messages s') (out_stdout s')"
proof -
  let ?l = "NewCcLogger \<lparr>li_Manifest = ''m'', li_Payload = ''p'', li_MessageWriter = True\<rparr>"
  let ?s = "snd (do_log ?l (CallAction ''a'' [ArgString ''x'']) \<lparr>out_stdout = [], out_messages = []\<rparr>)"
  let ?s' = "snd (do_log ?l (CallSendMessage ''c'' ''hello'' [(''n'', AnyValue ''1'')]) ?s)"
  have reach: "log_reachable ?l ?s'"
    by (rule log_step, rule log_step, rule log_start) (rule prod.collapse [symmetric])+
  have "out_messages ?s = []"
    by (simp add: lg_Action_def NewCcLogger_def lg_Log_def slog_Log_cc LevelDebug_def LevelAction_def record_attrs_def)
  then have "length (out_messages ?s') = 1"
    using lg_SendMessage_cc [of "\<lparr>li_Manifest = ''m'', li_Payload = ''p'', li_MessageWriter = True\<rparr>" "''c''" "''hello''" "[(''n'', AnyValue ''1'')]" ?s]
    by (simp add: Let_def)
  then show ?thesis
    using message_writer_lines [OF reach] by (simp add: Let_def)
qed

end
