(* ===== verification/Spec2Isabelle.thy ===== *)
theory Spec2Isabelle
  imports Action_Operations Cc_Store TileDb_Metadata TileDb_Memory Message_Queue Loggers
begin

text \<open>
  Verification of the Cloud Compute Go SDK (cc-go).

  The program. A plugin of Cloud Compute is started with the identifiers of a payload in its
  environment. \<^verbatim>\<open>InitPluginManager\<close> opens the store of the compute, reads the payload, fills in the
  markers (\<^verbatim>\<open>{ATTR::name}\<close>, \<^verbatim>\<open>{ENV::name}\<close>, with an index in brackets) in its attributes, store
  parameters and data sources, connects the data stores and links the actions to the manager.
  \<^verbatim>\<open>RunActions\<close> then runs the registered runner of each action; runners read and write data through
  the IO manager of their action, which looks stores and data sources up by name in its own scope
  and then in those of its parents. Beside this stand the event store (records kept as columns of
  multidimensional arrays, with an implementation over TileDB), a message queue over MQTT and two
  loggers.

  How Go is read. A call returns a value of \<open>'a res\<close>: a result, an error return, a panic or the end
  of the process; every early return, panic and \<^verbatim>\<open>os.Exit\<close> of the source is a branch of the model.
  A call that touches the local disk or a service is a state-passing function over a \<open>world\<close> (a
  file system and an abstract remote state), with \<open>None\<close> for a call that does not return. Strings
  are lists of bytes, integers are kept at their width (\<open>word\<close>) or as \<open>int\<close> with the range of a
  64-bit Go \<^verbatim>\<open>int\<close> written out. Maps are association lists with distinct keys; the order in which a
  \<^verbatim>\<open>range\<close> visits a map is an argument, and where a loop deletes and stores entries of the map it
  ranges over, the run follows a schedule of visits that Go allows (\<open>Go_Range\<close>). Pointers between
  IO managers are addresses of a heap, so that a cycle of parents can be stated.

  Foundations.
  \<^item> \<open>Go_Prelude\<close>: results, errors, state passing, Go maps, 64-bit arithmetic; \<open>Go_Values\<close>: the values
    of attributes; \<open>Go_Strings\<close>: what is used of \<^verbatim>\<open>strings\<close>, \<^verbatim>\<open>strconv\<close> and \<^verbatim>\<open>fmt\<close>; \<open>Go_Files\<close>: \<^verbatim>\<open>path/filepath\<close> and a
    file system; \<open>Go_Range\<close>: \<^verbatim>\<open>range\<close> over a map that is changed; \<open>Go_Reflect\<close>: kinds, cells and
    slices behind an \<^verbatim>\<open>any\<close>; \<open>Io_Calls\<close>: loops, ignored errors and deferred calls, with rules of
    total correctness for sequences of calls (\<open>does\<close>, \<open>fails\<close>, \<open>answers\<close>).

  Payloads and markers.
  \<^item> \<open>Substitution_Regex\<close>: \<^verbatim>\<open>substitutionRegex\<close> (\<^verbatim>\<open>pluginmanager.go\<close>) as a regular expression with its
    language and captures, and the matcher, which is shown to decide it.
  \<^item> \<open>Marker_Templates\<close>: markers as syntax, \<^verbatim>\<open>matchToEmbeddedVars\<close> and \<^verbatim>\<open>templateVarSubstitution\<close>;
    printing and decoding are inverse.
  \<^item> \<open>Parameter_Substitution\<close>: \<^verbatim>\<open>parameterSubstitute\<close> and \<^verbatim>\<open>getSubstitutionVal\<close>; a specification of what a
    template expands to, and that the code refines it whatever the order of its map loops.
  \<^item> \<open>Data_Model\<close>, \<open>Payload_Attributes\<close>: the structs of \<^verbatim>\<open>payload.go\<close>, \<^verbatim>\<open>datastore.go\<close> and
    \<^verbatim>\<open>plugin/ccutility.go\<close>, and the typed getters of \<^verbatim>\<open>payload-attributes.go\<close>.
  \<^item> \<open>Payload_Substitution\<close>: \<^verbatim>\<open>substituteMapVariables\<close>, \<^verbatim>\<open>handleSliceSub\<close>, \<^verbatim>\<open>pathsSubstitute\<close> and
    \<^verbatim>\<open>substituteVariables\<close>: when every schedule ends in the same entries, and what substitution leaves
    alone.

  Stores, data and actions.
  \<^item> \<open>IO_Manager\<close>: the lookups of \<^verbatim>\<open>payload.go\<close> as partial functions over a heap of managers; the
    contract \<open>scoped_lookup\<close> gives the nearest scope, the error and exactly when a lookup recurses
    for ever.
  \<^item> \<open>Store_Sessions\<close>: the registry of \<^verbatim>\<open>datastore.go\<close>, \<^verbatim>\<open>file_datastore.go\<close>, \<^verbatim>\<open>connectStores\<close>.
  \<^item> \<open>IO_Operations\<close>: \<^verbatim>\<open>GetReader\<close>, \<^verbatim>\<open>Get\<close>, \<^verbatim>\<open>Put\<close>, \<^verbatim>\<open>Copy\<close>, \<^verbatim>\<open>CopyFileToLocal\<close>, \<^verbatim>\<open>CopyFileToRemote\<close>,
    \<^verbatim>\<open>GetStoreAs\<close>, \<^verbatim>\<open>GetAbsolutePath\<close> of \<^verbatim>\<open>payload.go\<close>.
  \<^item> \<open>Plugin_Manager\<close>: \<^verbatim>\<open>InitPluginManager\<close>, \<^verbatim>\<open>RunActions\<close> and the registry of runners.
  \<^item> \<open>Action_Operations\<close>: the methods of \<^verbatim>\<open>Action\<close> and \<^verbatim>\<open>PluginManager\<close> a plugin calls; an action
    without scopes of its own is the manager, and what one action puts another one gets, from the
    initialisation to the bytes.
  \<^item> \<open>Cc_Store\<close>: \<^verbatim>\<open>ccstore.go\<close>, \<^verbatim>\<open>ccstore_fsb.go\<close>, \<^verbatim>\<open>ccstore_s3.go\<close>; both stores meet the
    contract \<open>object_store\<close>, and so agree on what was put.

  Events.
  \<^item> \<open>Event_Store\<close>: \<^verbatim>\<open>event_store.go\<close>: records to columns, rows and columns of a result, \<^verbatim>\<open>Scan\<close>.
  \<^item> \<open>Dense_Arrays\<close>, \<open>Recordset\<close>: what an array of any number of dimensions holds, the box of it that
    a range selects, and the contract \<open>array_store\<close> on which the life of a recordset rests.
  \<^item> \<open>TileDb_Api\<close>, \<open>TileDb_Store\<close>, \<open>TileDb_Strings\<close>, \<open>TileDb_Metadata\<close>: \<^verbatim>\<open>tiledb-store/tiledb_store.go\<close>,
    with the TileDB package as three records of functions.
  \<^item> \<open>TileDb_Laws\<close>: what that package is assumed to do; \<open>TileDb_Create\<close>, \<open>TileDb_Put\<close>, \<open>TileDb_Get\<close>:
    what the three operations do under these laws; \<open>TileDb_Arrays\<close>: they meet \<open>array_store\<close>, so that
    records and simple arrays that are written are read back, as a whole or in part, and what is
    refused; \<open>TileDb_Memory\<close>: a package that meets the laws, on which all of it is run.

  Messages.
  \<^item> \<open>Message_Queue\<close>: \<^verbatim>\<open>mq/cc-message-queue.go\<close> over an MQTT client; the contract \<open>message_queue\<close> is a
    map from topics to functions, kept by every sequence of calls.
  \<^item> \<open>Loggers\<close>: \<^verbatim>\<open>logger.go\<close>, \<^verbatim>\<open>logger_old.go\<close>, \<^verbatim>\<open>error.go\<close>, \<^verbatim>\<open>message.go\<close>, \<^verbatim>\<open>status.go\<close> and
    \<^verbatim>\<open>ActionRunnerBase.Log\<close>.

  Bounds. No definition has fuel: loops recurse on their list, template or map, or on a schedule
  that is checked to be a run Go allows and is \<open>None\<close> otherwise; lookups through parents are
  partial functions whose divergence is characterised. Allocations are limited to the 48 bits of
  the address space, above which \<^verbatim>\<open>make\<close> panics; sizes of columns are assumed below that bound where
  a round trip is stated.

  What is assumed of code that is not in the repository, always as a hypothesis that a witness
  meets:
  \<^item> the file stores of \<^verbatim>\<open>filesapi\<close> return what was put last (\<open>store_laws\<close>), leave other objects alone
    (\<open>store_frame\<close>) and walk their listing in order (\<open>walks_listing\<close>);
  \<^item> JSON decodes what it encoded (\<open>json_laws\<close>); the conversions of \<^verbatim>\<open>cast\<close> and \<^verbatim>\<open>mapstructure\<close>, the
    environment and the printing of floats are parameters;
  \<^item> the MQTT client adds, removes and calls handlers as documented (\<open>client_laws\<close>);
  \<^item> TileDB keeps schemas and columns and reports the domain and attributes of an array; the
    estimate of the size of a buffer is exact for a whole array and for columns of fixed size; an
    absent array cannot be opened and an existing one cannot be created (\<open>tiledb_laws\<close>).

  Not modelled, and why. JSON decoding itself and \<^verbatim>\<open>JSONSchemaExtend\<close> are libraries and a schema
  description; \<^verbatim>\<open>FileDataStore.GetSession\<close> is a type switch over clients of another package; the
  callbacks of the MQTT connection, and the logging inside \<^verbatim>\<open>InitPluginManager\<close> and \<^verbatim>\<open>RunActions\<close>,
  only write log lines; the time and the layout of a log line are those of \<^verbatim>\<open>log/slog\<close>; the options
  for retries of the AWS client are data for another package. Concurrent use of the message queue
  is outside the model: its map of subscriptions has no lock, and calls are taken one at a time.
  The test files, and the code that is commented out, are left aside.
\<close>

end
